(* ===== verification/Prelude.thy ===== *)
theory Prelude
  imports Main "HOL-Library.Word" "HOL-Library.Char_ord" "HOL-Library.List_Lexorder"
begin

text \<open>
  The shared base of the development: the machine integers of the Rust code, its
  \<open>Result\<close> type, the effectful computations that return a \<open>Result\<close> and keep the state
  reached when they fail, and the small list lemmas the components share.

  A Rust \<open>String\<close>, \<open>OsString\<close>, \<open>PathBuf\<close> and \<open>Vec<u8>\<close> are all sequences of bytes; they
  are modelled by \<open>string\<close>, whose characters are the 256 byte values, so that lengths are
  the byte lengths of the code and the order of strings is the byte order of the code.
\<close>

named_theorems path_simps "evaluation of path operations"
named_theorems os_frame "what a system call leaves unchanged"
named_theorems run "evaluation of effectful computations on a concrete state"

section \<open>Machine types\<close>

type_synonym u8 = "8 word"
type_synonym u32 = "32 word"
type_synonym u64 = "64 word"
type_synonym uuid = "128 word"
type_synonym bytes = string

text \<open>\<open>u64::checked_add\<close>, \<open>i64::try_from\<close> on an unsigned value, \<open>u64::try_from\<close> on a signed one.\<close>

definition checked_add_u64 :: "u64 \<Rightarrow> u64 \<Rightarrow> u64 option" where
  "checked_add_u64 a b = (if unat a + unat b < 2 ^ 64 then Some (a + b) else None)"

definition i64_of_u64 :: "u64 \<Rightarrow> int option" where
  "i64_of_u64 a = (if uint a < 2 ^ 63 then Some (uint a) else None)"

definition u64_of_i64 :: "int \<Rightarrow> u64 option" where
  "u64_of_i64 i = (if 0 \<le> i then Some (word_of_int i) else None)"

lemma checked_add_u64_Some:
  "checked_add_u64 a b = Some c \<longleftrightarrow> unat a + unat b < 2 ^ 64 \<and> c = a + b"
  by (auto simp: checked_add_u64_def)

lemma checked_add_u64_unat: "checked_add_u64 a b = Some c \<Longrightarrow> unat c = unat a + unat b"
  by (auto simp: checked_add_u64_def unat_word_ariths split: if_splits)

lemma checked_add_u64_code [code]:
  "checked_add_u64 a b = (if uint a + uint b < 2 ^ 64 then Some (a + b) else None)"
proof -
  have "unat a + unat b < 2 ^ 64 \<longleftrightarrow> int (unat a + unat b) < int (2 ^ 64)" by (simp only: of_nat_less_iff)
  then show ?thesis by (simp add: checked_add_u64_def)
qed

lemma checked_add_u64_uint:
  assumes "checked_add_u64 a b = Some c"
  shows "uint c = uint a + uint b"
proof -
  have "int (unat c) = int (unat a + unat b)" using checked_add_u64_unat [OF assms] by simp
  then show ?thesis by simp
qed

lemma i64_of_u64_Some: "i64_of_u64 a = Some i \<longleftrightarrow> uint a < 2 ^ 63 \<and> i = uint a"
  by (auto simp: i64_of_u64_def)

lemma u64_of_i64_uint [simp]: "u64_of_i64 (uint a) = Some a"
  by (simp add: u64_of_i64_def)

lemma i64_u64_roundtrip: "i64_of_u64 a = Some i \<Longrightarrow> u64_of_i64 i = Some a"
  by (auto simp: i64_of_u64_Some)

section \<open>Results\<close>

text \<open>
  \<open>Result<A, E>\<close> is \<open>'e + 'a\<close>: \<open>Inl\<close> is \<open>Err\<close>, \<open>Inr\<close> is \<open>Ok\<close>. \<open>res_then\<close> is the \<open>?\<close> of a pure
  function: it stops at the first \<open>Err\<close>.
\<close>

fun res_then :: "'e + 'a \<Rightarrow> ('a \<Rightarrow> 'e + 'b) \<Rightarrow> 'e + 'b" where
  "res_then (Inl e) k = Inl e"
| "res_then (Inr x) k = k x"

fun map_res_err :: "('e \<Rightarrow> 'f) \<Rightarrow> 'e + 'a \<Rightarrow> 'f + 'a" where
  "map_res_err f (Inl e) = Inl (f e)"
| "map_res_err f (Inr x) = Inr x"

fun ok_or :: "'e \<Rightarrow> 'a option \<Rightarrow> 'e + 'a" where
  "ok_or e None = Inl e"
| "ok_or e (Some x) = Inr x"

fun res_ok :: "'e + 'a \<Rightarrow> 'a option" where
  "res_ok (Inl e) = None"
| "res_ok (Inr x) = Some x"

lemma res_then_Inr_iff: "res_then r k = Inr y \<longleftrightarrow> (\<exists>x. r = Inr x \<and> k x = Inr y)"
  by (cases r) auto

lemma res_then_Inl_iff: "res_then r k = Inl e \<longleftrightarrow> r = Inl e \<or> (\<exists>x. r = Inr x \<and> k x = Inl e)"
  by (cases r) auto

lemma map_res_err_iff [simp]:
  "map_res_err f r = Inr x \<longleftrightarrow> r = Inr x"
  "map_res_err f r = Inl e' \<longleftrightarrow> (\<exists>e. r = Inl e \<and> e' = f e)"
  by (cases r; auto)+

lemma ok_or_iff [simp]:
  "ok_or e r = Inr x \<longleftrightarrow> r = Some x"
  "ok_or e r = Inl e' \<longleftrightarrow> r = None \<and> e' = e"
  by (cases r; auto)+

lemma res_ok_iff [simp]: "res_ok r = Some x \<longleftrightarrow> r = Inr x"
  by (cases r) auto

section \<open>Effectful computations\<close>

text \<open>
  A method that takes \<open>&mut self\<close> and returns a \<open>Result\<close> is a function from the state to the
  result and the state reached. The state reached is kept on \<open>Err\<close> too: what a method has
  already changed when it returns early stays changed, as in the code.
  \<open>and_then\<close> is the \<open>?\<close> operator followed by the rest of the body.
\<close>

type_synonym ('s, 'e, 'a) io = "'s \<Rightarrow> ('e + 'a) \<times> 's"

definition ok :: "'a \<Rightarrow> ('s, 'e, 'a) io" where
  "ok x s = (Inr x, s)"

definition err :: "'e \<Rightarrow> ('s, 'e, 'a) io" where
  "err e s = (Inl e, s)"

definition and_then :: "('s, 'e, 'a) io \<Rightarrow> ('a \<Rightarrow> ('s, 'e, 'b) io) \<Rightarrow> ('s, 'e, 'b) io" where
  "and_then m k s = (case m s of (Inl e, s') \<Rightarrow> (Inl e, s') | (Inr x, s') \<Rightarrow> k x s')"

definition lift_res :: "'e + 'a \<Rightarrow> ('s, 'e, 'a) io" where
  "lift_res r s = (r, s)"

definition map_err :: "('e \<Rightarrow> 'f) \<Rightarrow> ('s, 'e, 'a) io \<Rightarrow> ('s, 'f, 'a) io" where
  "map_err f m s = (case m s of (r, s') \<Rightarrow> (map_res_err f r, s'))"

text \<open>\<open>if c { return Err(e) }\<close>\<close>

definition fail_if :: "bool \<Rightarrow> 'e \<Rightarrow> ('s, 'e, unit) io" where
  "fail_if c e = (if c then err e else ok ())"

definition gets :: "('s \<Rightarrow> 'a) \<Rightarrow> ('s, 'e, 'a) io" where
  "gets f s = (Inr (f s), s)"

definition modify :: "('s \<Rightarrow> 's) \<Rightarrow> ('s, 'e, unit) io" where
  "modify f s = (Inr (), f s)"

text \<open>A call whose failure the code inspects instead of returning (\<open>match\<close>, \<open>.ok()\<close>, \<open>is_ok_and\<close>).\<close>

definition try_result :: "('s, 'e, 'a) io \<Rightarrow> ('s, 'f, 'e + 'a) io" where
  "try_result m s = (case m s of (r, s') \<Rightarrow> (Inr r, s'))"

text \<open>A call that cannot fail.\<close>

definition total :: "('s \<Rightarrow> 'a \<times> 's) \<Rightarrow> ('s, 'e, 'a) io" where
  "total f s = (case f s of (x, s') \<Rightarrow> (Inr x, s'))"

lemmas io_defs = ok_def err_def and_then_def lift_res_def map_err_def fail_if_def gets_def
  modify_def try_result_def

lemma io_run [simp]:
  "ok x s = (Inr x, s)" "err e s = (Inl e, s)" "lift_res r s = (r, s)"
  "gets f s = (Inr (f s), s)" "modify g s = (Inr (), g s)"
  by (simp_all add: io_defs)

lemma fail_if_iff [simp]:
  "fail_if c e s = (Inr u, s') \<longleftrightarrow> \<not> c \<and> s' = s"
  "fail_if c e s = (Inl e', s') \<longleftrightarrow> c \<and> e' = e \<and> s' = s"
  by (auto simp: io_defs)

lemma and_then_Inr:
  "and_then m k s = (Inr y, s'') \<longleftrightarrow> (\<exists>x s'. m s = (Inr x, s') \<and> k x s' = (Inr y, s''))"
  by (auto simp: and_then_def split: prod.splits sum.splits)

lemma and_then_Inl:
  "and_then m k s = (Inl e, s'') \<longleftrightarrow>
     m s = (Inl e, s'') \<or> (\<exists>x s'. m s = (Inr x, s') \<and> k x s' = (Inl e, s''))"
  by (auto simp: and_then_def split: prod.splits sum.splits)

lemma and_then_Inr_run: "m s = (Inr x, s') \<Longrightarrow> and_then m k s = k x s'"
  by (simp add: and_then_def)

lemma and_then_Inl_run: "m s = (Inl e, s') \<Longrightarrow> and_then m k s = (Inl e, s')"
  by (simp add: and_then_def)

lemma map_err_iff [simp]:
  "map_err f m s = (Inr x, s') \<longleftrightarrow> m s = (Inr x, s')"
  "map_err f m s = (Inl e', s') \<longleftrightarrow> (\<exists>e. m s = (Inl e, s') \<and> e' = f e)"
  by (cases "m s"; auto simp: map_err_def)+

lemma try_result_iff [simp]:
  "try_result m s = (Inr r, s') \<longleftrightarrow> m s = (r, s')"
  "try_result m s \<noteq> (Inl e, s')"
  by (cases "m s"; auto simp: try_result_def)+

lemma total_iff [simp]:
  "total f s = (Inr x, s') \<longleftrightarrow> f s = (x, s')"
  "total f s \<noteq> (Inl e, s')"
  by (cases "f s"; auto simp: total_def)+

text \<open>To run a computation on a concrete state, its continuation is left alone until it is reached.\<close>

lemma and_then_step: "m = m' \<Longrightarrow> s = s' \<Longrightarrow> and_then m k s = and_then m' k s'"
  by simp

declare and_then_def [run] map_err_def [run] try_result_def [run] total_def [run] fail_if_def [run]

lemma and_then_cong [fundef_cong]:
  assumes "m s = m' s'"
    and "\<And>x t. m' s' = (Inr x, t) \<Longrightarrow> k x t = k' x t"
  shows "and_then m k s = and_then m' k' s'"
  using assms by (auto simp: and_then_def split: prod.splits sum.splits)

section \<open>Triples: what a computation guarantees when it succeeds and when it fails\<close>

text \<open>
  \<open>triple P m Q E\<close>: from a state with \<open>P\<close>, a successful \<open>m\<close> ends in \<open>Q\<close> of its value and a
  failed one in \<open>E\<close> of its error. The rules below follow the shape of a method body.
\<close>

definition triple :: "('s \<Rightarrow> bool) \<Rightarrow> ('s, 'e, 'a) io \<Rightarrow> ('a \<Rightarrow> 's \<Rightarrow> bool) \<Rightarrow> ('e \<Rightarrow> 's \<Rightarrow> bool) \<Rightarrow> bool"
  where "triple P m Q E \<longleftrightarrow>
    (\<forall>s. P s \<longrightarrow> (\<forall>x s'. m s = (Inr x, s') \<longrightarrow> Q x s') \<and> (\<forall>e s'. m s = (Inl e, s') \<longrightarrow> E e s'))"

lemma tripleI:
  assumes "\<And>s x s'. P s \<Longrightarrow> m s = (Inr x, s') \<Longrightarrow> Q x s'"
    and "\<And>s e s'. P s \<Longrightarrow> m s = (Inl e, s') \<Longrightarrow> E e s'"
  shows "triple P m Q E"
  using assms by (auto simp: triple_def)

lemma triple_okD: "triple P m Q E \<Longrightarrow> P s \<Longrightarrow> m s = (Inr x, s') \<Longrightarrow> Q x s'"
  by (auto simp: triple_def)

lemma triple_errD: "triple P m Q E \<Longrightarrow> P s \<Longrightarrow> m s = (Inl e, s') \<Longrightarrow> E e s'"
  by (auto simp: triple_def)

lemma triple_and_then:
  assumes "triple P m R E" and "\<And>x. triple (R x) (k x) Q E"
  shows "triple P (and_then m k) Q E"
  using assms unfolding triple_def and_then_Inr and_then_Inl by blast

lemma triple_weaken:
  assumes "triple P m Q E" and "\<And>s. P' s \<Longrightarrow> P s"
    and "\<And>x s. Q x s \<Longrightarrow> Q' x s" and "\<And>e s. E e s \<Longrightarrow> E' e s"
  shows "triple P' m Q' E'"
  using assms unfolding triple_def by blast

lemma triple_ok: "(\<And>s. P s \<Longrightarrow> Q x s) \<Longrightarrow> triple P (ok x) Q E"
  by (auto simp: triple_def)

lemma triple_err: "(\<And>s. P s \<Longrightarrow> E e s) \<Longrightarrow> triple P (err e) Q E"
  by (auto simp: triple_def)

lemma triple_lift_res:
  assumes "\<And>x s. r = Inr x \<Longrightarrow> P s \<Longrightarrow> Q x s" and "\<And>e s. r = Inl e \<Longrightarrow> P s \<Longrightarrow> E e s"
  shows "triple P (lift_res r) Q E"
  using assms by (auto simp: triple_def)

lemma triple_fail_if:
  assumes "\<And>s. \<not> c \<Longrightarrow> P s \<Longrightarrow> Q () s" and "\<And>s. c \<Longrightarrow> P s \<Longrightarrow> E e s"
  shows "triple P (fail_if c e) Q E"
  using assms by (auto simp: triple_def)

lemma triple_gets: "(\<And>s. P s \<Longrightarrow> Q (f s) s) \<Longrightarrow> triple P (gets f) Q E"
  by (auto simp: triple_def)

lemma triple_modify: "(\<And>s. P s \<Longrightarrow> Q () (f s)) \<Longrightarrow> triple P (modify f) Q E"
  by (auto simp: triple_def)

lemma triple_map_err:
  assumes "triple P m Q (\<lambda>e. E (f e))"
  shows "triple P (map_err f m) Q E"
  using assms by (auto simp: triple_def)

lemma triple_try_result:
  assumes "triple P m (\<lambda>x. Q (Inr x)) (\<lambda>e. Q (Inl e))"
  shows "triple P (try_result m) Q E"
proof (rule tripleI)
  fix s r s' assume "P s" and "try_result m s = (Inr r, s')"
  then show "Q r s'" using assms by (cases r) (auto simp: triple_def)
qed simp

lemma triple_if:
  assumes "c \<Longrightarrow> triple P m Q E" and "\<not> c \<Longrightarrow> triple P m' Q E"
  shows "triple P (if c then m else m') Q E"
  using assms by simp

lemma triple_conj:
  assumes "triple P m Q E" and "triple P' m Q' E'"
  shows "triple (\<lambda>s. P s \<and> P' s) m (\<lambda>x s. Q x s \<and> Q' x s) (\<lambda>e s. E e s \<and> E' e s)"
  using assms by (auto simp: triple_def)

text \<open>A computation that keeps a predicate whatever its result.\<close>

definition keeps :: "('s \<Rightarrow> bool) \<Rightarrow> ('s, 'e, 'a) io \<Rightarrow> bool" where
  "keeps P m \<longleftrightarrow> (\<forall>s r s'. P s \<longrightarrow> m s = (r, s') \<longrightarrow> P s')"

lemma keepsI: "(\<And>s r s'. P s \<Longrightarrow> m s = (r, s') \<Longrightarrow> P s') \<Longrightarrow> keeps P m"
  by (auto simp: keeps_def)

lemma keepsD: "keeps P m \<Longrightarrow> P s \<Longrightarrow> m s = (r, s') \<Longrightarrow> P s'"
  by (auto simp: keeps_def)

lemma keeps_triple: "keeps P m \<longleftrightarrow> triple P m (\<lambda>_. P) (\<lambda>_. P)"
proof
  assume "keeps P m"
  then show "triple P m (\<lambda>_. P) (\<lambda>_. P)" unfolding keeps_def triple_def by blast
next
  assume t: "triple P m (\<lambda>_. P) (\<lambda>_. P)"
  show "keeps P m"
  proof (rule keepsI)
    fix s r s' assume "P s" and "m s = (r, s')"
    with t show "P s'" by (cases r) (auto dest: triple_okD triple_errD)
  qed
qed

lemma keeps_and_then:
  "keeps P m \<Longrightarrow> (\<And>x. keeps P (k x)) \<Longrightarrow> keeps P (and_then m k)"
  unfolding keeps_triple by (rule triple_and_then)

lemma keeps_pure [simp]:
  "keeps P (ok x)" "keeps P (err e)" "keeps P (lift_res r)" "keeps P (gets f)"
  "keeps P (fail_if c e)"
  by (auto simp: keeps_def io_defs)

lemma keeps_modify: "(\<And>s. P s \<Longrightarrow> P (f s)) \<Longrightarrow> keeps P (modify f)"
  by (auto simp: keeps_def)

lemma keeps_map_err: "keeps P m \<Longrightarrow> keeps P (map_err f m)"
  unfolding keeps_triple by (rule triple_map_err)

lemma keeps_try_result: "keeps P m \<Longrightarrow> keeps P (try_result m)"
  unfolding keeps_triple by (rule triple_try_result)

section \<open>Lists\<close>

text \<open>\<open>iter().position(p)\<close> and \<open>iter().find(p)\<close> are \<open>List.find\<close>-like searches from the front.\<close>

fun position :: "('a \<Rightarrow> bool) \<Rightarrow> 'a list \<Rightarrow> nat option" where
  "position p [] = None"
| "position p (x # xs) = (if p x then Some 0 else map_option Suc (position p xs))"

lemma position_Some:
  "position p xs = Some i \<Longrightarrow> i < length xs \<and> p (xs ! i) \<and> (\<forall>j < i. \<not> p (xs ! j))"
proof (induction xs arbitrary: i)
  case (Cons x xs)
  show ?case
  proof (cases "p x")
    case True
    with Cons.prems show ?thesis by simp
  next
    case False
    with Cons.prems obtain k where "position p xs = Some k" and "i = Suc k" by auto
    with False Cons.IH [of k] show ?thesis by (auto simp: less_Suc_eq_0_disj)
  qed
qed simp

lemma position_None: "position p xs = None \<longleftrightarrow> (\<forall>x \<in> set xs. \<not> p x)"
  by (induction xs) auto

lemma find_Some_set: "List.find p xs = Some x \<Longrightarrow> x \<in> set xs \<and> p x"
  by (auto simp: find_Some_iff)

lemma find_None_set: "List.find p xs = None \<longleftrightarrow> (\<forall>x \<in> set xs. \<not> p x)"
  by (auto simp: find_None_iff)

lemma filter_skip:
  assumes "\<not> P r" and "\<And>x. x \<in> set (pre @ post) \<Longrightarrow> P x = Q x"
  shows "filter P (pre @ r # post) = filter Q (pre @ post)"
proof -
  have "filter P pre = filter Q pre" "filter P post = filter Q post"
    using assms(2) by (auto intro: filter_cong)
  with assms(1) show ?thesis by simp
qed

end
