(* ===== verification/Rust_Text.thy ===== *)
theory Rust_Text
  imports Prelude
begin

text \<open>
  The operations of Rust's \<open>str\<close>, \<open>u8\<close> and \<open>char\<close> that the crates call, on byte strings:
  ASCII case, splitting, UTF-8 validity and lossy decoding (\<open>to_str\<close>, \<open>to_string_lossy\<close>),
  \<open>char::escape_default\<close>, decimal printing and \<open>i32\<close> parsing. They model the standard library,
  so the definitions here stand for no lines of the repository; the components use them.
\<close>

section \<open>ASCII\<close>

definition ascii_lower :: "char \<Rightarrow> char" where
  "ascii_lower c = (let n = (of_char c :: nat) in if 65 \<le> n \<and> n \<le> 90 then char_of (n + 32) else c)"

definition to_ascii_lowercase :: "string \<Rightarrow> string" where
  "to_ascii_lowercase s = map ascii_lower s"

definition eq_ignore_ascii_case :: "string \<Rightarrow> string \<Rightarrow> bool" where
  "eq_ignore_ascii_case a b \<longleftrightarrow> map ascii_lower a = map ascii_lower b"

definition is_ascii_lowercase :: "char \<Rightarrow> bool" where
  "is_ascii_lowercase c \<longleftrightarrow> (let n = (of_char c :: nat) in 97 \<le> n \<and> n \<le> 122)"

definition is_ascii_hexdigit :: "char \<Rightarrow> bool" where
  "is_ascii_hexdigit c \<longleftrightarrow> (let n = (of_char c :: nat) in
     48 \<le> n \<and> n \<le> 57 \<or> 65 \<le> n \<and> n \<le> 70 \<or> 97 \<le> n \<and> n \<le> 102)"

lemma ascii_lower_idem [simp]: "ascii_lower (ascii_lower c) = ascii_lower c"
  by (auto simp: ascii_lower_def Let_def)

lemma to_ascii_lowercase_idem [simp]: "to_ascii_lowercase (to_ascii_lowercase s) = to_ascii_lowercase s"
  by (simp add: to_ascii_lowercase_def)

lemma length_to_ascii_lowercase [simp]: "length (to_ascii_lowercase s) = length s"
  by (simp add: to_ascii_lowercase_def)

lemma eq_ignore_ascii_case_lower [simp]: "eq_ignore_ascii_case (to_ascii_lowercase s) s"
  by (simp add: eq_ignore_ascii_case_def to_ascii_lowercase_def)

lemma eq_ignore_ascii_case_refl [simp]: "eq_ignore_ascii_case s s"
  by (simp add: eq_ignore_ascii_case_def)

section \<open>Prefixes, suffixes and splitting\<close>

definition starts_with :: "'a list \<Rightarrow> 'a list \<Rightarrow> bool" where
  "starts_with s p \<longleftrightarrow> take (length p) s = p"

definition ends_with :: "'a list \<Rightarrow> 'a list \<Rightarrow> bool" where
  "ends_with s p \<longleftrightarrow> length p \<le> length s \<and> drop (length s - length p) s = p"

lemma starts_with_iff: "starts_with s p \<longleftrightarrow> (\<exists>t. s = p @ t)"
  unfolding starts_with_def by (metis append_eq_conv_conj append_take_drop_id)

lemma ends_with_iff: "ends_with s p \<longleftrightarrow> (\<exists>t. s = t @ p)"
proof
  assume "ends_with s p"
  then have "s = take (length s - length p) s @ p"
    unfolding ends_with_def by (metis append_take_drop_id)
  then show "\<exists>t. s = t @ p" by blast
qed (auto simp: ends_with_def)

text \<open>\<open>str::split(c)\<close>: always at least one part, empty parts kept.\<close>

fun split_on :: "'a \<Rightarrow> 'a list \<Rightarrow> 'a list list" where
  "split_on c [] = [[]]"
| "split_on c (x # xs) =
     (if x = c then [] # split_on c xs
      else (case split_on c xs of [] \<Rightarrow> [[x]] | p # ps \<Rightarrow> (x # p) # ps))"

lemma split_on_nonempty [simp]: "split_on c xs \<noteq> []"
  by (induction xs) (auto split: list.splits)

lemma split_on_parts: "p \<in> set (split_on c xs) \<Longrightarrow> c \<notin> set p"
  by (induction xs arbitrary: p) (auto split: list.splits if_splits)

lemma split_on_no_sep: "c \<notin> set xs \<Longrightarrow> split_on c xs = [xs]"
  by (induction xs) auto

text \<open>Joining the parts with the separator gives the string back.\<close>

fun join_with :: "'a \<Rightarrow> 'a list list \<Rightarrow> 'a list" where
  "join_with c [] = []"
| "join_with c [p] = p"
| "join_with c (p # q # ps) = p @ c # join_with c (q # ps)"

lemma join_with_Cons: "ps \<noteq> [] \<Longrightarrow> join_with c (p # ps) = p @ c # join_with c ps"
  by (cases ps) auto

lemma join_split_on: "join_with c (split_on c xs) = xs"
proof (induction xs)
  case (Cons x xs)
  then show ?case
    by (cases "split_on c xs" rule: list.exhaust; cases "tl (split_on c xs)")
       (auto simp: join_with_Cons)
qed simp

lemma split_on_append: "split_on c (xs @ c # ys) = split_on c xs @ split_on c ys"
proof (induction xs)
  case (Cons x xs)
  then show ?case by (auto split: list.splits)
qed simp

section \<open>UTF-8\<close>

text \<open>
  \<open>utf8_next\<close> reads one scalar value from the front of a non-empty byte list, or rejects the
  longest prefix that can still start one, as \<open>core::str::Utf8Chunks\<close> does.
\<close>

definition is_cont :: "nat \<Rightarrow> bool" where
  "is_cont b \<longleftrightarrow> 128 \<le> b \<and> b \<le> 191"

definition second_of_3 :: "nat \<Rightarrow> nat \<Rightarrow> bool" where
  "second_of_3 b c \<longleftrightarrow> is_cont c \<and> (b = 224 \<longrightarrow> 160 \<le> c) \<and> (b = 237 \<longrightarrow> c \<le> 159)"

definition second_of_4 :: "nat \<Rightarrow> nat \<Rightarrow> bool" where
  "second_of_4 b c \<longleftrightarrow> is_cont c \<and> (b = 240 \<longrightarrow> 144 \<le> c) \<and> (b = 244 \<longrightarrow> c \<le> 143)"

fun utf8_next :: "nat list \<Rightarrow> nat option \<times> nat list" where
  "utf8_next [] = (None, [])"
| "utf8_next (b # r) =
    (if b < 128 then (Some b, r)
     else if 194 \<le> b \<and> b \<le> 223 then
       (case r of [] \<Rightarrow> (None, [])
        | c # r1 \<Rightarrow> if is_cont c then (Some ((b - 192) * 64 + (c - 128)), r1) else (None, r))
     else if 224 \<le> b \<and> b \<le> 239 then
       (case r of [] \<Rightarrow> (None, [])
        | c # r1 \<Rightarrow> if second_of_3 b c then
            (case r1 of [] \<Rightarrow> (None, [])
             | d # r2 \<Rightarrow> if is_cont d
                 then (Some ((b - 224) * 4096 + (c - 128) * 64 + (d - 128)), r2)
                 else (None, r1))
          else (None, r))
     else if 240 \<le> b \<and> b \<le> 244 then
       (case r of [] \<Rightarrow> (None, [])
        | c # r1 \<Rightarrow> if second_of_4 b c then
            (case r1 of [] \<Rightarrow> (None, [])
             | d # r2 \<Rightarrow> if is_cont d then
                 (case r2 of [] \<Rightarrow> (None, [])
                  | e # r3 \<Rightarrow> if is_cont e
                      then (Some ((b - 240) * 262144 + (c - 128) * 4096 + (d - 128) * 64 + (e - 128)), r3)
                      else (None, r2))
               else (None, r1))
          else (None, r))
     else (None, r))"

lemma utf8_next_shorter: "xs \<noteq> [] \<Longrightarrow> length (snd (utf8_next xs)) < length xs"
  by (cases xs) (auto split: list.splits)

lemma utf8_next_shorter_Cons: "utf8_next (b # r) = (x, ys) \<Longrightarrow> length ys < Suc (length r)"
  using utf8_next_shorter [of "b # r"] by simp

function decode_lossy :: "nat list \<Rightarrow> nat list" where
  "decode_lossy [] = []"
| "decode_lossy (b # r) =
     (case utf8_next (b # r) of (x, ys) \<Rightarrow>
        (case x of None \<Rightarrow> 65533 | Some c \<Rightarrow> c) # decode_lossy ys)"
  by pat_completeness auto
termination
  by (relation "measure length") (auto dest: utf8_next_shorter_Cons [OF sym] simp del: utf8_next.simps)

function utf8_valid :: "nat list \<Rightarrow> bool" where
  "utf8_valid [] = True"
| "utf8_valid (b # r) =
     (case utf8_next (b # r) of (None, ys) \<Rightarrow> False | (Some c, ys) \<Rightarrow> utf8_valid ys)"
  by pat_completeness auto
termination
  by (relation "measure length") (auto dest: utf8_next_shorter_Cons [OF sym] simp del: utf8_next.simps)

definition encode_char :: "nat \<Rightarrow> nat list" where
  "encode_char c =
    (if c < 128 then [c]
     else if c < 2048 then [192 + c div 64, 128 + c mod 64]
     else if c < 65536 then [224 + c div 4096, 128 + c div 64 mod 64, 128 + c mod 64]
     else [240 + c div 262144, 128 + c div 4096 mod 64, 128 + c div 64 mod 64, 128 + c mod 64])"

definition bytes_of :: "string \<Rightarrow> nat list" where
  "bytes_of s = map of_char s"

definition string_of_bytes :: "nat list \<Rightarrow> string" where
  "string_of_bytes bs = map char_of bs"

text \<open>\<open>OsStr::to_str\<close> and \<open>OsStr::to_string_lossy\<close>.\<close>

definition to_str :: "string \<Rightarrow> string option" where
  "to_str s = (if utf8_valid (bytes_of s) then Some s else None)"

definition to_string_lossy :: "string \<Rightarrow> string" where
  "to_string_lossy s = string_of_bytes (concat (map encode_char (decode_lossy (bytes_of s))))"

lemma string_of_bytes_of [simp]: "string_of_bytes (bytes_of s) = s"
  by (simp add: string_of_bytes_def bytes_of_def comp_def)

text \<open>Encoding a scalar value that was read gives back the bytes it was read from.\<close>

lemma radix64:
  fixes x f :: nat
  assumes "f < 64"
  shows "(x * 64 + f) div 64 = x" and "(x * 64 + f) mod 64 = f"
  using assms by auto

lemma utf8_next_encode:
  assumes "utf8_next xs = (Some c, ys)"
  shows "xs = encode_char c @ ys"
proof (cases xs)
  case (Cons b r)
  consider "b < 128" | "194 \<le> b \<and> b \<le> 223" | "224 \<le> b \<and> b \<le> 239" | "240 \<le> b \<and> b \<le> 244"
    | "128 \<le> b \<and> b < 194 \<or> 244 < b" by linarith
  then show ?thesis
  proof cases
    case 2
    with assms Cons obtain d where r: "r = d # ys" and d: "is_cont d"
      and c: "c = (b - 192) * 64 + (d - 128)"
      by (auto split: list.splits if_splits)
    obtain b' d' where b': "b = b' + 192" "2 \<le> b'" "b' < 32" and d': "d = d' + 128" "d' < 64"
      using 2 d by (auto simp: is_cont_def le_iff_add)
    have c': "c = b' * 64 + d'" by (simp add: c b' d')
    have "c div 64 = b'" "c mod 64 = d'" "128 \<le> c" "c < 2048" using b' d' by (auto simp: c')
    then show ?thesis by (simp add: Cons r encode_char_def b' d')
  next
    case 3
    with assms Cons obtain d e where r: "r = d # e # ys" and d: "second_of_3 b d" and e: "is_cont e"
      and c: "c = (b - 224) * 4096 + (d - 128) * 64 + (e - 128)"
      by (auto split: list.splits if_splits)
    obtain b' d' e' where b': "b = b' + 224" "b' < 16" and d': "d = d' + 128" "d' < 64"
      and e': "e = e' + 128" "e' < 64" and bd: "b' = 0 \<longrightarrow> 32 \<le> d'"
      using 3 d e by (auto simp: second_of_3_def is_cont_def le_iff_add)
    have c': "c = (b' * 64 + d') * 64 + e'" by (simp add: c b' d' e')
    have "c div 64 = b' * 64 + d'" "c mod 64 = e'" unfolding c' by (rule radix64 [OF e'(2)])+
    moreover have "c div 4096 = b'"
    proof -
      have "c div 4096 = c div 64 div 64" by (simp add: div_mult2_eq [symmetric])
      then show ?thesis using \<open>c div 64 = b' * 64 + d'\<close> d' by simp
    qed
    moreover have "2048 \<le> c" "c < 65536" using b' d' e' bd by (auto simp: c')
    ultimately show ?thesis using d' by (simp add: Cons r encode_char_def b' d' e')
  next
    case 4
    with assms Cons obtain d e f where r: "r = d # e # f # ys" and d: "second_of_4 b d"
      and e: "is_cont e" and f: "is_cont f"
      and c: "c = (b - 240) * 262144 + (d - 128) * 4096 + (e - 128) * 64 + (f - 128)"
      by (auto split: list.splits if_splits)
    obtain b' d' e' f' where b': "b = b' + 240" "b' < 5" and d': "d = d' + 128" "d' < 64"
      and e': "e = e' + 128" "e' < 64" and f': "f = f' + 128" "f' < 64" and bd: "b' = 0 \<longrightarrow> 16 \<le> d'"
      using 4 d e f by (auto simp: second_of_4_def is_cont_def le_iff_add)
    have c': "c = ((b' * 64 + d') * 64 + e') * 64 + f'" by (simp add: c b' d' e' f')
    have q1: "c div 64 = (b' * 64 + d') * 64 + e'" and m1: "c mod 64 = f'"
      unfolding c' by (rule radix64 [OF f'(2)])+
    have "c div 4096 = c div 64 div 64" by (simp add: div_mult2_eq [symmetric])
    then have q2: "c div 4096 = b' * 64 + d'" by (simp only: q1 radix64 [OF e'(2)])
    have "c div 262144 = c div 4096 div 64" by (simp add: div_mult2_eq [symmetric])
    then have q3: "c div 262144 = b'" by (simp only: q2 radix64 [OF d'(2)])
    have m2: "c div 64 mod 64 = e'" by (simp only: q1 radix64 [OF e'(2)])
    have m3: "c div 4096 mod 64 = d'" by (simp only: q2 radix64 [OF d'(2)])
    have "65536 \<le> c" using b' d' e' f' bd by (auto simp: c')
    with q3 m1 m2 m3 show ?thesis by (simp add: Cons r encode_char_def b' d' e' f' del: div_mult2_eq)
  qed (use assms Cons in \<open>auto simp: encode_char_def split: list.splits if_splits\<close>)
qed (use assms in simp)

lemma utf8_valid_encode_decode:
  "utf8_valid xs \<Longrightarrow> concat (map encode_char (decode_lossy xs)) = xs"
proof (induction xs rule: utf8_valid.induct)
  case (2 b r)
  obtain x ys where n: "utf8_next (b # r) = (x, ys)" by fastforce
  with 2 obtain c where x: "x = Some c" by (cases x) (auto simp del: utf8_next.simps)
  from 2 n x have "concat (map encode_char (decode_lossy ys)) = ys" by (simp del: utf8_next.simps)
  then have "concat (map encode_char (decode_lossy (b # r))) = encode_char c @ ys"
    using n x by (simp del: utf8_next.simps)
  then show ?case using utf8_next_encode [OF n [unfolded x]] by simp
qed simp

lemma to_string_lossy_valid: "to_str s = Some t \<Longrightarrow> to_string_lossy s = t"
  by (auto simp: to_str_def to_string_lossy_def utf8_valid_encode_decode split: if_splits)

section \<open>\<open>char::escape_default\<close>\<close>

text \<open>
  Printable ASCII stands for itself, the quotes, the backslash and \<open>\t \r \n\<close> get a backslash,
  every other scalar value becomes \<open>\u{hex}\<close>.
\<close>

definition hex_digit :: "nat \<Rightarrow> char" where
  "hex_digit n = char_of (if n < 10 then 48 + n else 87 + n)"

fun hex_of_nat :: "nat \<Rightarrow> string" where
  "hex_of_nat n = (if n < 16 then [hex_digit n] else hex_of_nat (n div 16) @ [hex_digit (n mod 16)])"

declare hex_of_nat.simps [simp del]

definition escape_default :: "nat \<Rightarrow> string" where
  "escape_default c =
    (if c = 9 then [CHR 0x5C, CHR ''t'']
     else if c = 13 then [CHR 0x5C, CHR ''r'']
     else if c = 10 then [CHR 0x5C, CHR ''n'']
     else if c = 39 \<or> c = 34 \<or> c = 92 then [CHR 0x5C, char_of c]
     else if 32 \<le> c \<and> c \<le> 126 then [char_of c]
     else [CHR 0x5C, CHR ''u'', CHR ''{''] @ hex_of_nat c @ [CHR ''}''])"

definition printable_ascii :: "char \<Rightarrow> bool" where
  "printable_ascii c \<longleftrightarrow> (let n = (of_char c :: nat) in 32 \<le> n \<and> n \<le> 126)"

lemma printable_hex_digit: "n < 16 \<Longrightarrow> printable_ascii (hex_digit n)"
  by (auto simp: hex_digit_def printable_ascii_def Let_def)

lemma printable_hex_of_nat: "list_all printable_ascii (hex_of_nat n)"
proof (induction n rule: hex_of_nat.induct)
  case (1 n)
  then show ?case by (subst hex_of_nat.simps) (auto simp: printable_hex_digit)
qed

lemma printable_escape_default: "list_all printable_ascii (escape_default c)"
  using printable_hex_of_nat [of c]
  by (auto simp: escape_default_def printable_ascii_def Let_def)

section \<open>Decimal numbers\<close>

definition digit_char :: "nat \<Rightarrow> char" where
  "digit_char n = char_of (48 + n)"

definition digit_of :: "char \<Rightarrow> nat option" where
  "digit_of c = (let n = (of_char c :: nat) in if 48 \<le> n \<and> n \<le> 57 then Some (n - 48) else None)"

fun show_nat :: "nat \<Rightarrow> string" where
  "show_nat n = (if n < 10 then [digit_char n] else show_nat (n div 10) @ [digit_char (n mod 10)])"

declare show_nat.simps [simp del]

definition show_int :: "int \<Rightarrow> string" where
  "show_int i = (if i < 0 then CHR ''-'' # show_nat (nat (- i)) else show_nat (nat i))"

fun read_digits :: "nat \<Rightarrow> string \<Rightarrow> nat option" where
  "read_digits acc [] = Some acc"
| "read_digits acc (c # cs) = (case digit_of c of None \<Rightarrow> None | Some d \<Rightarrow> read_digits (acc * 10 + d) cs)"

text \<open>
  \<open><i32 as FromStr>::from_str\<close>: an optional sign, at least one digit, no overflow.
\<close>

definition in_i32 :: "int \<Rightarrow> bool" where
  "in_i32 i \<longleftrightarrow> - 2147483648 \<le> i \<and> i \<le> 2147483647"

definition parse_i32 :: "string \<Rightarrow> int option" where
  "parse_i32 s =
    (let (sign, ds) = (case s of [] \<Rightarrow> (1, [])
                       | c # cs \<Rightarrow> if c = CHR ''-'' then (- 1, cs)
                                  else if c = CHR ''+'' then (1, cs) else (1, s))
     in if ds = [] then None
        else (case read_digits 0 ds of None \<Rightarrow> None
              | Some n \<Rightarrow> if in_i32 (sign * int n) then Some (sign * int n) else None))"

lemma digit_of_digit_char [simp]: "n < 10 \<Longrightarrow> digit_of (digit_char n) = Some n"
  by (simp add: digit_of_def digit_char_def)

lemma read_digits_append:
  "read_digits acc (xs @ ys) = (case read_digits acc xs of None \<Rightarrow> None | Some a \<Rightarrow> read_digits a ys)"
  by (induction xs arbitrary: acc) (auto split: option.splits)

lemma read_digits_show_nat: "read_digits 0 (show_nat n) = Some n"
proof (induction n rule: show_nat.induct)
  case (1 n)
  show ?case
  proof (cases "n < 10")
    case True
    then show ?thesis by (subst show_nat.simps) simp
  next
    case False
    with 1 have "read_digits 0 (show_nat (n div 10)) = Some (n div 10)" by simp
    with False show ?thesis by (subst show_nat.simps) (simp add: read_digits_append)
  qed
qed

lemma show_nat_Cons: "\<exists>d ds. show_nat n = digit_char d # ds \<and> d < 10"
proof (induction n rule: show_nat.induct)
  case (1 n)
  show ?case
  proof (cases "n < 10")
    case False
    with 1 obtain d ds where "show_nat (n div 10) = digit_char d # ds" "d < 10" by blast
    with False show ?thesis by (subst show_nat.simps) auto
  qed (subst show_nat.simps, auto)
qed

lemma digit_char_no_sign: "d < 10 \<Longrightarrow> digit_char d \<noteq> CHR ''-'' \<and> digit_char d \<noteq> CHR ''+''"
proof -
  assume "d < 10"
  then have "digit_of (digit_char d) = Some d" by simp
  moreover have "digit_of CHR ''-'' = None" "digit_of CHR ''+'' = None" by (simp_all add: digit_of_def)
  ultimately show ?thesis by (metis option.distinct(1))
qed

lemma parse_show_i32:
  assumes "in_i32 i"
  shows "parse_i32 (show_int i) = Some i"
proof (cases "i < 0")
  case True
  obtain d ds where d: "show_nat (nat (- i)) = digit_char d # ds" using show_nat_Cons by blast
  have "read_digits 0 (digit_char d # ds) = Some (nat (- i))" using read_digits_show_nat d by metis
  with True assms d show ?thesis by (simp add: parse_i32_def show_int_def)
next
  case False
  obtain d ds where d: "show_nat (nat i) = digit_char d # ds" "d < 10" using show_nat_Cons by blast
  have "read_digits 0 (digit_char d # ds) = Some (nat i)" using read_digits_show_nat d by metis
  with False assms d digit_char_no_sign [OF d(2)] show ?thesis
    by (simp add: parse_i32_def show_int_def)
qed

end
