(* ===== verification/Core_Rules.thy ===== *)
theory Core_Rules
  imports Rust_Text "HOL-Library.Multiset"
begin

text \<open>
  The deterministic rule engine, \<open>crates/sortinghat-core/src/lib.rs\<close>: the facts known of a
  file, the typed predicates, the rules, and \<open>evaluate_rules\<close>, which validates every rule,
  keeps the matching ones of the highest priority and decides, ties or abstains.
  \<open>globset\<close> is outside the repository: \<open>glob v\<close> stands for \<open>Glob::new(v)\<close>, \<open>None\<close> when the
  pattern is rejected and otherwise the compiled matcher. The lemmas give the decision in
  closed form, the exact error, and its independence of the order of the rules.
\<close>

section \<open>Data\<close>

type_synonym glob = "string \<Rightarrow> (string \<Rightarrow> bool) option"

definition MAX_RULES :: nat where "MAX_RULES = 1000"

record file_facts =
  extension :: "string option"
  verified_mime :: "string option"
  filename :: string
  source_root_id :: uuid
  source_directory :: string
  completed :: bool

datatype predicate =
    Extension string
  | VerifiedMime string
  | FilenameGlob string
  | SourceRoot uuid
  | SourceDirectory string
  | Completed

record rule =
  rule_id :: uuid
  priority :: int \<comment> \<open>an \<open>i32\<close>, only compared and printed\<close>
  predicates :: "predicate list"
  destination_root_id :: uuid
  destination_directory :: string

datatype destination = Destination (root_id: uuid) (directory: string)

datatype rule_decision =
    Decided destination "uuid list" string
  | Tie "destination list" "uuid list" string
  | Abstain string

datatype rule_error = TooManyRules | InvalidRule string

text \<open>The derived \<open>Ord\<close> of \<open>Destination\<close>: the root id first, then the directory bytes.\<close>

instantiation destination :: linorder
begin

definition less_eq_destination :: "destination \<Rightarrow> destination \<Rightarrow> bool" where
  "less_eq_destination a b \<longleftrightarrow>
     root_id a < root_id b \<or> root_id a = root_id b \<and> directory a \<le> directory b"

definition less_destination :: "destination \<Rightarrow> destination \<Rightarrow> bool" where
  "less_destination a b \<longleftrightarrow>
     root_id a < root_id b \<or> root_id a = root_id b \<and> directory a < directory b"

instance
proof
  fix a b c :: destination
  show "(a < b) = (a \<le> b \<and> \<not> b \<le> a)"
    by (auto simp: less_eq_destination_def less_destination_def)
  show "a \<le> a" by (simp add: less_eq_destination_def)
  show "a \<le> b \<Longrightarrow> b \<le> c \<Longrightarrow> a \<le> c" by (auto simp: less_eq_destination_def)
  show "a \<le> b \<Longrightarrow> b \<le> a \<Longrightarrow> a = b"
    by (auto simp: less_eq_destination_def intro: destination.expand)
  show "a \<le> b \<or> b \<le> a" by (auto simp: less_eq_destination_def)
qed

end

section \<open>The engine\<close>

definition validate_relative_directory :: "string \<Rightarrow> rule_error + unit" where
  "validate_relative_directory value =
    (if value = ''.'' then Inr ()
     else if length value > 4096 \<or> starts_with value ''/''
       \<or> list_ex (\<lambda>part. part = [] \<or> part = ''.'' \<or> part = ''..'') (split_on CHR ''/'' value)
     then Inl (InvalidRule ''unsafe relative directory'')
     else Inr ())"

fun validate_predicate :: "glob \<Rightarrow> predicate \<Rightarrow> rule_error + unit" where
  "validate_predicate glob (FilenameGlob value) =
     (case glob value of None \<Rightarrow> Inl (InvalidRule ''invalid glob'') | Some _ \<Rightarrow> Inr ())"
| "validate_predicate glob (Extension value) =
     (if value = [] \<or> length value > 255 then Inl (InvalidRule ''invalid predicate value'') else Inr ())"
| "validate_predicate glob (VerifiedMime value) =
     (if value = [] \<or> length value > 255 then Inl (InvalidRule ''invalid predicate value'') else Inr ())"
| "validate_predicate glob (SourceDirectory value) = validate_relative_directory value"
| "validate_predicate glob (SourceRoot _) = Inr ()"
| "validate_predicate glob Completed = Inr ()"

fun validate_predicates :: "glob \<Rightarrow> predicate list \<Rightarrow> rule_error + unit" where
  "validate_predicates glob [] = Inr ()"
| "validate_predicates glob (p # ps) =
     res_then (validate_predicate glob p) (\<lambda>_. validate_predicates glob ps)"

definition validate_rule :: "glob \<Rightarrow> rule \<Rightarrow> rule_error + unit" where
  "validate_rule glob rule =
    (if predicates rule = [] then Inl (InvalidRule ''predicates must not be empty'')
     else res_then (validate_relative_directory (destination_directory rule))
            (\<lambda>_. validate_predicates glob (predicates rule)))"

fun predicate_matches :: "glob \<Rightarrow> predicate \<Rightarrow> file_facts \<Rightarrow> bool" where
  "predicate_matches glob (Extension value) facts =
     (case extension facts of None \<Rightarrow> False | Some v \<Rightarrow> eq_ignore_ascii_case v value)"
| "predicate_matches glob (VerifiedMime value) facts = (verified_mime facts = Some value)"
| "predicate_matches glob (FilenameGlob value) facts =
     (case glob value of None \<Rightarrow> False | Some m \<Rightarrow> m (filename facts))"
| "predicate_matches glob (SourceRoot i) facts = (source_root_id facts = i)"
| "predicate_matches glob (SourceDirectory value) facts = (source_directory facts = value)"
| "predicate_matches glob Completed facts = completed facts"

text \<open>The loop of \<open>evaluate_rules\<close>: validate each rule, push the matching ones.\<close>

fun collect_matches :: "glob \<Rightarrow> file_facts \<Rightarrow> rule list \<Rightarrow> rule list \<Rightarrow> rule_error + rule list" where
  "collect_matches glob facts [] matches = Inr matches"
| "collect_matches glob facts (r # rs) matches =
     res_then (validate_rule glob r) (\<lambda>_.
       collect_matches glob facts rs
         (if list_all (\<lambda>p. predicate_matches glob p facts) (predicates r) then matches @ [r] else matches))"

text \<open>\<open>matches.iter().map(|r| r.priority).max()\<close>\<close>

fun max_priority :: "rule list \<Rightarrow> int option" where
  "max_priority [] = None"
| "max_priority (r # rs) =
     Some (case max_priority rs of None \<Rightarrow> priority r | Some m \<Rightarrow> max (priority r) m)"

definition rule_destination :: "rule \<Rightarrow> destination" where
  "rule_destination r = Destination (destination_root_id r) (destination_directory r)"

text \<open>The iteration order of a \<open>BTreeSet\<close> collected from a list.\<close>

definition btree_set :: "'a::linorder list \<Rightarrow> 'a list" where
  "btree_set xs = sort (remdups xs)"

definition unique_reason :: "int \<Rightarrow> string" where
  "unique_reason p = ''Unique destination from priority '' @ show_int p @ '' rule set''"

definition conflict_reason :: "int \<Rightarrow> string" where
  "conflict_reason p = ''Conflicting destinations at priority '' @ show_int p"

definition evaluate_rules :: "glob \<Rightarrow> rule list \<Rightarrow> file_facts \<Rightarrow> rule_error + rule_decision" where
  "evaluate_rules glob rules facts =
    (if length rules > MAX_RULES then Inl TooManyRules
     else res_then (collect_matches glob facts rules []) (\<lambda>matches.
       case max_priority matches of
         None \<Rightarrow> Inr (Abstain ''No deterministic rule matched'')
       | Some top_priority \<Rightarrow>
           let top = filter (\<lambda>r. priority r = top_priority) matches;
               destinations = btree_set (map rule_destination top);
               rule_ids = map rule_id top
           in (case destinations of
                 [d] \<Rightarrow> Inr (Decided d rule_ids (unique_reason top_priority))
               | _ \<Rightarrow> Inr (Tie destinations rule_ids (conflict_reason top_priority)))))"

section \<open>The closed form of a decision\<close>

definition rule_matches :: "glob \<Rightarrow> file_facts \<Rightarrow> rule \<Rightarrow> bool" where
  "rule_matches glob facts r \<longleftrightarrow> (\<forall>p \<in> set (predicates r). predicate_matches glob p facts)"

definition rule_valid :: "glob \<Rightarrow> rule \<Rightarrow> bool" where
  "rule_valid glob r \<longleftrightarrow> validate_rule glob r = Inr ()"

text \<open>The matching rules no matching rule outranks, in their order.\<close>

definition top_rules :: "glob \<Rightarrow> file_facts \<Rightarrow> rule list \<Rightarrow> rule list" where
  "top_rules glob facts rules = filter (\<lambda>r. rule_matches glob facts r \<and>
     (\<forall>r' \<in> set rules. rule_matches glob facts r' \<longrightarrow> priority r' \<le> priority r)) rules"

definition decide :: "rule list \<Rightarrow> rule_decision" where
  "decide tops = (case tops of [] \<Rightarrow> Abstain ''No deterministic rule matched''
     | r # _ \<Rightarrow> if \<forall>r' \<in> set tops. rule_destination r' = rule_destination r
         then Decided (rule_destination r) (map rule_id tops) (unique_reason (priority r))
         else Tie (sorted_list_of_set (rule_destination ` set tops)) (map rule_id tops)
                (conflict_reason (priority r)))"

lemma collect_matches_valid:
  "(\<forall>r \<in> set rules. rule_valid glob r) \<Longrightarrow>
   collect_matches glob facts rules acc = Inr (acc @ filter (rule_matches glob facts) rules)"
  by (induction rules arbitrary: acc) (auto simp: rule_valid_def rule_matches_def list_all_iff)

lemma collect_matches_invalid:
  "(\<forall>r \<in> set pre. rule_valid glob r) \<Longrightarrow> validate_rule glob r = Inl e \<Longrightarrow>
   collect_matches glob facts (pre @ r # post) acc = Inl e"
  by (induction pre arbitrary: acc) (auto simp: rule_valid_def)

lemma max_priority_None [simp]: "max_priority rs = None \<longleftrightarrow> rs = []"
  by (cases rs) auto

lemma max_priority_Some:
  "max_priority rs = Some m \<longleftrightarrow> m \<in> priority ` set rs \<and> (\<forall>r \<in> set rs. priority r \<le> m)"
proof (induction rs arbitrary: m)
  case (Cons r rs)
  show ?case
  proof (cases "max_priority rs")
    case None
    then show ?thesis by auto
  next
    case (Some k)
    with Cons.IH [of k] show ?thesis by (auto simp: max_def) (metis order_antisym)
  qed
qed simp

lemma btree_set_set: "btree_set xs = sorted_list_of_set (set xs)"
  unfolding btree_set_def by (simp add: sorted_list_of_set_sort_remdups)

lemma btree_set_singleton_iff: "btree_set xs = [d] \<longleftrightarrow> xs \<noteq> [] \<and> (\<forall>x \<in> set xs. x = d)"
proof
  assume "btree_set xs = [d]"
  then have "set (btree_set xs) = {d}" by simp
  then have "set xs = {d}" by (simp add: btree_set_set)
  then show "xs \<noteq> [] \<and> (\<forall>x \<in> set xs. x = d)" by (cases xs) auto
next
  assume "xs \<noteq> [] \<and> (\<forall>x \<in> set xs. x = d)"
  then have "set xs = {d}" by (cases xs) auto
  then show "btree_set xs = [d]" by (simp add: btree_set_set)
qed

lemma filter_top:
  assumes "max_priority (filter P rs) = Some m"
  shows "filter (\<lambda>r. priority r = m) (filter P rs)
    = filter (\<lambda>r. P r \<and> (\<forall>r' \<in> set rs. P r' \<longrightarrow> priority r' \<le> priority r)) rs"
proof -
  have m: "m \<in> priority ` set (filter P rs)" "\<forall>r \<in> set (filter P rs). priority r \<le> m"
    using assms by (auto simp: max_priority_Some)
  show ?thesis unfolding filter_filter
  proof (rule filter_cong [OF refl])
    fix r assume "r \<in> set rs"
    with m show "(P r \<and> priority r = m) = (P r \<and> (\<forall>r' \<in> set rs. P r' \<longrightarrow> priority r' \<le> priority r))"
      by (auto intro: antisym)
  qed
qed

lemma decide_tops:
  assumes "tops \<noteq> []" and pr: "\<forall>r \<in> set tops. priority r = m"
  shows "(case btree_set (map rule_destination tops) of
      [d] \<Rightarrow> Inr (Decided d (map rule_id tops) (unique_reason m))
    | _ \<Rightarrow> Inr (Tie (btree_set (map rule_destination tops)) (map rule_id tops) (conflict_reason m)))
    = Inr (decide tops)"
proof -
  obtain r rs where r: "tops = r # rs" using assms(1) by (cases tops) auto
  then have m: "priority r = m" using pr by simp
  show ?thesis
  proof (cases "\<forall>r' \<in> set tops. rule_destination r' = rule_destination r")
    case True
    then have "btree_set (map rule_destination tops) = [rule_destination r]"
      unfolding btree_set_singleton_iff using r by auto
    with True m show ?thesis by (simp add: decide_def r)
  next
    case False
    have "btree_set (map rule_destination tops) \<noteq> [d]" for d
      using False r by (auto simp: btree_set_singleton_iff)
    moreover have "btree_set (map rule_destination tops) = sorted_list_of_set (rule_destination ` set tops)"
      by (simp add: btree_set_set)
    moreover have "decide tops = Tie (sorted_list_of_set (rule_destination ` set tops))
        (map rule_id tops) (conflict_reason m)"
      using False m unfolding decide_def r by (simp del: set_simps)
    ultimately show ?thesis by (auto split: list.split)
  qed
qed

lemma evaluate_rules_valid:
  assumes "length rules \<le> MAX_RULES" and "\<forall>r \<in> set rules. rule_valid glob r"
  shows "evaluate_rules glob rules facts = Inr (decide (top_rules glob facts rules))"
proof -
  define ms where "ms = filter (rule_matches glob facts) rules"
  have ms: "collect_matches glob facts rules [] = Inr ms"
    using assms(2) by (simp add: collect_matches_valid ms_def)
  show ?thesis
  proof (cases "max_priority ms")
    case None
    then have "top_rules glob facts rules = []"
      by (auto simp: top_rules_def filter_empty_conv ms_def)
    with None ms assms(1) show ?thesis by (simp add: evaluate_rules_def decide_def)
  next
    case (Some m)
    define tops where "tops = filter (\<lambda>r. priority r = m) ms"
    have "tops \<noteq> []" using Some by (auto simp: tops_def max_priority_Some filter_empty_conv)
    moreover have "\<forall>r \<in> set tops. priority r = m" by (simp add: tops_def)
    ultimately have "evaluate_rules glob rules facts = Inr (decide tops)"
      using assms(1) ms Some decide_tops [of tops m]
      by (simp add: evaluate_rules_def Let_def not_less tops_def [symmetric])
    also have "tops = top_rules glob facts rules"
      using filter_top [OF Some [unfolded ms_def]] by (simp add: top_rules_def tops_def ms_def)
    finally show ?thesis .
  qed
qed

text \<open>The error is the limit, or the error of the first invalid rule.\<close>

lemma split_at_first_invalid:
  assumes "\<not> (\<forall>r \<in> set rules. rule_valid glob r)"
  shows "\<exists>pre r post e. rules = pre @ r # post \<and> (\<forall>x \<in> set pre. rule_valid glob x) \<and> validate_rule glob r = Inl e"
proof -
  from assms obtain r where "r \<in> set rules" "\<not> rule_valid glob r" by blast
  then obtain pre x post where "rules = pre @ x # post" "\<not> rule_valid glob x"
    "\<forall>y \<in> set pre. \<not> \<not> rule_valid glob y"
    using split_list_first_prop [of rules "\<lambda>x. \<not> rule_valid glob x"] by blast
  moreover from this(2) obtain e where "validate_rule glob x = Inl e"
    by (cases "validate_rule glob x") (auto simp: rule_valid_def)
  ultimately show ?thesis by blast
qed

lemma evaluate_rules_invalid:
  assumes "length (pre @ r # post) \<le> MAX_RULES" and "\<forall>x \<in> set pre. rule_valid glob x"
    and "validate_rule glob r = Inl e"
  shows "evaluate_rules glob (pre @ r # post) facts = Inl e"
  using assms collect_matches_invalid [OF assms(2,3)] by (simp add: evaluate_rules_def)

lemma evaluate_rules_Inr_iff:
  "(\<exists>d. evaluate_rules glob rules facts = Inr d) \<longleftrightarrow>
     length rules \<le> MAX_RULES \<and> (\<forall>r \<in> set rules. rule_valid glob r)"
proof
  assume ok: "\<exists>d. evaluate_rules glob rules facts = Inr d"
  then have l: "length rules \<le> MAX_RULES"
    by (auto simp: evaluate_rules_def split: if_splits)
  with ok split_at_first_invalid [of rules glob] evaluate_rules_invalid
  show "length rules \<le> MAX_RULES \<and> (\<forall>r \<in> set rules. rule_valid glob r)"
    by (metis Inl_Inr_False)
qed (auto simp: evaluate_rules_valid)

section \<open>Order, outranked rules, reasons\<close>

text \<open>What a decision proposes, without the ids and the reason.\<close>

fun proposed :: "rule_decision \<Rightarrow> destination list" where
  "proposed (Decided d _ _) = [d]"
| "proposed (Tie ds _ _) = ds"
| "proposed (Abstain _) = []"

fun deciding_rules :: "rule_decision \<Rightarrow> uuid list" where
  "deciding_rules (Decided _ rs _) = rs"
| "deciding_rules (Tie _ rs _) = rs"
| "deciding_rules (Abstain _) = []"

lemma proposed_decide: "proposed (decide tops) = sorted_list_of_set (rule_destination ` set tops)"
proof (cases tops)
  case (Cons r rs)
  show ?thesis
  proof (cases "\<forall>r' \<in> set tops. rule_destination r' = rule_destination r")
    case True
    then have "rule_destination ` set tops = {rule_destination r}" using Cons by auto
    moreover have "proposed (decide tops) = [rule_destination r]"
      using True Cons unfolding decide_def by (simp del: set_simps)
    ultimately show ?thesis by simp
  next
    case False
    then have "decide tops = Tie (sorted_list_of_set (rule_destination ` set tops))
        (map rule_id tops) (conflict_reason (priority r))"
      using Cons unfolding decide_def by (simp del: set_simps)
    then show ?thesis by simp
  qed
qed (simp add: decide_def)

lemma deciding_rules_decide: "deciding_rules (decide tops) = map rule_id tops"
  by (auto simp: decide_def split: list.splits)

lemma mset_top_rules:
  "mset rules = mset rules' \<Longrightarrow> mset (top_rules glob facts rules) = mset (top_rules glob facts rules')"
proof -
  assume eq: "mset rules = mset rules'"
  then have "set rules = set rules'" by (rule mset_eq_setD)
  then show ?thesis unfolding top_rules_def mset_filter by (simp add: eq)
qed

lemma top_rules_outranked:
  assumes m: "rule_matches glob facts r'" and r': "r' \<in> set (pre @ post)" and lt: "priority r < priority r'"
  shows "top_rules glob facts (pre @ r # post) = top_rules glob facts (pre @ post)"
proof -
  let ?P = "\<lambda>rs x. rule_matches glob facts x \<and>
    (\<forall>y \<in> set rs. rule_matches glob facts y \<longrightarrow> priority y \<le> priority x)"
  have "?P (pre @ r # post) x \<longleftrightarrow> ?P (pre @ post) x" if "x \<in> set (pre @ post)" for x
  proof
    assume p: "?P (pre @ post) x"
    with m r' have "priority r' \<le> priority x" by blast
    with p lt show "?P (pre @ r # post) x" by auto
  qed auto
  moreover have "\<not> ?P (pre @ r # post) r" using m r' lt by (auto simp: not_le)
  ultimately show ?thesis unfolding top_rules_def by (intro filter_skip) blast+
qed

lemma rule_valid_destination:
  "rule_valid glob r \<Longrightarrow> validate_relative_directory (destination_directory r) = Inr ()"
  by (auto simp: rule_valid_def validate_rule_def res_then_Inr_iff split: if_splits)

lemma validate_predicates_Inr:
  "validate_predicates glob ps = Inr () \<longleftrightarrow> (\<forall>p \<in> set ps. validate_predicate glob p = Inr ())"
  by (induction ps) (auto simp: res_then_Inr_iff)

lemma validate_relative_directory_Inr:
  "validate_relative_directory v = Inr () \<longleftrightarrow>
     v = ''.'' \<or> length v \<le> 4096 \<and> \<not> starts_with v ''/'' \<and>
       (\<forall>part \<in> set (split_on CHR ''/'' v). part \<noteq> [] \<and> part \<noteq> ''.'' \<and> part \<noteq> ''..'')"
  by (auto simp: validate_relative_directory_def list_ex_iff)

end
