(* ===== verification/Rules_Properties.thy ===== *)
theory Rules_Properties
  imports Core_Rules
begin

text \<open>The properties of the rule engine.\<close>

section \<open>Rules used by the witnesses\<close>

definition exact_glob :: glob where
  "exact_glob p = (if p = [] then None else Some (\<lambda>s. s = p))"

definition sample_rule :: "uuid \<Rightarrow> int \<Rightarrow> string \<Rightarrow> string \<Rightarrow> rule" where
  "sample_rule i p ext dir = \<lparr>rule_id = i, priority = p, predicates = [Extension ext],
     destination_root_id = 7, destination_directory = dir\<rparr>"

definition sample_facts :: file_facts where
  "sample_facts = \<lparr>extension = Some ''pdf'', verified_mime = None, filename = ''a.pdf'',
     source_root_id = 1, source_directory = ''inbox'', completed = True\<rparr>"

lemmas sample_defs = exact_glob_def sample_rule_def sample_facts_def

lemma sample_valid:
  "rule_valid exact_glob (sample_rule i p ''pdf'' ''docs'')"
  "rule_valid exact_glob (sample_rule i p ''pdf'' ''bills'')"
  "\<not> rule_valid exact_glob (sample_rule i p ''pdf'' ''/etc'')"
  by (simp_all add: sample_defs rule_valid_def validate_rule_def validate_relative_directory_def
      starts_with_def split_on.simps)

lemma sample_matches: "rule_matches exact_glob sample_facts (sample_rule i p ''pdf'' d)"
  by (simp add: sample_defs rule_matches_def eq_ignore_ascii_case_def)

lemma sample_decision:
  "evaluate_rules exact_glob [sample_rule 1 5 ''pdf'' ''docs'', sample_rule 2 9 ''pdf'' ''bills''] sample_facts
    = Inr (Decided (Destination 7 ''bills'') [2] ''Unique destination from priority 9 rule set'')"
proof -
  have "top_rules exact_glob sample_facts [sample_rule 1 5 ''pdf'' ''docs'', sample_rule 2 9 ''pdf'' ''bills'']
      = [sample_rule 2 9 ''pdf'' ''bills'']"
    by (simp add: top_rules_def sample_matches) (simp add: sample_rule_def)
  moreover have "show_int 9 = ''9''" by code_simp
  ultimately show ?thesis
    by (simp add: evaluate_rules_valid MAX_RULES_def sample_valid decide_def unique_reason_def)
       (simp add: sample_rule_def rule_destination_def)
qed

section \<open>The properties\<close>

text \<open>C31. Closed form: on at most a thousand valid rules the engine returns the decision of the
  matching rules that no matching rule outranks: their common destination, a tie listing their
  destinations in order, or an abstention when none matches.\<close>

theorem evaluate_rules_closed_form:
  assumes "length rules \<le> MAX_RULES" and "\<forall>r \<in> set rules. rule_valid glob r"
  shows "evaluate_rules glob rules facts = Inr (decide (top_rules glob facts rules))"
  using assms by (rule evaluate_rules_valid)

theorem evaluate_rules_closed_form_witness:
  "evaluate_rules exact_glob [sample_rule 1 5 ''pdf'' ''docs'', sample_rule 2 9 ''pdf'' ''bills''] sample_facts
      = Inr (decide (top_rules exact_glob sample_facts [sample_rule 1 5 ''pdf'' ''docs'', sample_rule 2 9 ''pdf'' ''bills'']))
   \<and> evaluate_rules exact_glob [sample_rule 1 5 ''pdf'' ''docs'', sample_rule 2 9 ''pdf'' ''bills''] sample_facts
      = Inr (Decided (Destination 7 ''bills'') [2] ''Unique destination from priority 9 rule set'')"
  using evaluate_rules_closed_form [of "[sample_rule 1 5 ''pdf'' ''docs'', sample_rule 2 9 ''pdf'' ''bills'']"
      exact_glob sample_facts] sample_decision
  by (simp add: MAX_RULES_def sample_valid)

text \<open>C34. The engine fails exactly when there are more than a thousand rules, or some rule is
  invalid, and then with the error of the first invalid rule; it never fails on a rule set that
  is valid, whatever the file.\<close>

theorem evaluate_rules_error:
  "evaluate_rules glob rules facts = Inl e \<longleftrightarrow>
     length rules > MAX_RULES \<and> e = TooManyRules \<or>
     length rules \<le> MAX_RULES \<and>
       (\<exists>pre r post. rules = pre @ r # post \<and> list_all (rule_valid glob) pre \<and> validate_rule glob r = Inl e)"
proof (cases "length rules > MAX_RULES")
  case True
  then show ?thesis by (auto simp: evaluate_rules_def)
next
  case False
  then have len: "length rules \<le> MAX_RULES" by simp
  have "evaluate_rules glob rules facts = Inl e \<longleftrightarrow>
    (\<exists>pre r post. rules = pre @ r # post \<and> list_all (rule_valid glob) pre \<and> validate_rule glob r = Inl e)"
  proof
    assume e: "evaluate_rules glob rules facts = Inl e"
    then have "\<not> (\<forall>r \<in> set rules. rule_valid glob r)"
      using evaluate_rules_valid [OF len] by fastforce
    from split_at_first_invalid [OF this] obtain pre r post e' where s: "rules = pre @ r # post"
      "\<forall>x \<in> set pre. rule_valid glob x" "validate_rule glob r = Inl e'" by blast
    with e evaluate_rules_invalid [OF len [unfolded s(1)] s(2,3)] have "e' = e" by simp
    with s show "\<exists>pre r post. rules = pre @ r # post \<and> list_all (rule_valid glob) pre \<and> validate_rule glob r = Inl e"
      by (auto simp: list_all_iff)
  next
    assume "\<exists>pre r post. rules = pre @ r # post \<and> list_all (rule_valid glob) pre \<and> validate_rule glob r = Inl e"
    then obtain pre r post where s: "rules = pre @ r # post" "\<forall>x \<in> set pre. rule_valid glob x"
      "validate_rule glob r = Inl e" by (auto simp: list_all_iff)
    from evaluate_rules_invalid [OF len [unfolded s(1)] s(2,3)] s(1)
    show "evaluate_rules glob rules facts = Inl e" by simp
  qed
  with False show ?thesis by simp
qed

text \<open>C32. The order of the rules does not matter: for the same rules in any order, one run
  decides exactly when the other does, proposing the same destinations on the word of the same
  rules.\<close>

theorem evaluate_rules_order:
  assumes "mset rules = mset rules'" and "evaluate_rules glob rules facts = Inr d"
  shows "\<exists>d'. evaluate_rules glob rules' facts = Inr d' \<and> proposed d' = proposed d
    \<and> mset (deciding_rules d') = mset (deciding_rules d)"
proof -
  have v: "length rules \<le> MAX_RULES" "\<forall>r \<in> set rules. rule_valid glob r"
    using assms(2) evaluate_rules_Inr_iff [of glob rules facts] by blast+
  then have d: "d = decide (top_rules glob facts rules)"
    using assms(2) evaluate_rules_valid [of rules glob facts] by simp
  have v': "length rules' \<le> MAX_RULES" "\<forall>r \<in> set rules'. rule_valid glob r"
    using v mset_eq_length [OF assms(1)] mset_eq_setD [OF assms(1)] by auto
  let ?d' = "decide (top_rules glob facts rules')"
  have m: "mset (top_rules glob facts rules) = mset (top_rules glob facts rules')"
    using assms(1) by (rule mset_top_rules)
  have "proposed ?d' = proposed d" using mset_eq_setD [OF m] by (simp add: d proposed_decide)
  moreover have "mset (deciding_rules ?d') = mset (deciding_rules d)"
    using m by (simp add: d deciding_rules_decide mset_map)
  ultimately show ?thesis using evaluate_rules_valid [OF v'] by blast
qed

theorem evaluate_rules_order_witness:
  "\<exists>d'. evaluate_rules exact_glob [sample_rule 2 9 ''pdf'' ''bills'', sample_rule 1 5 ''pdf'' ''docs''] sample_facts = Inr d'
     \<and> proposed d' = [Destination 7 ''bills''] \<and> mset (deciding_rules d') = {#2#}"
  using evaluate_rules_order [OF _ sample_decision,
      of "[sample_rule 2 9 ''pdf'' ''bills'', sample_rule 1 5 ''pdf'' ''docs'']"]
  by (simp add: add_mset_commute)

text \<open>An outranked rule has no say: adding, anywhere, a valid rule of lower priority than
  some matching rule changes neither the destinations nor the deciding rules.\<close>

theorem evaluate_rules_outranked:
  assumes "rule_matches glob facts r'" and "r' \<in> set (pre @ post)" and "priority r < priority r'"
    and "rule_valid glob r" and "length (pre @ r # post) \<le> MAX_RULES"
  shows "evaluate_rules glob (pre @ r # post) facts = evaluate_rules glob (pre @ post) facts"
proof (cases "\<forall>x \<in> set (pre @ post). rule_valid glob x")
  case True
  then have a: "\<forall>x \<in> set (pre @ r # post). rule_valid glob x" using assms(4) by auto
  have len: "length (pre @ post) \<le> MAX_RULES" using assms(5) by simp
  show ?thesis
    using evaluate_rules_valid [OF assms(5) a] evaluate_rules_valid [OF len True]
      top_rules_outranked [OF assms(1-3)] by simp
next
  case False
  have len: "length (pre @ post) \<le> MAX_RULES" using assms(5) by simp
  from split_at_first_invalid [OF False] obtain a x b e where s: "pre @ post = a @ x # b"
    "\<forall>y \<in> set a. rule_valid glob y" "validate_rule glob x = Inl e" by blast
  have short: "evaluate_rules glob (pre @ post) facts = Inl e"
    using evaluate_rules_invalid [OF len [unfolded s(1)] s(2,3)] s(1) by simp
  consider c where "pre = a @ x # c" | c where "a = pre @ c" "post = c @ x # b"
    using s(1) by (auto simp: append_eq_append_conv2 append_eq_Cons_conv)
  then show ?thesis
  proof cases
    case 1
    then have "evaluate_rules glob (a @ x # (c @ r # post)) facts = Inl e"
      using assms(5) evaluate_rules_invalid [of a x "c @ r # post"] s(2,3) by simp
    with 1 short show ?thesis by simp
  next
    case 2
    then have "\<forall>y \<in> set (pre @ r # c). rule_valid glob y" using s(2) assms(4) by auto
    then have "evaluate_rules glob ((pre @ r # c) @ x # b) facts = Inl e"
      using assms(5) 2 evaluate_rules_invalid [of "pre @ r # c" x b] s(3) by simp
    with 2 short show ?thesis by simp
  qed
qed

theorem evaluate_rules_outranked_witness:
  "evaluate_rules exact_glob ([] @ sample_rule 1 5 ''pdf'' ''docs'' # [sample_rule 2 9 ''pdf'' ''bills'']) sample_facts
    = evaluate_rules exact_glob ([] @ [sample_rule 2 9 ''pdf'' ''bills'']) sample_facts"
  by (rule evaluate_rules_outranked [where r' = "sample_rule 2 9 ''pdf'' ''bills''"])
     (simp_all add: sample_matches sample_valid MAX_RULES_def, simp add: sample_rule_def)

end
