(* ===== verification/Rust_Path.thy ===== *)
theory Rust_Path
  imports Rust_Text
begin

text \<open>
  \<open>std::path\<close> on Unix, on raw path bytes: components, \<open>join\<close>, \<open>parent\<close>, \<open>file_name\<close>,
  \<open>extension\<close>, \<open>starts_with\<close> and \<open>strip_prefix\<close>, with the normalisation the library does
  (repeated separators and inner \<open>.\<close> components are skipped, a leading \<open>.\<close> is kept, \<open>..\<close> is
  kept, bytes inside a returned path are the bytes of the original).
\<close>

section \<open>Splitting a path\<close>

abbreviation slash :: char where "slash \<equiv> CHR ''/''"

datatype component = RootDir | CurDir | ParentDir | Normal string

datatype lead = LNone | LRoot | LCur

definition is_absolute :: "string \<Rightarrow> bool" where
  "is_absolute p \<longleftrightarrow> starts_with p ''/''"

definition path_split :: "string \<Rightarrow> lead \<times> string list" where
  "path_split p = (case split_on slash p of [] \<Rightarrow> (LNone, [])
     | f # r \<Rightarrow> if is_absolute p then (LRoot, r) else if f = ''.'' then (LCur, r) else (LNone, f # r))"

definition real_part :: "string \<Rightarrow> bool" where
  "real_part x \<longleftrightarrow> x \<noteq> [] \<and> x \<noteq> ''.''"

definition component_of :: "string \<Rightarrow> component" where
  "component_of x = (if x = ''..'' then ParentDir else Normal x)"

fun lead_components :: "lead \<Rightarrow> component list" where
  "lead_components LNone = []"
| "lead_components LRoot = [RootDir]"
| "lead_components LCur = [CurDir]"

definition components :: "string \<Rightarrow> component list" where
  "components p = (case path_split p of (l, b) \<Rightarrow>
     lead_components l @ map component_of (filter real_part b))"

fun is_normal :: "component \<Rightarrow> bool" where
  "is_normal (Normal x) = True"
| "is_normal _ = False"

definition trim_right :: "string list \<Rightarrow> string list" where
  "trim_right b = rev (dropWhile (\<lambda>x. \<not> real_part x) (rev b))"

fun rebuild :: "lead \<Rightarrow> string list \<Rightarrow> string" where
  "rebuild LNone b = join_with slash b"
| "rebuild LRoot b = slash # join_with slash b"
| "rebuild LCur b = (if b = [] then ''.'' else ''./'' @ join_with slash b)"

section \<open>The operations\<close>

definition file_name :: "string \<Rightarrow> string option" where
  "file_name p = (case components p of [] \<Rightarrow> None
     | cs \<Rightarrow> (case last cs of Normal x \<Rightarrow> Some x | _ \<Rightarrow> None))"

definition parent :: "string \<Rightarrow> string option" where
  "parent p = (case path_split p of (l, b) \<Rightarrow>
     let t = trim_right b in
     if t \<noteq> [] then Some (rebuild l (trim_right (butlast t)))
     else if l = LCur then Some [] else None)"

definition path_join :: "string \<Rightarrow> string \<Rightarrow> string" where
  "path_join p q =
    (if is_absolute q then q
     else if p = [] \<or> last p = slash then p @ q
     else p @ slash # q)"

text \<open>\<open>Path::extension\<close>: what follows the last dot, unless the only dot is the first byte.\<close>

definition path_extension :: "string \<Rightarrow> string option" where
  "path_extension p = (case file_name p of None \<Rightarrow> None
     | Some f \<Rightarrow> (let parts = split_on CHR ''.'' f in
         if f = ''..'' \<or> length parts < 2 \<or> parts = [[], last parts] then None
         else Some (last parts)))"

definition path_starts_with :: "string \<Rightarrow> string \<Rightarrow> bool" where
  "path_starts_with p base \<longleftrightarrow> starts_with (components p) (components base)"

fun drop_real :: "nat \<Rightarrow> string list \<Rightarrow> string list" where
  "drop_real k [] = []"
| "drop_real k (x # xs) =
     (if \<not> real_part x then drop_real k xs
      else if k = 0 then x # xs else drop_real (k - 1) xs)"

definition strip_prefix :: "string \<Rightarrow> string \<Rightarrow> string option" where
  "strip_prefix p base =
    (if path_starts_with p base then
       (case path_split p of (l, b) \<Rightarrow> case path_split base of (lb, bb) \<Rightarrow>
          let rest = join_with slash (trim_right (drop_real (length (filter real_part bb)) b)) in
          if components base = [] then Some p else Some rest)
     else None)"

section \<open>Facts about single names and joined paths\<close>

text \<open>A name that can be one directory entry.\<close>

definition entry_name :: "string \<Rightarrow> bool" where
  "entry_name n \<longleftrightarrow> n \<noteq> [] \<and> n \<noteq> ''.'' \<and> n \<noteq> ''..'' \<and> slash \<notin> set n"

lemma entry_name_real [simp]: "entry_name n \<Longrightarrow> real_part n"
  by (simp add: entry_name_def real_part_def)

lemma entry_name_relative [simp]: "entry_name n \<Longrightarrow> \<not> is_absolute n"
  by (auto simp: entry_name_def is_absolute_def starts_with_iff)

lemma path_split_entry: "entry_name n \<Longrightarrow> path_split n = (LNone, [n])"
  by (auto simp: path_split_def entry_name_def split_on_no_sep is_absolute_def starts_with_iff)

lemma components_entry [path_simps]: "entry_name n \<Longrightarrow> components n = [Normal n]"
  by (simp add: components_def path_split_entry component_of_def) (simp add: entry_name_def)

lemma file_name_entry [path_simps]: "entry_name n \<Longrightarrow> file_name n = Some n"
  by (simp add: file_name_def components_entry)

lemma parent_entry [path_simps]: "entry_name n \<Longrightarrow> parent n = Some []"
  by (simp add: parent_def path_split_entry trim_right_def)

lemma path_split_append_slash:
  assumes "p \<noteq> []"
  shows "path_split (p @ slash # q) = (case path_split p of (l, b) \<Rightarrow> (l, b @ split_on slash q))"
proof -
  have abs: "is_absolute (p @ slash # q) = is_absolute p"
    using assms by (cases p) (auto simp: is_absolute_def starts_with_def)
  obtain f r where fr: "split_on slash p = f # r" by (cases "split_on slash p") auto
  show ?thesis
    by (auto simp: path_split_def split_on_append abs fr)
qed

lemma path_join_split:
  assumes "\<not> is_absolute q" and "p \<noteq> []"
  shows "\<exists>p'. path_join p q = p' @ slash # q \<and> (p' = [] \<longrightarrow> is_absolute p)
    \<and> (p' \<noteq> [] \<longrightarrow> fst (path_split p') = fst (path_split p))
    \<and> filter real_part (snd (path_split p)) = (if p' = [] then [] else filter real_part (snd (path_split p')))"
proof (cases "last p = slash")
  case True
  then obtain p' where p': "p = p' @ [slash]" using assms(2) by (metis append_butlast_last_id)
  then have "path_join p q = p' @ slash # q" using assms by (simp add: path_join_def)
  moreover have "p' = [] \<Longrightarrow> is_absolute p \<and> filter real_part (snd (path_split p)) = []"
    by (simp add: p' is_absolute_def starts_with_def path_split_def real_part_def)
  moreover have "p' \<noteq> [] \<Longrightarrow> path_split p = (fst (path_split p'), snd (path_split p') @ [[]])"
    using path_split_append_slash [of p' "[]"] by (simp add: p' split: prod.splits)
  ultimately show ?thesis by (cases "p' = []") (auto simp: real_part_def)
next
  case False
  then show ?thesis using assms by (auto simp: path_join_def intro!: exI [of _ p])
qed

text \<open>Joining appends the components of a relative path that does not start with \<open>.\<close>.\<close>

lemma components_path_join:
  assumes "\<not> is_absolute q" and "q \<noteq> []" and "CurDir \<notin> set (components q)"
  shows "components (path_join p q) = components p @ components q"
proof (cases "p = []")
  case True
  have "components [] = []"
    by (simp add: components_def path_split_def is_absolute_def starts_with_def real_part_def)
  with True show ?thesis by (simp add: path_join_def)
next
  case False
  obtain f r where fr: "split_on slash q = f # r" by (cases "split_on slash q") auto
  then have f: "f \<noteq> ''.''" using assms by (auto simp: components_def path_split_def)
  then have q: "components q = map component_of (filter real_part (split_on slash q))"
    using assms fr by (simp add: components_def path_split_def)
  obtain p' where p': "path_join p q = p' @ slash # q" "p' = [] \<longrightarrow> is_absolute p"
    "p' \<noteq> [] \<longrightarrow> fst (path_split p') = fst (path_split p)"
    "filter real_part (snd (path_split p)) = (if p' = [] then [] else filter real_part (snd (path_split p')))"
    using path_join_split [OF assms(1) False] by blast
  show ?thesis
  proof (cases "p' = []")
    case True
    with p' have ab: "is_absolute p" and e: "filter real_part (snd (path_split p)) = []" by auto
    then have "components p = [RootDir]"
      by (auto simp: components_def path_split_def split: list.splits prod.splits)
    moreover have "path_split (slash # q) = (LRoot, split_on slash q)"
      by (simp add: path_split_def is_absolute_def starts_with_def)
    then have "components (slash # q) = RootDir # components q"
      by (simp add: q) (simp add: components_def)
    ultimately show ?thesis using p'(1) True by simp
  next
    case ne: False
    with p' show ?thesis
      by (auto simp: components_def path_split_append_slash q [unfolded components_def] split: prod.splits)
  qed
qed

lemma components_join_entry [path_simps]:
  "entry_name n \<Longrightarrow> components (path_join p n) = components p @ [Normal n]"
  using components_path_join [of n p] by (auto simp: components_entry entry_name_def)

lemma file_name_join [path_simps]: "entry_name n \<Longrightarrow> file_name (path_join p n) = Some n"
  by (cases "components p") (simp_all add: file_name_def components_join_entry)

lemma components_normal: "Normal n \<in> set (components p) \<Longrightarrow> entry_name n"
proof -
  assume "Normal n \<in> set (components p)"
  then obtain x b l where "path_split p = (l, b)" and x: "x \<in> set b" "real_part x" "component_of x = Normal n"
    by (cases "path_split p"; cases "fst (path_split p)") (auto simp: components_def)
  moreover from x have "x = n" and "n \<noteq> ''..''" by (auto simp: component_of_def split: if_splits)
  moreover have "set b \<subseteq> set (split_on slash p)"
  proof -
    obtain f r where fr: "split_on slash p = f # r" by (cases "split_on slash p") auto
    then have "b = f # r \<or> b = r"
      using \<open>path_split p = (l, b)\<close> by (auto simp: path_split_def split: if_splits)
    then show ?thesis by (auto simp: fr)
  qed
  ultimately show ?thesis
    using split_on_parts [of n slash p] by (auto simp: entry_name_def real_part_def)
qed

lemma file_name_entry_name: "file_name p = Some n \<Longrightarrow> entry_name n"
proof (rule components_normal [of _ p])
  assume "file_name p = Some n"
  then show "Normal n \<in> set (components p)"
    by (auto simp: file_name_def split: list.splits component.splits)
       (metis last_in_set)
qed

end
