(* ===== verification/World.thy ===== *)
theory World
  imports Rust_Path
begin

text \<open>
  What the crates call and the repository does not contain. The pure third-party functions
  (\<open>globset\<close>, \<open>sha2\<close> with \<open>hex\<close>, \<open>base64\<close>, \<open>uuid\<close> text, the Unicode tables behind
  \<open>str::to_lowercase\<close>) are the fields of a record \<open>libs\<close>; the kernel, the clock, the random
  source, SQLite's success or failure and the agent process are the fields of a record \<open>'w os\<close>
  of functions on an abstract world \<open>'w\<close>. Every definition that uses them takes them as
  arguments. What the code relies on is stated by two contracts, the locales \<open>libs_ok\<close> and
  \<open>posix\<close>: documented behaviour of each single call, expressed over a \<open>view\<close> of the world,
  with failure allowed at every call.
\<close>

section \<open>Pure library functions\<close>

record libs =
  lib_glob :: "string \<Rightarrow> (string \<Rightarrow> bool) option"
  lib_sha256 :: "bytes \<Rightarrow> string" \<comment> \<open>\<open>hex::encode(Sha256)\<close> of all bytes fed to the hasher\<close>
  lib_b64_encode :: "bytes \<Rightarrow> string" \<comment> \<open>\<open>URL_SAFE_NO_PAD\<close>\<close>
  lib_b64_decode :: "string \<Rightarrow> bytes option"
  lib_uuid_text :: "uuid \<Rightarrow> string"
  lib_uuid_parse :: "string \<Rightarrow> uuid option"
  lib_lowercase :: "string \<Rightarrow> string"

locale libs_ok =
  fixes L :: libs
  assumes b64_roundtrip: "lib_b64_decode L (lib_b64_encode L b) = Some b"
    and uuid_roundtrip: "lib_uuid_parse L (lib_uuid_text L u) = Some u"
    and uuid_no_slash: "CHR ''/'' \<notin> set (lib_uuid_text L u)"
begin

lemma b64_inj: "lib_b64_encode L a = lib_b64_encode L b \<longleftrightarrow> a = b"
  by (metis b64_roundtrip option.inject)

lemma uuid_text_inj: "lib_uuid_text L a = lib_uuid_text L b \<longleftrightarrow> a = b"
  by (metis uuid_roundtrip option.inject)

end

section \<open>The kernel and the other processes\<close>

text \<open>The error numbers the code distinguishes; every other one is \<open>ERRNO n\<close>.\<close>

datatype errno = EXIST | NOENT | ACCES | XDEV | ERRNO nat

text \<open>A file-system object is named by its device and inode; a descriptor by the object it is open on.\<close>

datatype obj = Obj (dev_of: u64) (ino_of: u64)

datatype ftype = FRegular | FDirectory | FSymlink | FOther

record stat =
  st_type :: ftype
  st_nlink :: u64
  st_size :: int
  st_dev :: u64
  st_ino :: u64
  st_mtime :: int
  st_mtime_nsec :: int
  st_atime :: int
  st_atime_nsec :: int
  st_mode :: u32

datatype oflags = O_RDONLY | O_DIRECTORY

text \<open>
  The resolution flags of \<open>openat2\<close>: always \<open>BENEATH\<close>, \<open>NO_SYMLINKS\<close> and \<open>NO_MAGICLINKS\<close>,
  in one place also \<open>NO_XDEV\<close>.
\<close>

datatype resolve = Beneath | Beneath_No_Xdev

datatype db_error = DbError nat

text \<open>
  The answers of successive \<open>try_wait\<close> calls on a child, possibly without end: it exited, the
  call failed, or it is still running and the clock then shows the given number of milliseconds
  since the start.
\<close>

codatatype polls = Exited | PollError errno | Running int polls

record 'w os =
  os_lstat :: "string \<Rightarrow> ('w, errno, stat) io"
  os_stat :: "string \<Rightarrow> ('w, errno, stat) io"
  os_open_dir :: "string \<Rightarrow> ('w, errno, obj) io"
  os_open_file :: "string \<Rightarrow> ('w, errno, obj) io"
  os_openat2 :: "obj \<Rightarrow> string \<Rightarrow> oflags \<Rightarrow> resolve \<Rightarrow> ('w, errno, obj) io"
  os_fstat :: "obj \<Rightarrow> ('w, errno, stat) io"
  os_rename_noreplace :: "obj \<Rightarrow> string \<Rightarrow> obj \<Rightarrow> string \<Rightarrow> ('w, errno, unit) io"
  os_fsync :: "obj \<Rightarrow> ('w, errno, unit) io"
  os_create_excl :: "obj \<Rightarrow> string \<Rightarrow> u32 \<Rightarrow> ('w, errno, obj) io"
  os_dup :: "obj \<Rightarrow> ('w, errno, obj) io"
  os_reads :: "obj \<Rightarrow> 'w \<Rightarrow> (errno + bytes) list \<times> 'w"
    \<comment> \<open>the results of successive \<open>read\<close> calls into a 64 KiB buffer up to the first empty one\<close>
  os_read_once :: "obj \<Rightarrow> nat \<Rightarrow> ('w, errno, bytes) io" \<comment> \<open>one \<open>read\<close> into a buffer of the given size\<close>
  os_write :: "obj \<Rightarrow> bytes \<Rightarrow> ('w, errno, unit) io"
  os_flush :: "obj \<Rightarrow> ('w, errno, unit) io"
  os_fchmod :: "obj \<Rightarrow> u32 \<Rightarrow> ('w, errno, unit) io"
  os_futimens :: "obj \<Rightarrow> int \<times> int \<Rightarrow> int \<times> int \<Rightarrow> ('w, errno, unit) io"
  os_unlinkat :: "obj \<Rightarrow> string \<Rightarrow> ('w, errno, unit) io"
  os_rename_path :: "string \<Rightarrow> string \<Rightarrow> ('w, errno, unit) io" \<comment> \<open>\<open>NOREPLACE\<close>, both paths from the working directory\<close>
  os_create_path :: "string \<Rightarrow> u32 \<Rightarrow> ('w, errno, obj) io"
  os_remove_path :: "string \<Rightarrow> ('w, errno, unit) io"
  os_read_dir :: "string \<Rightarrow> ('w, errno, (errno + string \<times> (errno + ftype)) list) io"
  os_canonicalize :: "string \<Rightarrow> ('w, errno, string) io"
  os_now :: "'w \<Rightarrow> int \<times> 'w" \<comment> \<open>\<open>SystemTime::now\<close> in nanoseconds\<close>
  os_new_uuid :: "'w \<Rightarrow> uuid \<times> 'w"
  os_db :: "'w \<Rightarrow> db_error option \<times> 'w" \<comment> \<open>whether the next SQL statement fails\<close>
  os_epoch :: "'w \<Rightarrow> int \<times> 'w" \<comment> \<open>\<open>unixepoch()\<close>\<close>
  os_file_len :: "string \<Rightarrow> ('w, errno, u64) io"
  os_next_open :: "('w, errno, unit) io" \<comment> \<open>create and truncate \<open>state.json.next\<close>\<close>
  os_next_write :: "bytes \<Rightarrow> ('w, errno, unit) io"
  os_next_sync :: "('w, errno, unit) io"
  os_next_rename :: "('w, errno, unit) io" \<comment> \<open>rename it over \<open>state.json\<close>\<close>
  os_state_dir_sync :: "('w, errno, unit) io"
  os_state_mkdir :: "('w, errno, unit) io" \<comment> \<open>\<open>create_dir_all\<close> of the state directory\<close>
  os_state_exists :: "'w \<Rightarrow> bool \<times> 'w" \<comment> \<open>\<open>Path::exists\<close> of \<open>state.json\<close>, \<open>False\<close> also when it cannot tell\<close>
  os_state_open :: "('w, errno, unit) io"
  os_state_len :: "('w, errno, u64) io"
  os_state_read :: "nat \<Rightarrow> ('w, errno, bytes) io" \<comment> \<open>\<open>take(k).read_to_end\<close> on \<open>state.json\<close>\<close>
  os_spawn :: "string \<Rightarrow> string list \<Rightarrow> ('w, errno, unit) io"
  os_child_write :: "bytes \<Rightarrow> ('w, errno, unit) io"
  os_child_polls :: "'w \<Rightarrow> polls \<times> 'w"
  os_child_kill :: "('w, errno, unit) io"
  os_child_wait :: "('w, errno, unit) io" \<comment> \<open>of a killed child\<close>
  os_child_output :: "('w, errno, bool \<times> bytes) io" \<comment> \<open>exit success and standard output\<close>

section \<open>The part of the world the properties speak of\<close>

record vfile =
  f_data :: bytes
  f_nlink :: u64
  f_mtime :: int
  f_mtime_nsec :: int
  f_atime :: int
  f_atime_nsec :: int
  f_mode :: u32

record fsview =
  v_entry :: "obj \<Rightarrow> string \<Rightarrow> obj option" \<comment> \<open>the entries of every directory\<close>
  v_file :: "obj \<Rightarrow> vfile option" \<comment> \<open>the regular files\<close>
  v_dirpath :: "string \<Rightarrow> obj option" \<comment> \<open>the directory an absolute path names\<close>
  v_state :: "bytes option" \<comment> \<open>\<open>state.json\<close>\<close>
  v_next :: "bytes option" \<comment> \<open>\<open>state.json.next\<close>\<close>

definition set_entry :: "obj \<Rightarrow> string \<Rightarrow> obj option \<Rightarrow> fsview \<Rightarrow> fsview" where
  "set_entry d n x v = v\<lparr>v_entry := (v_entry v)(d := (v_entry v d)(n := x))\<rparr>"

definition move_entry :: "obj \<Rightarrow> string \<Rightarrow> obj \<Rightarrow> string \<Rightarrow> fsview \<Rightarrow> fsview" where
  "move_entry d n d' n' v = set_entry d' n' (v_entry v d n) (set_entry d n None v)"

definition set_file :: "obj \<Rightarrow> vfile option \<Rightarrow> fsview \<Rightarrow> fsview" where
  "set_file o' f v = v\<lparr>v_file := (v_file v)(o' := f)\<rparr>"

text \<open>The entry a path names: the last component looked up in the directory of its parent.\<close>

definition v_resolve :: "fsview \<Rightarrow> string \<Rightarrow> (obj \<times> string) option" where
  "v_resolve v p = (case parent p of None \<Rightarrow> None
     | Some q \<Rightarrow> (case v_dirpath v q of None \<Rightarrow> None
         | Some d \<Rightarrow> map_option (Pair d) (file_name p)))"

definition v_lookup :: "fsview \<Rightarrow> string \<Rightarrow> obj option" where
  "v_lookup v p = (case v_resolve v p of None \<Rightarrow> None | Some (d, n) \<Rightarrow> v_entry v d n)"

definition plain_path :: "string \<Rightarrow> bool" where
  "plain_path p \<longleftrightarrow> (\<exists>q n. entry_name n \<and> q \<noteq> [] \<and> p = path_join q n)"

definition stat_of :: "obj \<Rightarrow> vfile \<Rightarrow> stat \<Rightarrow> bool" where
  "stat_of o' f s \<longleftrightarrow> st_type s = FRegular \<and> st_nlink s = f_nlink f \<and> st_size s = int (length (f_data f))
     \<and> st_dev s = dev_of o' \<and> st_ino s = ino_of o' \<and> st_mtime s = f_mtime f \<and> st_mtime_nsec s = f_mtime_nsec f"

lemma v_entry_set_entry [simp]:
  "v_entry (set_entry d n x v) e m = (if e = d \<and> m = n then x else v_entry v e m)"
  by (simp add: set_entry_def)

lemma set_entry_frame [simp]:
  "v_file (set_entry d n x v) = v_file v" "v_dirpath (set_entry d n x v) = v_dirpath v"
  "v_state (set_entry d n x v) = v_state v" "v_next (set_entry d n x v) = v_next v"
  by (simp_all add: set_entry_def)

lemma v_entry_move_entry [simp]:
  "v_entry (move_entry d n d' n' v) e m =
     (if e = d' \<and> m = n' then v_entry v d n else if e = d \<and> m = n then None else v_entry v e m)"
  by (simp add: move_entry_def)

lemma move_entry_frame [simp]:
  "v_file (move_entry d n d' n' v) = v_file v" "v_dirpath (move_entry d n d' n' v) = v_dirpath v"
  "v_state (move_entry d n d' n' v) = v_state v" "v_next (move_entry d n d' n' v) = v_next v"
  by (simp_all add: move_entry_def)

lemma set_file_frame [simp]:
  "v_entry (set_file o' f v) = v_entry v" "v_dirpath (set_file o' f v) = v_dirpath v"
  "v_state (set_file o' f v) = v_state v" "v_next (set_file o' f v) = v_next v"
  "v_file (set_file o' f v) = (v_file v)(o' := f)"
  by (simp_all add: set_file_def)

section \<open>The contract of the system calls\<close>

text \<open>
  Each law speaks of one call: what it may change in the view, and what a success means. No
  law says when a call succeeds, so a theorem under this contract holds for every pattern of
  failures, hence for a process stopped between any two calls. No other process changes the
  files between two calls of the same operation, the classifier's process included, and a blocking
  call returns. A written file may hold any bytes afterwards:
  it is the code's checks that show what it holds.
\<close>

locale posix =
  fixes S :: "'w os" and view :: "'w \<Rightarrow> fsview"
  assumes lstat_view: "os_lstat S p w = (r, w') \<Longrightarrow> view w' = view w"
    and stat_view: "os_stat S p w = (r, w') \<Longrightarrow> view w' = view w"
    and open_dir_view: "os_open_dir S p w = (r', w') \<Longrightarrow> view w' = view w"
    and open_file_view: "os_open_file S p w = (r', w') \<Longrightarrow> view w' = view w"
    and openat2_view: "os_openat2 S d p fl rs w = (r', w') \<Longrightarrow> view w' = view w"
    and fstat_view: "os_fstat S d w = (r, w') \<Longrightarrow> view w' = view w"
    and fsync_view: "os_fsync S d w = (u, w') \<Longrightarrow> view w' = view w"
    and dup_view: "os_dup S d w = (r', w') \<Longrightarrow> view w' = view w"
    and reads_view: "os_reads S d w = (rcs, w') \<Longrightarrow> view w' = view w"
    and read_once_view: "os_read_once S d k w = (rq, w') \<Longrightarrow> view w' = view w"
    and read_dir_view: "os_read_dir S p w = (res, w') \<Longrightarrow> view w' = view w"
    and canonicalize_view: "os_canonicalize S p w = (rq, w') \<Longrightarrow> view w' = view w"
    and now_view: "os_now S w = (t, w') \<Longrightarrow> view w' = view w"
    and new_uuid_view: "os_new_uuid S w = (uu, w') \<Longrightarrow> view w' = view w"
    and db_view: "os_db S w = (dbe, w') \<Longrightarrow> view w' = view w"
    and epoch_view: "os_epoch S w = (t, w') \<Longrightarrow> view w' = view w"
    and file_len_view: "os_file_len S p w = (len, w') \<Longrightarrow> view w' = view w"
    and next_sync_view: "os_next_sync S w = (u, w') \<Longrightarrow> view w' = view w"
    and state_dir_sync_view: "os_state_dir_sync S w = (u, w') \<Longrightarrow> view w' = view w"
    and state_mkdir_view: "os_state_mkdir S w = (u, w') \<Longrightarrow> view w' = view w"
    and state_exists_view: "os_state_exists S w = (ex, w') \<Longrightarrow> view w' = view w"
    and state_open_view: "os_state_open S w = (u, w') \<Longrightarrow> view w' = view w"
    and state_len_view: "os_state_len S w = (len, w') \<Longrightarrow> view w' = view w"
    and state_read_view: "os_state_read S k w = (rq, w') \<Longrightarrow> view w' = view w"
    and spawn_view: "os_spawn S exe args w = (u, w') \<Longrightarrow> view w' = view w"
    and child_write_view: "os_child_write S b' w = (u, w') \<Longrightarrow> view w' = view w"
    and child_polls_view: "os_child_polls S w = (pls, w') \<Longrightarrow> view w' = view w"
    and child_kill_view: "os_child_kill S w = (kil, w') \<Longrightarrow> view w' = view w"
    and child_wait_view: "os_child_wait S w = (wai, w') \<Longrightarrow> view w' = view w"
    and child_output_view: "os_child_output S w = (out, w') \<Longrightarrow> view w' = view w"
    \<comment> \<open>what a success of the observing calls says\<close>
    and lstat_ok: "os_lstat S p w = (Inr s, w') \<Longrightarrow> plain_path p \<Longrightarrow>
      \<exists>x. v_lookup (view w) p = Some x \<and> st_dev s = dev_of x \<and> st_ino s = ino_of x \<and>
        (case v_file (view w) x of Some f \<Rightarrow> stat_of x f s | None \<Rightarrow> st_type s \<noteq> FRegular)"
    and lstat_absent: "os_lstat S p w = (Inl NOENT, w') \<Longrightarrow> plain_path p \<Longrightarrow> v_lookup (view w) p = None"
    and open_dir_ok: "os_open_dir S p w = (Inr d, w') \<Longrightarrow> v_dirpath (view w) p = Some d"
    and open_file_ok: "os_open_file S p w = (Inr x, w') \<Longrightarrow> plain_path p \<Longrightarrow>
      v_lookup (view w) p = Some y \<Longrightarrow> v_file (view w) y \<noteq> None \<Longrightarrow> x = y"
    and openat2_ok: "os_openat2 S d n fl rs w = (Inr x, w') \<Longrightarrow> entry_name n \<Longrightarrow> v_entry (view w) d n = Some x"
    and fstat_ok: "os_fstat S x w = (Inr s, w') \<Longrightarrow> st_dev s = dev_of x \<and> st_ino s = ino_of x \<and>
        (case v_file (view w) x of Some f \<Rightarrow> stat_of x f s | None \<Rightarrow> True)"
    and dup_ok: "os_dup S d w = (Inr x, w') \<Longrightarrow> x = d"
    and reads_ok: "os_reads S x w = (map Inr cs, w') \<Longrightarrow> v_file (view w) x = Some f \<Longrightarrow> concat cs = f_data f"
    and reads_bounded: "os_reads S x w = (rcs, w') \<Longrightarrow> Inr c' \<in> set rcs \<Longrightarrow> c' \<noteq> [] \<and> length c' \<le> 65536"
    and read_dir_ok: "os_read_dir S p w = (Inr (map Inr es), w') \<Longrightarrow>
      \<exists>d. v_dirpath (view w) p = Some d \<and> fst ` set es = dom (v_entry (view w) d)"
    and state_exists_ok: "os_state_exists S w = (True, w') \<Longrightarrow> v_state (view w) \<noteq> None"
    and state_len_ok: "os_state_len S w = (Inr sz, w') \<Longrightarrow> v_state (view w) = Some b' \<Longrightarrow> sz = word_of_nat (length b')"
    and state_read_ok: "os_state_read S k w = (Inr bs, w') \<Longrightarrow> v_state (view w) = Some b' \<Longrightarrow> bs = take k b'"
    \<comment> \<open>the calls that change something\<close>
    and rename_ok: "os_rename_noreplace S d n d' n' w = (Inr (), w') \<Longrightarrow> entry_name n \<Longrightarrow> entry_name n' \<Longrightarrow>
      \<exists>x dp. v_entry (view w) d n = Some x \<and> v_entry (view w) d' n' = None \<and>
        view w' = (move_entry d n d' n' (view w))\<lparr>v_dirpath := dp\<rparr> \<and>
        (v_file (view w) x \<noteq> None \<longrightarrow> dp = v_dirpath (view w))"
    and rename_err: "os_rename_noreplace S d n d' n' w = (Inl e, w') \<Longrightarrow> view w' = view w"
    and create_ok: "os_create_excl S d n md w = (Inr x, w') \<Longrightarrow> entry_name n \<Longrightarrow>
      v_entry (view w) d n = None \<and> v_file (view w) x = None \<and> (\<forall>e m. v_entry (view w) e m \<noteq> Some x) \<and>
      (\<exists>f. view w' = set_entry d n (Some x) (set_file x (Some f) (view w)))"
    and create_err: "os_create_excl S d n md w = (Inl e, w') \<Longrightarrow> view w' = view w"
    and write_changes: "os_write S x b' w = (u, w') \<Longrightarrow> v_file (view w) x = Some f \<Longrightarrow>
      \<exists>f'. view w' = set_file x (Some f') (view w)"
    and flush_changes: "os_flush S x w = (u, w') \<Longrightarrow> v_file (view w) x = Some f \<Longrightarrow>
      \<exists>f'. view w' = set_file x (Some f') (view w)"
    and fchmod_changes: "os_fchmod S x md w = (u, w') \<Longrightarrow> v_file (view w) x = Some f \<Longrightarrow>
      \<exists>f'. view w' = set_file x (Some f') (view w)"
    and futimens_changes: "os_futimens S x ta tm w = (u, w') \<Longrightarrow> v_file (view w) x = Some f \<Longrightarrow>
      \<exists>f'. view w' = set_file x (Some f') (view w)"
    and unlink_ok: "os_unlinkat S d n w = (Inr (), w') \<Longrightarrow> entry_name n \<Longrightarrow>
      \<exists>x fo dp. v_entry (view w) d n = Some x \<and>
        view w' = (set_entry d n None (set_file x fo (view w)))\<lparr>v_dirpath := dp\<rparr> \<and>
        (v_file (view w) x \<noteq> None \<longrightarrow> dp = v_dirpath (view w)) \<and>
        (\<forall>g. fo = Some g \<longrightarrow> map_option f_data (v_file (view w) x) = Some (f_data g)) \<and>
        (fo = None \<longrightarrow> v_file (view w) x \<noteq> None \<longrightarrow> (\<forall>e m. v_entry (view w) e m = Some x \<longrightarrow> e = d \<and> m = n))"
    and unlink_err: "os_unlinkat S d n w = (Inl e, w') \<Longrightarrow> view w' = view w"
    and rename_path: "os_rename_path S p p' w = (u, w') \<Longrightarrow> plain_path p \<Longrightarrow> plain_path p' \<Longrightarrow>
      (\<exists>e. u = Inl e \<and> view w' = view w) \<or>
      (\<exists>d n d' n'. v_resolve (view w) p = Some (d, n) \<and> v_resolve (view w) p' = Some (d', n') \<and>
        os_rename_noreplace S d n d' n' w = (u, w'))"
    and create_path: "os_create_path S p md w = (r', w') \<Longrightarrow> plain_path p \<Longrightarrow>
      (\<exists>e. r' = Inl e \<and> view w' = view w) \<or>
      (\<exists>d n. v_resolve (view w) p = Some (d, n) \<and> os_create_excl S d n md w = (r', w'))"
    and remove_path: "os_remove_path S p w = (u, w') \<Longrightarrow> plain_path p \<Longrightarrow>
      (\<exists>e. u = Inl e \<and> view w' = view w) \<or>
      (\<exists>d n. v_resolve (view w) p = Some (d, n) \<and> os_unlinkat S d n w = (u, w'))"
    and next_open_changes: "os_next_open S w = (u, w') \<Longrightarrow> \<exists>c. view w' = (view w)\<lparr>v_next := c\<rparr>"
    and next_write_ok: "os_next_write S b' w = (Inr (), w') \<Longrightarrow> view w' = (view w)\<lparr>v_next := Some b'\<rparr>"
    and next_write_err: "os_next_write S b' w = (Inl e, w') \<Longrightarrow> \<exists>c. view w' = (view w)\<lparr>v_next := c\<rparr>"
    and next_rename_ok: "os_next_rename S w = (Inr (), w') \<Longrightarrow>
      view w' = (view w)\<lparr>v_state := v_next (view w), v_next := None\<rparr>"
    and next_rename_err: "os_next_rename S w = (Inl e, w') \<Longrightarrow> view w' = view w"

end
