(* ===== verification/Journal.thy ===== *)
theory Journal
  imports World
begin

text \<open>
  The crate \<open>sortinghat-journal\<close>: the table of operations in SQLite, its states and their
  transitions, and the retention of finished entries. The table is the list of its rows in rowid
  order, with the columns at their SQL types; each SQL statement of the code is translated from
  its text. A statement first asks the world whether it fails (\<open>os_db\<close>); a failed statement has
  changed nothing, as SQLite rolls back a failed statement in autocommit mode.
\<close>

section \<open>States\<close>

definition MAX_ACTIVE :: int where "MAX_ACTIVE = 1000"

datatype jstate = Proposed | Approved | Copying | Published | SourceRemoved | Completed
  | Undoing | Undone | FailedSafely | NeedsAttention | Ignored

fun as_str :: "jstate \<Rightarrow> string" where
  "as_str Proposed = ''proposed''"
| "as_str Approved = ''approved''"
| "as_str Copying = ''copying''"
| "as_str Published = ''published''"
| "as_str SourceRemoved = ''source_removed''"
| "as_str Completed = ''completed''"
| "as_str Undoing = ''undoing''"
| "as_str Undone = ''undone''"
| "as_str FailedSafely = ''failed_safely''"
| "as_str NeedsAttention = ''needs_attention''"
| "as_str Ignored = ''ignored''"

datatype journal_error = Database db_error | JLimit | JNotFound | JRevisionConflict
  | InvalidTransition | CorruptState | Range

definition parse_state :: "string \<Rightarrow> journal_error + jstate" where
  "parse_state value =
    (if value = ''proposed'' then Inr Proposed
     else if value = ''approved'' then Inr Approved
     else if value = ''copying'' then Inr Copying
     else if value = ''published'' then Inr Published
     else if value = ''source_removed'' then Inr SourceRemoved
     else if value = ''completed'' then Inr Completed
     else if value = ''undoing'' then Inr Undoing
     else if value = ''undone'' then Inr Undone
     else if value = ''failed_safely'' then Inr FailedSafely
     else if value = ''needs_attention'' then Inr NeedsAttention
     else if value = ''ignored'' then Inr Ignored
     else Inl CorruptState)"

definition terminal :: "jstate \<Rightarrow> bool" where
  "terminal s \<longleftrightarrow> s \<in> {Completed, Undone, FailedSafely, Ignored}"

definition allowed :: "jstate \<Rightarrow> jstate \<Rightarrow> bool" where
  "allowed s t = (if t = NeedsAttention then \<not> terminal s
     else (s, t) \<in> {(Proposed, Approved), (Proposed, Ignored),
       (Approved, Copying), (Approved, Published), (Approved, FailedSafely),
       (Copying, Published), (Copying, FailedSafely),
       (Published, SourceRemoved), (Published, FailedSafely),
       (SourceRemoved, Completed), (Completed, Undoing),
       (Undoing, Undone), (Undoing, FailedSafely)})"

record entry =
  e_id :: uuid
  e_revision :: u64
  e_state :: jstate
  e_source_token :: bytes
  e_destination_token :: bytes
  e_size :: u64
  e_sha256 :: "string option"

section \<open>The table\<close>

record row =
  r_id :: string
  r_revision :: int
  r_state :: string
  r_source_token :: bytes
  r_destination_token :: bytes
  r_size :: int
  r_sha256 :: "string option"
  r_updated_at :: int

record 'w journal =
  j_rows :: "row list"
  j_path :: string
  j_world :: 'w

text \<open>The set in the \<open>WHERE\<close> clauses of the code: the names of the terminal states.\<close>

definition terminal_text :: "string \<Rightarrow> bool" where
  "terminal_text s \<longleftrightarrow> s \<in> {''completed'', ''undone'', ''failed_safely'', ''ignored''}"

text \<open>
  One statement: it fails as a whole, or it computes a result and a new table from the old one
  at the time \<open>unixepoch()\<close>; \<open>None\<close> is a violated constraint.
\<close>

definition sql :: "'w os \<Rightarrow> (int \<Rightarrow> row list \<Rightarrow> ('a \<times> row list) option) \<Rightarrow> ('w journal, journal_error, 'a) io" where
  "sql S stmt j = (case os_db S (j_world j) of
     (Some e, w) \<Rightarrow> (Inl (Database e), j\<lparr>j_world := w\<rparr>)
   | (None, w) \<Rightarrow> (case os_epoch S w of (now, w') \<Rightarrow>
       (case stmt now (j_rows j) of
          None \<Rightarrow> (Inl (Database (DbError 19)), j\<lparr>j_world := w'\<rparr>)
        | Some (x, rows) \<Rightarrow> (Inr x, j\<lparr>j_rows := rows, j_world := w'\<rparr>))))"

definition stmt_insert :: "row \<Rightarrow> int \<Rightarrow> row list \<Rightarrow> (unit \<times> row list) option" where
  "stmt_insert r now rows =
    (if \<exists>q \<in> set rows. r_id q = r_id r then None else Some ((), rows @ [r\<lparr>r_updated_at := now\<rparr>]))"

definition stmt_select :: "(row list \<Rightarrow> 'a) \<Rightarrow> int \<Rightarrow> row list \<Rightarrow> ('a \<times> row list) option" where
  "stmt_select f now rows = Some (f rows, rows)"

definition stmt_update :: "(row \<Rightarrow> bool) \<Rightarrow> (row \<Rightarrow> row) \<Rightarrow> int \<Rightarrow> row list \<Rightarrow> (nat \<times> row list) option" where
  "stmt_update p f now rows =
    Some (length (filter p rows), map (\<lambda>r. if p r then (f r)\<lparr>r_updated_at := now\<rparr> else r) rows)"

definition stmt_delete :: "(int \<Rightarrow> row list \<Rightarrow> row \<Rightarrow> bool) \<Rightarrow> int \<Rightarrow> row list \<Rightarrow> (nat \<times> row list) option" where
  "stmt_delete p now rows =
    Some (length (filter (p now rows) rows), filter (\<lambda>r. \<not> p now rows r) rows)"

section \<open>Operations\<close>

definition nonterminal_rows :: "row list \<Rightarrow> row list" where
  "nonterminal_rows rows = filter (\<lambda>r. \<not> terminal_text (r_state r)) rows"

definition active_count :: "'w os \<Rightarrow> ('w journal, journal_error, int) io" where
  "active_count S = sql S (stmt_select (\<lambda>rows. int (length (nonterminal_rows rows))))"

definition row_of_entry :: "libs \<Rightarrow> entry \<Rightarrow> int \<Rightarrow> int \<Rightarrow> row" where
  "row_of_entry L e revision len =
    \<lparr>r_id = lib_uuid_text L (e_id e), r_revision = revision, r_state = as_str (e_state e),
     r_source_token = e_source_token e, r_destination_token = e_destination_token e,
     r_size = len, r_sha256 = e_sha256 e, r_updated_at = 0\<rparr>"

definition create :: "libs \<Rightarrow> 'w os \<Rightarrow> entry \<Rightarrow> ('w journal, journal_error, unit) io" where
  "create L S e =
    and_then (active_count S) (\<lambda>n.
    and_then (fail_if (n \<ge> MAX_ACTIVE) JLimit) (\<lambda>_.
    and_then (fail_if (e_state e \<noteq> Proposed \<or> e_revision e \<noteq> 1) InvalidTransition) (\<lambda>_.
    and_then (lift_res (ok_or Range (i64_of_u64 (e_revision e)))) (\<lambda>revision.
    and_then (lift_res (ok_or Range (i64_of_u64 (e_size e)))) (\<lambda>len.
    sql S (stmt_insert (row_of_entry L e revision len)))))))"

definition entry_of_row :: "uuid \<Rightarrow> row \<Rightarrow> journal_error + entry" where
  "entry_of_row uid r =
    res_then (ok_or Range (u64_of_i64 (r_revision r))) (\<lambda>revision.
    res_then (parse_state (r_state r)) (\<lambda>state.
    res_then (ok_or Range (u64_of_i64 (r_size r))) (\<lambda>len.
    Inr \<lparr>e_id = uid, e_revision = revision, e_state = state, e_source_token = r_source_token r,
      e_destination_token = r_destination_token r, e_size = len, e_sha256 = r_sha256 r\<rparr>)))"

definition get_entry :: "libs \<Rightarrow> 'w os \<Rightarrow> uuid \<Rightarrow> ('w journal, journal_error, entry) io" where
  "get_entry L S uid =
    and_then (sql S (stmt_select (List.find (\<lambda>r. r_id r = lib_uuid_text L uid)))) (\<lambda>found.
    and_then (lift_res (ok_or JNotFound found)) (\<lambda>r.
    lift_res (entry_of_row uid r)))"

definition transition :: "libs \<Rightarrow> 'w os \<Rightarrow> uuid \<Rightarrow> u64 \<Rightarrow> jstate \<Rightarrow> ('w journal, journal_error, entry) io" where
  "transition L S uid revision next =
    and_then (get_entry L S uid) (\<lambda>current.
    and_then (fail_if (e_revision current \<noteq> revision) JRevisionConflict) (\<lambda>_.
    and_then (fail_if (\<not> allowed (e_state current) next) InvalidTransition) (\<lambda>_.
    and_then (lift_res (ok_or Range (checked_add_u64 revision 1))) (\<lambda>next_revision.
    and_then (lift_res (ok_or Range (i64_of_u64 revision))) (\<lambda>revision_sql.
    and_then (lift_res (ok_or Range (i64_of_u64 next_revision))) (\<lambda>next_revision_sql.
    and_then (sql S (stmt_update (\<lambda>r. r_id r = lib_uuid_text L uid \<and> r_revision r = revision_sql)
        (\<lambda>r. r\<lparr>r_state := as_str next, r_revision := next_revision_sql\<rparr>))) (\<lambda>changed.
    and_then (fail_if (changed \<noteq> 1) JRevisionConflict) (\<lambda>_.
    get_entry L S uid))))))))"

definition revise_proposal :: "libs \<Rightarrow> 'w os \<Rightarrow> uuid \<Rightarrow> u64 \<Rightarrow> bytes \<Rightarrow> ('w journal, journal_error, entry) io" where
  "revise_proposal L S uid revision destination_token =
    and_then (get_entry L S uid) (\<lambda>current.
    and_then (fail_if (e_revision current \<noteq> revision) JRevisionConflict) (\<lambda>_.
    and_then (fail_if (e_state current \<noteq> Proposed) InvalidTransition) (\<lambda>_.
    and_then (lift_res (ok_or Range (i64_of_u64 revision))) (\<lambda>revision_sql.
    and_then (lift_res (ok_or Range (checked_add_u64 revision 1))) (\<lambda>next.
    and_then (lift_res (ok_or Range (i64_of_u64 next))) (\<lambda>next_sql.
    and_then (sql S (stmt_update
        (\<lambda>r. r_id r = lib_uuid_text L uid \<and> r_revision r = revision_sql \<and> r_state r = ''proposed'')
        (\<lambda>r. r\<lparr>r_destination_token := destination_token, r_revision := next_sql\<rparr>))) (\<lambda>changed.
    and_then (fail_if (changed \<noteq> 1) JRevisionConflict) (\<lambda>_.
    get_entry L S uid))))))))"

definition set_sha256 :: "libs \<Rightarrow> 'w os \<Rightarrow> uuid \<Rightarrow> string \<Rightarrow> ('w journal, journal_error, unit) io" where
  "set_sha256 L S uid digest =
    and_then (fail_if (length digest \<noteq> 64 \<or> \<not> list_all is_ascii_hexdigit digest) CorruptState) (\<lambda>_.
    and_then (sql S (stmt_update (\<lambda>r. r_id r = lib_uuid_text L uid) (\<lambda>r. r\<lparr>r_sha256 := Some digest\<rparr>))) (\<lambda>changed.
    fail_if (changed \<noteq> 1) JNotFound))"

text \<open>\<open>ORDER BY updated_at, rowid\<close> is a stable sort of the rows in rowid order.\<close>

definition by_age :: "row list \<Rightarrow> row list" where
  "by_age rows = sort_key r_updated_at rows"

fun collect_entries :: "libs \<Rightarrow> 'w os \<Rightarrow> string list \<Rightarrow> ('w journal, journal_error, entry list) io" where
  "collect_entries L S [] = ok []"
| "collect_entries L S (t # ts) =
    and_then (lift_res (ok_or CorruptState (lib_uuid_parse L t))) (\<lambda>uid.
    and_then (get_entry L S uid) (\<lambda>e.
    and_then (collect_entries L S ts) (\<lambda>es. ok (e # es))))"

definition nonterminal_entries :: "libs \<Rightarrow> 'w os \<Rightarrow> ('w journal, journal_error, entry list) io" where
  "nonterminal_entries L S =
    and_then (sql S (stmt_select (\<lambda>rows. map r_id (take 1000 (by_age (nonterminal_rows rows)))))) (\<lambda>ids.
    collect_entries L S ids)"

text \<open>\<open>ORDER BY updated_at DESC, rowid DESC LIMIT -1 OFFSET retain\<close>: the terminal rows but the newest.\<close>

definition beyond_newest :: "int \<Rightarrow> row list \<Rightarrow> row list" where
  "beyond_newest retain rows = drop (nat retain) (rev (by_age (filter (\<lambda>r. terminal_text (r_state r)) rows)))"

definition prune_terminal :: "'w os \<Rightarrow> u64 \<Rightarrow> ('w journal, journal_error, nat) io" where
  "prune_terminal S retain =
    and_then (lift_res (ok_or Range (i64_of_u64 retain))) (\<lambda>retain_sql.
    sql S (stmt_delete (\<lambda>now rows r. r_id r \<in> set (map r_id (beyond_newest retain_sql rows)))))"

definition in_world :: "('w, 'e, 'a) io \<Rightarrow> ('w journal, 'e, 'a) io" where
  "in_world m j = (case m (j_world j) of (r, w) \<Rightarrow> (r, j\<lparr>j_world := w\<rparr>))"

fun journal_bytes :: "'w os \<Rightarrow> string list \<Rightarrow> u64 \<Rightarrow> ('w, journal_error, u64) io" where
  "journal_bytes S [] tot = ok tot"
| "journal_bytes S (p # ps) tot =
    and_then (try_result (os_file_len S p)) (\<lambda>r. case r of
      Inl NOENT \<Rightarrow> journal_bytes S ps tot
    | Inl e \<Rightarrow> err Range
    | Inr len \<Rightarrow> (case checked_add_u64 tot len of None \<Rightarrow> err Range | Some tot' \<Rightarrow> journal_bytes S ps tot'))"

definition enforce_retention :: "'w os \<Rightarrow> u64 \<Rightarrow> u64 \<Rightarrow> u64 \<Rightarrow> ('w journal, journal_error, nat) io" where
  "enforce_retention S retain max_age_seconds max_bytes =
    and_then (lift_res (ok_or Range (i64_of_u64 max_age_seconds))) (\<lambda>age.
    and_then (sql S (stmt_delete (\<lambda>now rows r. terminal_text (r_state r) \<and> r_updated_at r < now - age))) (\<lambda>aged.
    and_then (prune_terminal S retain) (\<lambda>pruned.
    and_then (sql S (stmt_select (\<lambda>_. ()))) (\<lambda>_.
    and_then (gets j_path) (\<lambda>path.
    and_then (in_world (journal_bytes S [path, to_string_lossy path @ ''-wal'', to_string_lossy path @ ''-shm''] 0)) (\<lambda>total_bytes.
    and_then (fail_if (total_bytes > max_bytes) JLimit) (\<lambda>_.
    ok (aged + pruned))))))))"

section \<open>States and their names\<close>

lemma parse_as_str [simp]: "parse_state (as_str s) = Inr s"
  by (cases s) (simp_all add: parse_state_def)

lemma parse_state_Inr: "parse_state t = Inr s \<longleftrightarrow> t = as_str s"
proof
  assume "parse_state t = Inr s"
  then show "t = as_str s"
    unfolding parse_state_def by (auto split: if_splits)
qed simp

lemma as_str_inject [simp]: "as_str s = as_str t \<longleftrightarrow> s = t"
  by (metis parse_as_str sum.inject(2))

lemma terminal_text_as_str [simp]: "terminal_text (as_str s) = terminal s"
  by (cases s) (simp_all add: terminal_text_def terminal_def)

text \<open>A terminal state is left only for an undo; nothing leaves \<open>NeedsAttention\<close> but itself.\<close>

lemma allowed_terminal: "terminal s \<Longrightarrow> allowed s t \<longleftrightarrow> s = Completed \<and> t = Undoing"
  by (cases s; cases t) (simp_all add: terminal_def allowed_def)

end
