(* ===== verification/Journal_Laws.thy ===== *)
theory Journal_Laws
  imports Journal
begin

text \<open>
  The journal as a finite map from operation ids to entries: the table's invariant, the
  abstract operations on the map, and the proof that the SQL code implements them, with a
  database failure leaving the map as it was or, in the re-read after a committed update,
  exactly updated.
\<close>

section \<open>The invariant of the table and the map it stands for\<close>

definition row_ok :: "libs \<Rightarrow> row \<Rightarrow> bool" where
  "row_ok L r \<longleftrightarrow> (\<exists>u. r_id r = lib_uuid_text L u) \<and> 1 \<le> r_revision r \<and> r_revision r < 2 ^ 63 \<and>
     r_state r \<in> range as_str \<and> 0 \<le> r_size r \<and> r_size r < 2 ^ 63 \<and>
     (\<forall>h. r_sha256 r = Some h \<longrightarrow> length h = 64 \<and> list_all is_ascii_hexdigit h)"

definition rows_ok :: "libs \<Rightarrow> row list \<Rightarrow> bool" where
  "rows_ok L rows \<longleftrightarrow> distinct (map r_id rows) \<and> (\<forall>r \<in> set rows. row_ok L r)"

type_synonym entries = "uuid \<Rightarrow> entry option"

definition entries_of :: "libs \<Rightarrow> row list \<Rightarrow> entries" where
  "entries_of L rows u = (case List.find (\<lambda>r. r_id r = lib_uuid_text L u) rows of None \<Rightarrow> None
     | Some r \<Rightarrow> res_ok (entry_of_row u r))"

lemma entry_of_row_ok:
  assumes "row_ok L r"
  shows "\<exists>s. r_state r = as_str s \<and> entry_of_row u r = Inr \<lparr>e_id = u, e_revision = word_of_int (r_revision r),
    e_state = s, e_source_token = r_source_token r, e_destination_token = r_destination_token r,
    e_size = word_of_int (r_size r), e_sha256 = r_sha256 r\<rparr>"
  using assms by (auto simp: row_ok_def entry_of_row_def u64_of_i64_def)

lemma entries_of_find:
  assumes "rows_ok L rows"
  shows "entries_of L rows u = map_option (\<lambda>r. the (res_ok (entry_of_row u r)))
    (List.find (\<lambda>r. r_id r = lib_uuid_text L u) rows)"
proof (cases "List.find (\<lambda>r. r_id r = lib_uuid_text L u) rows")
  case (Some r)
  then have "row_ok L r" using assms find_Some_set by (fastforce simp: rows_ok_def)
  from entry_of_row_ok [OF this, of u] obtain e where "entry_of_row u r = Inr e" by blast
  with Some show ?thesis by (simp add: entries_of_def)
qed (simp add: entries_of_def)

section \<open>Statements\<close>

lemma sql_Inr:
  "sql S stmt j = (Inr x, j') \<Longrightarrow>
     \<exists>now rows w. stmt now (j_rows j) = Some (x, rows) \<and> j' = j\<lparr>j_rows := rows, j_world := w\<rparr>"
  unfolding sql_def by (auto split: prod.splits option.splits)

lemma sql_Inl: "sql S stmt j = (Inl e, j') \<Longrightarrow> \<exists>w d. j' = j\<lparr>j_world := w\<rparr> \<and> e = Database d"
  unfolding sql_def by (auto split: prod.splits option.splits)

lemma sql_select:
  "sql S (stmt_select f) j = (Inr x, j') \<Longrightarrow> x = f (j_rows j) \<and> j_rows j' = j_rows j \<and> j_path j' = j_path j"
  by (drule sql_Inr) (auto simp: stmt_select_def)

lemma sql_rows_err: "sql S stmt j = (Inl e, j') \<Longrightarrow> j_rows j' = j_rows j \<and> (\<exists>d. e = Database d)"
  by (drule sql_Inl) auto

lemma sql_update:
  "sql S (stmt_update p f) j = (Inr n, j') \<Longrightarrow> \<exists>now. n = length (filter p (j_rows j)) \<and>
     j_rows j' = map (\<lambda>r. if p r then (f r)\<lparr>r_updated_at := now\<rparr> else r) (j_rows j)"
  by (drule sql_Inr) (auto simp: stmt_update_def)

lemma distinct_find_filter:
  assumes "distinct (map k rows)" and "List.find (\<lambda>r. k r = t) rows = Some r"
  shows "filter (\<lambda>r. k r = t) rows = [r]"
  using assms
proof (induction rows)
  case (Cons q rows)
  show ?case
  proof (cases "k q = t")
    case True
    then have "t \<notin> k ` set rows" using Cons.prems(1) by simp
    then have "filter (\<lambda>r. k r = t) rows = []" unfolding filter_empty_conv by blast
    with True Cons.prems(2) show ?thesis by simp
  qed (use Cons in auto)
qed simp

lemma update_one:
  assumes "distinct (map r_id rows)" and "List.find (\<lambda>r. r_id r = t) rows = Some r" and "p r"
  shows "length (filter (\<lambda>r. r_id r = t \<and> p r) rows) = 1"
proof -
  have "filter (\<lambda>r. r_id r = t \<and> p r) rows = filter p (filter (\<lambda>r. r_id r = t) rows)"
    by (simp add: conj_commute)
  also have "\<dots> = [r]" using distinct_find_filter [OF assms(1,2)] assms(3) by simp
  finally show ?thesis by simp
qed

lemma find_update:
  assumes "\<And>r. r_id (g r) = r_id r"
  shows "List.find (\<lambda>r. r_id r = t) (map g rows) = map_option g (List.find (\<lambda>r. r_id r = t) rows)"
  using assms by (induction rows) auto

lemma rows_ok_update:
  assumes "rows_ok L rows" and "\<And>r. r_id (g r) = r_id r" and "\<And>r. r \<in> set rows \<Longrightarrow> row_ok L r \<Longrightarrow> row_ok L (g r)"
  shows "rows_ok L (map g rows)"
proof -
  have "map r_id (map g rows) = map r_id rows" using assms(2) by simp
  then have "distinct (map r_id (map g rows))" using assms(1) by (simp only: rows_ok_def)
  then show ?thesis using assms(1,3) by (auto simp: rows_ok_def)
qed

lemma rows_ok_filter: "rows_ok L rows \<Longrightarrow> rows_ok L (filter p rows)"
  by (auto simp: rows_ok_def distinct_map_filter)

lemma rows_ok_stamp: "row_ok L r \<Longrightarrow> row_ok L (r\<lparr>r_updated_at := t\<rparr>)"
  by (simp add: row_ok_def)

lemma get_entry_spec:
  assumes "rows_ok L (j_rows j)" and "get_entry L S u j = (r, j')"
  shows "j_rows j' = j_rows j"
    and "(\<exists>d. r = Inl (Database d)) \<or> r = ok_or JNotFound (entries_of L (j_rows j) u)"
proof -
  let ?f = "List.find (\<lambda>r. r_id r = lib_uuid_text L u)"
  have "j_rows j' = j_rows j \<and> ((\<exists>d. r = Inl (Database d)) \<or> r = ok_or JNotFound (entries_of L (j_rows j) u))"
  proof (cases "sql S (stmt_select ?f) j")
    case (Pair q j1)
    show ?thesis
    proof (cases q)
      case (Inl e)
      with Pair assms(2) sql_rows_err [of S "stmt_select ?f" j e j1] show ?thesis
        by (auto simp: get_entry_def and_then_def)
    next
      case (Inr x)
      with Pair sql_select [of S ?f j x j1] have x: "x = ?f (j_rows j)" "j_rows j1 = j_rows j" by auto
      show ?thesis
      proof (cases x)
        case None
        with x have "entries_of L (j_rows j) u = None" by (simp add: entries_of_def)
        with assms(2) Pair Inr x None show ?thesis by (auto simp: get_entry_def and_then_def)
      next
        case (Some row)
        then have "row_ok L row" using assms(1) x find_Some_set [of _ "j_rows j" row] by (auto simp: rows_ok_def)
        from entry_of_row_ok [OF this, of u] obtain e where e: "entry_of_row u row = Inr e" by blast
        have "?f (j_rows j) = Some row" using x(1) Some by simp
        with e have "entries_of L (j_rows j) u = Some e" by (simp add: entries_of_def)
        have "get_entry L S u j = (Inr e, j1)" by (simp add: get_entry_def and_then_def Pair Inr Some e)
        with assms(2) x \<open>entries_of L (j_rows j) u = Some e\<close> show ?thesis by simp
      qed
    qed
  qed
  then show "j_rows j' = j_rows j"
    and "(\<exists>d. r = Inl (Database d)) \<or> r = ok_or JNotFound (entries_of L (j_rows j) u)" by auto
qed

section \<open>The abstract operations\<close>

definition spec_get :: "uuid \<Rightarrow> entries \<Rightarrow> journal_error + entry \<times> entries" where
  "spec_get u A = (case A u of None \<Rightarrow> Inl JNotFound | Some e \<Rightarrow> Inr (e, A))"

definition advance :: "u64 \<Rightarrow> (entry \<Rightarrow> entry) \<Rightarrow> entry \<Rightarrow> entries \<Rightarrow> journal_error + entry \<times> entries" where
  "advance revision f e A = (if uint revision + 1 < 2 ^ 63
     then Inr ((f e)\<lparr>e_revision := revision + 1\<rparr>, A(e_id e \<mapsto> (f e)\<lparr>e_revision := revision + 1\<rparr>))
     else Inl Range)"

definition spec_transition :: "uuid \<Rightarrow> u64 \<Rightarrow> jstate \<Rightarrow> entries \<Rightarrow> journal_error + entry \<times> entries" where
  "spec_transition u revision next A = (case A u of None \<Rightarrow> Inl JNotFound | Some e \<Rightarrow>
     if e_revision e \<noteq> revision then Inl JRevisionConflict
     else if \<not> allowed (e_state e) next then Inl InvalidTransition
     else advance revision (e_state_update (\<lambda>_. next)) e A)"

definition spec_revise :: "uuid \<Rightarrow> u64 \<Rightarrow> bytes \<Rightarrow> entries \<Rightarrow> journal_error + entry \<times> entries" where
  "spec_revise u revision token A = (case A u of None \<Rightarrow> Inl JNotFound | Some e \<Rightarrow>
     if e_revision e \<noteq> revision then Inl JRevisionConflict
     else if e_state e \<noteq> Proposed then Inl InvalidTransition
     else advance revision (e_destination_token_update (\<lambda>_. token)) e A)"

definition spec_set_sha256 :: "uuid \<Rightarrow> string \<Rightarrow> entries \<Rightarrow> journal_error + unit \<times> entries" where
  "spec_set_sha256 u h A =
    (if length h \<noteq> 64 \<or> \<not> list_all is_ascii_hexdigit h then Inl CorruptState
     else case A u of None \<Rightarrow> Inl JNotFound | Some e \<Rightarrow> Inr ((), A(u \<mapsto> e\<lparr>e_sha256 := Some h\<rparr>)))"

definition active_ids :: "entries \<Rightarrow> uuid set" where
  "active_ids A = {u. \<exists>e. A u = Some e \<and> \<not> terminal (e_state e)}"

definition spec_create :: "entry \<Rightarrow> entries \<Rightarrow> journal_error + unit \<times> entries" where
  "spec_create e A =
    (if int (card (active_ids A)) \<ge> MAX_ACTIVE then Inl JLimit
     else if e_state e \<noteq> Proposed \<or> e_revision e \<noteq> 1 then Inl InvalidTransition
     else if uint (e_size e) \<ge> 2 ^ 63 then Inl Range
     else if A (e_id e) \<noteq> None then Inl (Database (DbError 19))
     else Inr ((), A(e_id e \<mapsto> e)))"

text \<open>
  \<open>implements L spec m\<close>: on a well-formed table, \<open>m\<close> keeps it well-formed and does to the map
  what \<open>spec\<close> says, or reports a database failure with the map as before or as \<open>spec\<close> says.
\<close>

definition outcome :: "libs \<Rightarrow> journal_error + 'a \<times> entries \<Rightarrow> 'w journal \<Rightarrow> journal_error + 'a \<Rightarrow> 'w journal \<Rightarrow> bool" where
  "outcome L result j r j' \<longleftrightarrow> rows_ok L (j_rows j') \<and>
     (case result of
        Inl e \<Rightarrow> entries_of L (j_rows j') = entries_of L (j_rows j) \<and> (r = Inl e \<or> (\<exists>d. r = Inl (Database d)))
      | Inr (x, B) \<Rightarrow> (r = Inr x \<and> entries_of L (j_rows j') = B) \<or>
          (\<exists>d. r = Inl (Database d)) \<and>
          (entries_of L (j_rows j') = entries_of L (j_rows j) \<or> entries_of L (j_rows j') = B))"

definition implements :: "libs \<Rightarrow> (entries \<Rightarrow> journal_error + 'a \<times> entries) \<Rightarrow> ('w journal, journal_error, 'a) io \<Rightarrow> bool" where
  "implements L spec m \<longleftrightarrow> (\<forall>j r j'. rows_ok L (j_rows j) \<longrightarrow> m j = (r, j') \<longrightarrow>
     outcome L (spec (entries_of L (j_rows j))) j r j')"

lemma implementsI:
  "(\<And>j r j'. rows_ok L (j_rows j) \<Longrightarrow> m j = (r, j') \<Longrightarrow> outcome L (spec (entries_of L (j_rows j))) j r j') \<Longrightarrow>
     implements L spec m"
  unfolding implements_def by blast

lemma implementsD:
  "implements L spec m \<Longrightarrow> rows_ok L (j_rows j) \<Longrightarrow> m j = (r, j') \<Longrightarrow> outcome L (spec (entries_of L (j_rows j))) j r j'"
  unfolding implements_def by blast

lemma entries_of_id: "entries_of L rows u = Some e \<Longrightarrow> e_id e = u"
  by (auto simp: entries_of_def entry_of_row_def res_then_Inr_iff split: option.splits)

lemma entry_of_row_stamp [simp]: "entry_of_row u (r\<lparr>r_updated_at := t\<rparr>) = entry_of_row u r"
  by (simp add: entry_of_row_def)

lemma entry_of_row_revision:
  "entry_of_row u r = Inr e \<Longrightarrow> u64_of_i64 n = Some k \<Longrightarrow>
     entry_of_row u (r\<lparr>r_revision := n\<rparr>) = Inr (e\<lparr>e_revision := k\<rparr>)"
  by (auto simp: entry_of_row_def res_then_Inr_iff)

context libs_ok
begin

lemma entries_of_update:
  assumes ok: "rows_ok L rows" and r: "List.find (\<lambda>r. r_id r = lib_uuid_text L u) rows = Some r" and "p r"
    and f: "\<And>r. r_id (f r) = r_id r"
  shows "entries_of L (map (\<lambda>r. if r_id r = lib_uuid_text L u \<and> p r then (f r)\<lparr>r_updated_at := now\<rparr> else r) rows)
    = (entries_of L rows)(u := res_ok (entry_of_row u (f r)))" (is "entries_of L (map ?g rows) = _")
proof
  fix v
  have g: "r_id (?g r) = r_id r" for r using f by simp
  have find: "List.find (\<lambda>r. r_id r = lib_uuid_text L v) (map ?g rows)
      = map_option ?g (List.find (\<lambda>r. r_id r = lib_uuid_text L v) rows)"
    by (rule find_update) (rule g)
  show "entries_of L (map ?g rows) v = ((entries_of L rows)(u := res_ok (entry_of_row u (f r)))) v"
  proof (cases "v = u")
    case True
    have "r_id r = lib_uuid_text L u" using find_Some_set [OF r] by simp
    then have "?g r = (f r)\<lparr>r_updated_at := now\<rparr>" using assms(3) by simp
    then have "entries_of L (map ?g rows) u = res_ok (entry_of_row u ((f r)\<lparr>r_updated_at := now\<rparr>))"
      using find r unfolding True by (simp only: entries_of_def option.map option.case)
    with True show ?thesis by simp
  next
    case False
    show ?thesis
    proof (cases "List.find (\<lambda>r. r_id r = lib_uuid_text L v) rows")
      case (Some q)
      then have "r_id q = lib_uuid_text L v" using find_Some_set [OF Some] by simp
      then have "?g q = q" using False uuid_text_inj by simp
      then have "entries_of L (map ?g rows) v = entries_of L rows v"
        using find unfolding Some by (simp only: entries_of_def option.map option.case Some)
      with False show ?thesis by simp
    next
      case None
      then have "entries_of L (map ?g rows) v = entries_of L rows v"
        using find by (simp only: entries_of_def option.map option.case)
      with False show ?thesis by simp
    qed
  qed
qed

lemma get_entry_implements: "implements L (spec_get u) (get_entry L S u)"
  proof (rule implementsI)
  fix j r j' assume ok: "rows_ok L (j_rows j)" and m: "get_entry L S u j = (r, j')"
  show "outcome L (spec_get u (entries_of L (j_rows j))) j r j'"
    using get_entry_spec [OF ok m] ok by (auto simp: spec_get_def outcome_def split: option.splits)
qed

lemma row_ok_found:
  assumes "rows_ok L rows" and "List.find (\<lambda>r. r_id r = t) rows = Some r"
  shows "row_ok L r" and "r_id r = t" and "r \<in> set rows"
  using find_Some_set [OF assms(2)] assms(1) by (auto simp: rows_ok_def)

lemma found_entry:
  assumes "rows_ok L rows" and "entries_of L rows u = Some e"
  obtains r where "List.find (\<lambda>r. r_id r = lib_uuid_text L u) rows = Some r" and "row_ok L r"
    and "entry_of_row u r = Inr e" and "r_id r = lib_uuid_text L u"
    and "e_revision e = word_of_int (r_revision r)" and "r_state r = as_str (e_state e)"
    and "uint (e_revision e) = r_revision r"
proof -
  from assms obtain r where r: "List.find (\<lambda>r. r_id r = lib_uuid_text L u) rows = Some r"
    and e: "entry_of_row u r = Inr e"
    by (auto simp: entries_of_def split: option.splits)
  note ok = row_ok_found [OF assms(1) r]
  from entry_of_row_ok [OF ok(1), of u] e have "e_revision e = word_of_int (r_revision r)"
    "r_state r = as_str (e_state e)" by auto
  moreover have "uint (e_revision e) = r_revision r"
    using calculation(1) ok(1) by (simp add: row_ok_def uint_word_of_int)
  ultimately show thesis using that r ok e by blast
qed

text \<open>The two updates guarded by the revision share one shape.\<close>

lemma guarded_update:
  assumes ok: "rows_ok L (j_rows j)" and e: "entries_of L (j_rows j) u = Some e"
    and rev: "i64_of_u64 (e_revision e) = Some rv" and nrev: "checked_add_u64 (e_revision e) 1 = Some nr"
    and nrv: "i64_of_u64 nr = Some nrv"
    and p: "\<And>r. entry_of_row u r = Inr e \<Longrightarrow> r_state r = as_str (e_state e) \<Longrightarrow> p r"
    and f: "\<And>r. r_id (f r) = r_id r" "\<And>r. row_ok L r \<Longrightarrow> row_ok L (f r)"
      "\<And>r. r_revision (f r) = r_revision r" "\<And>r. entry_of_row u r = Inr e \<Longrightarrow> entry_of_row u (f r) = Inr (g e)"
    and m: "sql S (stmt_update (\<lambda>r. r_id r = lib_uuid_text L u \<and> r_revision r = rv \<and> p r)
      (\<lambda>r. (f r)\<lparr>r_revision := nrv\<rparr>)) j = (Inr n, j')"
  shows "n = 1" and "rows_ok L (j_rows j')"
    and "entries_of L (j_rows j') = (entries_of L (j_rows j))(u \<mapsto> (g e)\<lparr>e_revision := nr\<rparr>)"
proof -
  obtain r where r: "List.find (\<lambda>r. r_id r = lib_uuid_text L u) (j_rows j) = Some r" "row_ok L r"
    "entry_of_row u r = Inr e" "r_id r = lib_uuid_text L u" "r_state r = as_str (e_state e)"
    "uint (e_revision e) = r_revision r"
    using found_entry [OF ok e] by metis
  have rv: "r_revision r = rv" using rev r(6) by (simp add: i64_of_u64_Some)
  have nrv': "nrv = rv + 1" and lim: "nrv < 2 ^ 63"
  proof -
    have "uint nr = uint (e_revision e) + 1"
      using checked_add_u64_uint [OF nrev] by simp
    then show "nrv = rv + 1" "nrv < 2 ^ 63" using nrv rev by (simp_all add: i64_of_u64_Some)
  qed
  let ?p = "\<lambda>r. r_revision r = rv \<and> p r"
  have "?p r" using rv p r(3,5) by simp
  from sql_update [OF m] obtain now where n: "n = length (filter (\<lambda>r. r_id r = lib_uuid_text L u \<and> ?p r) (j_rows j))"
    and rows: "j_rows j' = map (\<lambda>r. if r_id r = lib_uuid_text L u \<and> ?p r
      then ((f r)\<lparr>r_revision := nrv\<rparr>)\<lparr>r_updated_at := now\<rparr> else r) (j_rows j)"
    by blast
  show "n = 1" unfolding n using update_one [of "j_rows j" "lib_uuid_text L u" r ?p] ok r(1) \<open>?p r\<close>
    by (simp add: rows_ok_def)
  have keep: "row_ok L ((f r)\<lparr>r_revision := nrv\<rparr>)" if "row_ok L r" "r_revision r = rv" for r
    using f(2) [OF that(1)] that lim nrv' by (auto simp: row_ok_def)
  show "rows_ok L (j_rows j')" unfolding rows
    by (rule rows_ok_update [OF ok]) (use f(1) keep in \<open>auto simp: rows_ok_stamp\<close>)
  have "entry_of_row u ((f r)\<lparr>r_revision := nrv\<rparr>) = Inr ((g e)\<lparr>e_revision := nr\<rparr>)"
  proof -
    have "u64_of_i64 nrv = Some nr" using i64_u64_roundtrip [OF nrv] .
    moreover have "entry_of_row u (f r) = Inr (g e)" using f(4) r(3) by simp
    ultimately show ?thesis by (intro entry_of_row_revision)
  qed
  then show "entries_of L (j_rows j') = (entries_of L (j_rows j))(u \<mapsto> (g e)\<lparr>e_revision := nr\<rparr>)"
    unfolding rows using entries_of_update [of "j_rows j" u r ?p "\<lambda>r. (f r)\<lparr>r_revision := nrv\<rparr>" now] ok r(1) \<open>?p r\<close> f(1)
    by simp
qed

text \<open>The revision and its successor as SQL integers; both orders of the conversions agree.\<close>

definition sql_revisions :: "u64 \<Rightarrow> journal_error + int \<times> int" where
  "sql_revisions revision = (if uint revision + 1 < 2 ^ 63 then Inr (uint revision, uint revision + 1) else Inl Range)"

lemma next_revision:
  assumes "uint revision + 1 < 2 ^ 63"
  shows "checked_add_u64 revision 1 = Some (revision + 1)" and "i64_of_u64 revision = Some (uint revision)"
    and "i64_of_u64 (revision + 1) = Some (uint revision + 1)"
proof -
  have "int (unat revision + 1) < int (2 ^ 63)" using assms by simp
  then have n: "unat revision + 1 < 2 ^ 63" by (simp only: of_nat_less_iff)
  then show c: "checked_add_u64 revision 1 = Some (revision + 1)" by (simp add: checked_add_u64_def)
  show "i64_of_u64 revision = Some (uint revision)" using assms by (simp add: i64_of_u64_def)
  have "uint (revision + 1) = uint revision + 1"
    using checked_add_u64_uint [OF c] by simp
  with assms show "i64_of_u64 (revision + 1) = Some (uint revision + 1)" by (simp add: i64_of_u64_def)
qed

lemma no_next_revision:
  assumes "\<not> uint revision + 1 < 2 ^ 63" and "i64_of_u64 revision \<noteq> None" and "checked_add_u64 revision 1 = Some nr"
  shows "i64_of_u64 nr = None"
proof -
  have "uint nr = uint revision + 1"
    using checked_add_u64_uint [OF assms(3)] by simp
  with assms(1) show ?thesis by (simp add: i64_of_u64_def)
qed

lemma conversions:
  "and_then (lift_res (ok_or Range (checked_add_u64 revision 1))) (\<lambda>nr.
   and_then (lift_res (ok_or Range (i64_of_u64 revision))) (\<lambda>rv.
   and_then (lift_res (ok_or Range (i64_of_u64 nr))) (\<lambda>nrv. k rv nrv)))
   = and_then (lift_res (sql_revisions revision)) (\<lambda>(rv, nrv). k rv nrv)" (is "?a = ?c")
  "and_then (lift_res (ok_or Range (i64_of_u64 revision))) (\<lambda>rv.
   and_then (lift_res (ok_or Range (checked_add_u64 revision 1))) (\<lambda>nr.
   and_then (lift_res (ok_or Range (i64_of_u64 nr))) (\<lambda>nrv. k rv nrv)))
   = and_then (lift_res (sql_revisions revision)) (\<lambda>(rv, nrv). k rv nrv)" (is "?b = _")
proof -
  have "?a = ?c \<and> ?b = ?c"
  proof (cases "uint revision + 1 < 2 ^ 63")
    case True
    then show ?thesis using next_revision [OF True] by (simp add: sql_revisions_def and_then_def fun_eq_iff)
  next
    case False
    then have "?c = err Range" by (simp add: sql_revisions_def and_then_def fun_eq_iff)
    moreover have "i64_of_u64 nr = None" if "i64_of_u64 revision = Some rv" "checked_add_u64 revision 1 = Some nr" for rv nr
      using no_next_revision [OF False _ that(2)] that(1) by simp
    then have "?a = err Range" "?b = err Range"
      by (cases "i64_of_u64 revision"; cases "checked_add_u64 revision 1"; simp add: and_then_def fun_eq_iff)+
    ultimately show ?thesis by simp
  qed
  then show "?a = ?c" and "?b = ?c" by simp_all
qed

text \<open>The end of both guarded operations: the update, then the re-read.\<close>

lemma update_and_reread:
  assumes f: "\<And>r. r_id (f r) = r_id r" "\<And>r. row_ok L r \<Longrightarrow> row_ok L (f r)"
      "\<And>r. r_revision (f r) = r_revision r" "\<And>r. entry_of_row u r = Inr e \<Longrightarrow> entry_of_row u (f r) = Inr (g e)"
    and p: "\<And>r. r_state r = as_str (e_state e) \<Longrightarrow> p r"
    and ok: "rows_ok L (j_rows j)" and e: "entries_of L (j_rows j) u = Some e"
    and revision: "e_revision e = revision" "uint revision + 1 < 2 ^ 63"
    and m: "and_then (sql S (stmt_update (\<lambda>r. r_id r = lib_uuid_text L u \<and> r_revision r = uint revision \<and> p r)
          (\<lambda>r. (f r)\<lparr>r_revision := uint revision + 1\<rparr>))) (\<lambda>changed.
        and_then (fail_if (changed \<noteq> 1) JRevisionConflict) (\<lambda>_. get_entry L S u)) j = (r, j')"
  shows "rows_ok L (j_rows j') \<and>
    (let B = (entries_of L (j_rows j))(u \<mapsto> (g e)\<lparr>e_revision := revision + 1\<rparr>) in
     r = Inr ((g e)\<lparr>e_revision := revision + 1\<rparr>) \<and> entries_of L (j_rows j') = B \<or>
     (\<exists>d. r = Inl (Database d)) \<and> (entries_of L (j_rows j') = entries_of L (j_rows j) \<or> entries_of L (j_rows j') = B))"
proof -
  let ?upd = "sql S (stmt_update (\<lambda>r. r_id r = lib_uuid_text L u \<and> r_revision r = uint revision \<and> p r)
      (\<lambda>r. (f r)\<lparr>r_revision := uint revision + 1\<rparr>))"
  obtain x j2 where x: "?upd j = (x, j2)" by fastforce
  show ?thesis
  proof (cases x)
    case (Inl d)
    with x sql_rows_err [of S _ j d j2] have "j_rows j2 = j_rows j" "\<exists>d'. d = Database d'" by auto
    moreover have "r = Inl d" "j' = j2" using m x Inl by (auto simp: and_then_def)
    ultimately show ?thesis using ok by auto
  next
    case (Inr n)
    have rev: "checked_add_u64 (e_revision e) 1 = Some (revision + 1)" "i64_of_u64 (e_revision e) = Some (uint revision)"
      "i64_of_u64 (revision + 1) = Some (uint revision + 1)"
      using revision next_revision by auto
    note gu = guarded_update [where g = g, OF ok e rev(2,1,3) p f x [unfolded Inr]]
    have g: "get_entry L S u j2 = (r, j')" using m x Inr gu(1) by (simp add: and_then_def fail_if_def)
    from get_entry_spec [OF gu(2) g] gu(2,3) show ?thesis by (auto simp: Let_def)
  qed
qed

text \<open>Both guarded operations: the guards in order, the update, the re-read.\<close>

lemma guarded_implements:
  assumes f: "\<And>r. r_id (f r) = r_id r" "\<And>r. row_ok L r \<Longrightarrow> row_ok L (f r)"
      "\<And>r. r_revision (f r) = r_revision r"
      "\<And>r e. entry_of_row u r = Inr e \<Longrightarrow> entry_of_row u (f r) = Inr (g e)"
    and gid: "\<And>e. e_id (g e) = e_id e"
    and p: "\<And>r e. guard e \<Longrightarrow> r_state r = as_str (e_state e) \<Longrightarrow> p r"
    and ok: "rows_ok L (j_rows j)"
    and m: "and_then (get_entry L S u) (\<lambda>current.
      and_then (fail_if (e_revision current \<noteq> revision) JRevisionConflict) (\<lambda>_.
      and_then (fail_if (\<not> guard current) InvalidTransition) (\<lambda>_.
      and_then (lift_res (sql_revisions revision)) (\<lambda>(rv, nrv).
      and_then (sql S (stmt_update (\<lambda>r. r_id r = lib_uuid_text L u \<and> r_revision r = rv \<and> p r)
          (\<lambda>r. (f r)\<lparr>r_revision := nrv\<rparr>))) (\<lambda>changed.
      and_then (fail_if (changed \<noteq> 1) JRevisionConflict) (\<lambda>_.
      get_entry L S u)))))) j = (r, j')"
  shows "outcome L ((case entries_of L (j_rows j) u of None \<Rightarrow> Inl JNotFound | Some e \<Rightarrow>
       if e_revision e \<noteq> revision then Inl JRevisionConflict
       else if \<not> guard e then Inl InvalidTransition
       else advance revision g e (entries_of L (j_rows j)))) j r j'"
proof -
  obtain q j1 where q: "get_entry L S u j = (q, j1)" by fastforce
  from get_entry_spec [OF ok q] have j1: "j_rows j1 = j_rows j"
    and qs: "(\<exists>d. q = Inl (Database d)) \<or> q = ok_or JNotFound (entries_of L (j_rows j) u)" by auto
  show ?thesis
  proof (cases q)
    case (Inl e)
    with m q have "r = Inl e" "j' = j1" by (auto simp: and_then_def)
    with j1 ok qs Inl show ?thesis
      by (cases "entries_of L (j_rows j) u") (auto simp: outcome_def split: sum.splits)
  next
    case (Inr e)
    with qs have e: "entries_of L (j_rows j) u = Some e" by (cases "entries_of L (j_rows j) u") auto
    have eid: "e_id e = u" using entries_of_id [OF e] .
    let ?A = "entries_of L (j_rows j)"
    have m1: "and_then (fail_if (e_revision e \<noteq> revision) JRevisionConflict) (\<lambda>_.
      and_then (fail_if (\<not> guard e) InvalidTransition) (\<lambda>_.
      and_then (lift_res (sql_revisions revision)) (\<lambda>(rv, nrv).
      and_then (sql S (stmt_update (\<lambda>r. r_id r = lib_uuid_text L u \<and> r_revision r = rv \<and> p r)
          (\<lambda>r. (f r)\<lparr>r_revision := nrv\<rparr>))) (\<lambda>changed.
      and_then (fail_if (changed \<noteq> 1) JRevisionConflict) (\<lambda>_.
      get_entry L S u))))) j1 = (r, j')"
      using m q Inr by (simp add: and_then_def)
    consider "e_revision e \<noteq> revision" | "e_revision e = revision" "\<not> guard e"
      | "e_revision e = revision" "guard e" "\<not> uint revision + 1 < 2 ^ 63"
      | "e_revision e = revision" "guard e" "uint revision + 1 < 2 ^ 63" by blast
    then show ?thesis
    proof cases
      case 4
      let ?B = "?A(u \<mapsto> (g e)\<lparr>e_revision := revision + 1\<rparr>)"
      have spec: "advance revision g e ?A = Inr ((g e)\<lparr>e_revision := revision + 1\<rparr>, ?B)"
        using 4 eid by (simp add: advance_def)
      have m2: "and_then (sql S (stmt_update (\<lambda>r. r_id r = lib_uuid_text L u \<and> r_revision r = uint revision \<and> p r)
          (\<lambda>r. (f r)\<lparr>r_revision := uint revision + 1\<rparr>))) (\<lambda>changed.
        and_then (fail_if (changed \<noteq> 1) JRevisionConflict) (\<lambda>_. get_entry L S u)) j1 = (r, j')"
        using m1 4 by (simp add: and_then_def fail_if_def sql_revisions_def)
      have ok1: "rows_ok L (j_rows j1)" and e1: "entries_of L (j_rows j1) u = Some e" using ok j1 e by simp_all
      have pe: "p r" if "r_state r = as_str (e_state e)" for r using p 4(2) that by blast
      from update_and_reread [where g = g, OF f(1-3) f(4) pe ok1 e1 4(1,3) m2]
      show ?thesis using e 4 spec j1 by (auto simp: outcome_def Let_def)
    qed (use m1 e j1 ok in \<open>auto simp: and_then_def fail_if_def sql_revisions_def advance_def outcome_def\<close>)
  qed
qed

lemma transition_implements: "implements L (spec_transition u revision next) (transition L S u revision next)"
  proof (rule implementsI)
  fix j r j'
  assume ok: "rows_ok L (j_rows j)" and m: "transition L S u revision next j = (r, j')"
  have f: "row_ok L (r\<lparr>r_state := as_str next\<rparr>)" if "row_ok L r" for r
    using that by (simp add: row_ok_def)
  have e: "entry_of_row u (r\<lparr>r_state := as_str next\<rparr>) = Inr (e_state_update (\<lambda>_. next) e)"
    if "entry_of_row u r = Inr e" for r e
    using that by (auto simp: entry_of_row_def res_then_Inr_iff)
  show "outcome L (spec_transition u revision next (entries_of L (j_rows j))) j r j'"
    unfolding spec_transition_def
  proof (rule guarded_implements [where f = "\<lambda>r. r\<lparr>r_state := as_str next\<rparr>" and p = "\<lambda>_. True"
        and guard = "\<lambda>e. allowed (e_state e) next" and S = S and j = j])
    show "and_then (get_entry L S u) (\<lambda>current.
      and_then (fail_if (e_revision current \<noteq> revision) JRevisionConflict) (\<lambda>_.
      and_then (fail_if (\<not> allowed (e_state current) next) InvalidTransition) (\<lambda>_.
      and_then (lift_res (sql_revisions revision)) (\<lambda>(rv, nrv).
      and_then (sql S (stmt_update (\<lambda>r. r_id r = lib_uuid_text L u \<and> r_revision r = rv \<and> True)
          (\<lambda>r. (r\<lparr>r_state := as_str next\<rparr>)\<lparr>r_revision := nrv\<rparr>))) (\<lambda>changed.
      and_then (fail_if (changed \<noteq> 1) JRevisionConflict) (\<lambda>_.
      get_entry L S u)))))) j = (r, j')"
      using m unfolding transition_def conversions by simp
  qed (use f e ok in simp_all)
qed

lemma revise_implements: "implements L (spec_revise u revision token) (revise_proposal L S u revision token)"
  proof (rule implementsI)
  fix j r j'
  assume ok: "rows_ok L (j_rows j)" and m: "revise_proposal L S u revision token j = (r, j')"
  have f: "row_ok L (r\<lparr>r_destination_token := token\<rparr>)" if "row_ok L r" for r
    using that by (simp add: row_ok_def)
  have e: "entry_of_row u (r\<lparr>r_destination_token := token\<rparr>) = Inr (e_destination_token_update (\<lambda>_. token) e)"
    if "entry_of_row u r = Inr e" for r e
    using that by (auto simp: entry_of_row_def res_then_Inr_iff)
  have guard: "spec_revise u revision token A = (case A u of None \<Rightarrow> Inl JNotFound | Some e \<Rightarrow>
      if e_revision e \<noteq> revision then Inl JRevisionConflict else if \<not> e_state e = Proposed then Inl InvalidTransition
      else advance revision (e_destination_token_update (\<lambda>_. token)) e A)" for A
    by (simp add: spec_revise_def)
  show "outcome L (spec_revise u revision token (entries_of L (j_rows j))) j r j'"
    unfolding guard
  proof (rule guarded_implements [where f = "\<lambda>r. r\<lparr>r_destination_token := token\<rparr>" and p = "\<lambda>r. r_state r = ''proposed''"
        and guard = "\<lambda>e. e_state e = Proposed" and S = S and j = j])
    show "and_then (get_entry L S u) (\<lambda>current.
      and_then (fail_if (e_revision current \<noteq> revision) JRevisionConflict) (\<lambda>_.
      and_then (fail_if (\<not> e_state current = Proposed) InvalidTransition) (\<lambda>_.
      and_then (lift_res (sql_revisions revision)) (\<lambda>(rv, nrv).
      and_then (sql S (stmt_update (\<lambda>r. r_id r = lib_uuid_text L u \<and> r_revision r = rv \<and> r_state r = ''proposed'')
          (\<lambda>r. (r\<lparr>r_destination_token := token\<rparr>)\<lparr>r_revision := nrv\<rparr>))) (\<lambda>changed.
      and_then (fail_if (changed \<noteq> 1) JRevisionConflict) (\<lambda>_.
      get_entry L S u)))))) j = (r, j')"
      using m unfolding revise_proposal_def conversions by simp
  qed (use f e ok in simp_all)
qed

lemma digest_update:
  assumes ok: "rows_ok L (j_rows j)" and h: "length h = 64" "list_all is_ascii_hexdigit h"
    and m: "sql S (stmt_update (\<lambda>r. r_id r = lib_uuid_text L u) (\<lambda>r. r\<lparr>r_sha256 := Some h\<rparr>)) j = (Inr n, j')"
  shows "rows_ok L (j_rows j')"
    and "case entries_of L (j_rows j) u of
        None \<Rightarrow> n = 0 \<and> entries_of L (j_rows j') = entries_of L (j_rows j)
      | Some e \<Rightarrow> n = 1 \<and> entries_of L (j_rows j') = (entries_of L (j_rows j))(u \<mapsto> e\<lparr>e_sha256 := Some h\<rparr>)"
proof -
  let ?p = "\<lambda>r. r_id r = lib_uuid_text L u"
  from sql_update [OF m] obtain now where n: "n = length (filter ?p (j_rows j))"
    and rows: "j_rows j' = map (\<lambda>r. if ?p r then (r\<lparr>r_sha256 := Some h\<rparr>)\<lparr>r_updated_at := now\<rparr> else r) (j_rows j)"
    by blast
  show "rows_ok L (j_rows j')" unfolding rows
    by (rule rows_ok_update [OF ok]) (use h in \<open>auto simp: row_ok_def\<close>)
  show "case entries_of L (j_rows j) u of
        None \<Rightarrow> n = 0 \<and> entries_of L (j_rows j') = entries_of L (j_rows j)
      | Some e \<Rightarrow> n = 1 \<and> entries_of L (j_rows j') = (entries_of L (j_rows j))(u \<mapsto> e\<lparr>e_sha256 := Some h\<rparr>)"
  proof (cases "List.find ?p (j_rows j)")
    case None
    then have "filter ?p (j_rows j) = []" by (simp add: find_None_set filter_empty_conv)
    then have "n = 0" and "j_rows j' = j_rows j"
      unfolding n rows by (auto simp: filter_empty_conv intro!: map_idI)
    with None show ?thesis by (simp add: entries_of_def)
  next
    case (Some q)
    have "n = 1" using update_one [of "j_rows j" _ q "\<lambda>_. True"] ok Some n by (simp add: rows_ok_def)
    moreover obtain e where e: "entry_of_row u q = Inr e"
      using entry_of_row_ok [OF row_ok_found(1) [OF ok Some], of u] by blast
    moreover have "entry_of_row u (q\<lparr>r_sha256 := Some h\<rparr>) = Inr (e\<lparr>e_sha256 := Some h\<rparr>)"
      using e by (auto simp: entry_of_row_def res_then_Inr_iff)
    then have "entries_of L (j_rows j') = (entries_of L (j_rows j))(u \<mapsto> e\<lparr>e_sha256 := Some h\<rparr>)"
      unfolding rows using entries_of_update [of "j_rows j" u q "\<lambda>_. True" "\<lambda>r. r\<lparr>r_sha256 := Some h\<rparr>" now] ok Some
      by simp
    moreover have "entries_of L (j_rows j) u = Some e" using Some e by (simp add: entries_of_def)
    ultimately show ?thesis by simp
  qed
qed

lemma set_sha256_implements: "implements L (spec_set_sha256 u h) (set_sha256 L S u h)"
proof (rule implementsI)
  fix j r j'
  assume ok: "rows_ok L (j_rows j)" and m: "set_sha256 L S u h j = (r, j')"
  let ?p = "\<lambda>r. r_id r = lib_uuid_text L u"
  let ?upd = "sql S (stmt_update ?p (\<lambda>r. r\<lparr>r_sha256 := Some h\<rparr>))"
  show "outcome L (spec_set_sha256 u h (entries_of L (j_rows j))) j r j'"
  proof (cases "length h \<noteq> 64 \<or> \<not> list_all is_ascii_hexdigit h")
    case True
    with m ok show ?thesis by (auto simp: set_sha256_def and_then_def fail_if_def spec_set_sha256_def outcome_def)
  next
    case False
    then have m1: "and_then ?upd (\<lambda>changed. fail_if (changed \<noteq> 1) JNotFound) j = (r, j')"
      using m by (simp add: set_sha256_def and_then_def fail_if_def)
    obtain x j1 where x: "?upd j = (x, j1)" by fastforce
    show ?thesis
    proof (cases x)
      case (Inl d)
      with x sql_rows_err [of S _ j d j1] have "j_rows j1 = j_rows j" "\<exists>d'. d = Database d'" by auto
      moreover have "r = Inl d" "j' = j1" using m1 x Inl by (auto simp: and_then_def)
      ultimately show ?thesis using ok False
        by (cases "entries_of L (j_rows j) u") (auto simp: outcome_def spec_set_sha256_def)
    next
      case (Inr n)
      have r: "(r, j') = (if n \<noteq> 1 then Inl JNotFound else Inr (), j1)"
        using m1 x Inr by (auto simp: and_then_def fail_if_def split: if_splits)
      from digest_update [OF ok _ _ x [unfolded Inr]] False r ok show ?thesis
        by (cases "entries_of L (j_rows j) u") (auto simp: outcome_def spec_set_sha256_def)
    qed
  qed
qed

text \<open>The number of non-terminal rows is the number of active ids of the map.\<close>

lemma find_row:
  assumes ok: "rows_ok L rows" and mem: "r \<in> set rows"
  shows "List.find (\<lambda>q. r_id q = r_id r) rows = Some r"
proof -
  obtain q where q: "List.find (\<lambda>q. r_id q = r_id r) rows = Some q"
    using mem find_None_set [of "\<lambda>q. r_id q = r_id r" rows]
    by (cases "List.find (\<lambda>q. r_id q = r_id r) rows") auto
  from row_ok_found [OF ok q] mem ok have "q = r"
    unfolding rows_ok_def distinct_map by (metis inj_onD)
  with q show ?thesis by simp
qed

lemma active_id_row:
  assumes ok: "rows_ok L rows" and "u \<in> active_ids (entries_of L rows)"
  shows "lib_uuid_text L u \<in> r_id ` set (nonterminal_rows rows)"
proof -
  from assms(2) obtain e where e: "entries_of L rows u = Some e" "\<not> terminal (e_state e)" by (auto simp: active_ids_def)
  obtain r where r: "List.find (\<lambda>r. r_id r = lib_uuid_text L u) rows = Some r" "r_state r = as_str (e_state e)"
    using found_entry [OF ok e(1)] by metis
  with e(2) row_ok_found [OF ok r(1)] show ?thesis by (force simp: nonterminal_rows_def)
qed

lemma active_row_id:
  assumes ok: "rows_ok L rows" and "r \<in> set (nonterminal_rows rows)"
  shows "r_id r \<in> lib_uuid_text L ` active_ids (entries_of L rows)"
proof -
  from assms(2) have r: "r \<in> set rows" "\<not> terminal_text (r_state r)" by (auto simp: nonterminal_rows_def)
  from r(1) ok have rok: "row_ok L r" by (simp add: rows_ok_def)
  then obtain u where u: "r_id r = lib_uuid_text L u" by (auto simp: row_ok_def)
  from entry_of_row_ok [OF rok, of u] obtain s e where "entry_of_row u r = Inr e" "e_state e = s" "r_state r = as_str s"
    by fastforce
  moreover then have "entries_of L rows u = Some e" using find_row [OF ok r(1)] u by (simp add: entries_of_def)
  ultimately have "u \<in> active_ids (entries_of L rows)" using r(2) by (auto simp: active_ids_def)
  with u show ?thesis by auto
qed

lemma active_rows:
  assumes ok: "rows_ok L rows"
  shows "length (nonterminal_rows rows) = card (active_ids (entries_of L rows))"
proof -
  let ?N = "nonterminal_rows rows"
  have "bij_betw (lib_uuid_text L) (active_ids (entries_of L rows)) (r_id ` set ?N)"
    using active_id_row [OF ok] active_row_id [OF ok]
    by (intro bij_betw_imageI) (auto intro: inj_onI simp: uuid_text_inj)
  then have "card (active_ids (entries_of L rows)) = card (r_id ` set ?N)" by (rule bij_betw_same_card)
  also have "\<dots> = length (map r_id ?N)"
  proof -
    have "distinct (map r_id ?N)" using ok by (simp add: rows_ok_def nonterminal_rows_def distinct_map_filter)
    then show ?thesis using distinct_card by fastforce
  qed
  finally show ?thesis by simp
qed

lemma sql_insert_ok:
  assumes "sql S (stmt_insert q) j = (Inr (), j')"
  shows "\<exists>now. j_rows j' = j_rows j @ [q\<lparr>r_updated_at := now\<rparr>]" and "\<forall>r \<in> set (j_rows j). r_id r \<noteq> r_id q"
  using sql_Inr [OF assms] by (auto simp: stmt_insert_def split: if_splits)

lemma find_append: "List.find p (xs @ ys) = (case List.find p xs of None \<Rightarrow> List.find p ys | Some x \<Rightarrow> Some x)"
  by (induction xs) auto

lemma new_entry:
  assumes "i64_of_u64 (e_revision e) = Some rv" and "i64_of_u64 (e_size e) = Some len"
  shows "entry_of_row (e_id e) (row_of_entry L e rv len) = Inr e"
  using assms by (simp add: row_of_entry_def entry_of_row_def i64_u64_roundtrip)

lemma insert_effect:
  assumes ok: "rows_ok L (j_rows j)" and e: "e_state e = Proposed" "e_revision e = 1" "e_sha256 e = None"
    and len: "i64_of_u64 (e_size e) = Some len"
    and m: "sql S (stmt_insert (row_of_entry L e 1 len)) j = (Inr (), j')"
  shows "rows_ok L (j_rows j') \<and> entries_of L (j_rows j) (e_id e) = None \<and>
    entries_of L (j_rows j') = (entries_of L (j_rows j))(e_id e \<mapsto> e)"
proof -
  let ?q = "row_of_entry L e 1 len"
  obtain now where rows: "j_rows j' = j_rows j @ [?q\<lparr>r_updated_at := now\<rparr>]"
    and fresh: "\<forall>r \<in> set (j_rows j). r_id r \<noteq> r_id ?q"
    using sql_insert_ok [OF m] by blast
  have qid: "r_id ?q = lib_uuid_text L (e_id e)" by (simp add: row_of_entry_def)
  have none: "List.find (\<lambda>r. r_id r = lib_uuid_text L (e_id e)) (j_rows j) = None"
    using fresh unfolding qid by (simp add: find_None_set)
  have "r_state ?q \<in> range as_str" by (simp add: row_of_entry_def del: as_str.simps)
  then have "row_ok L ?q" using e len by (auto simp: row_ok_def row_of_entry_def i64_of_u64_Some)
  then have ok': "rows_ok L (j_rows j')" using ok fresh by (auto simp: rows_ok_def rows row_ok_def)
  have new: "entry_of_row (e_id e) ?q = Inr e" using new_entry [of e 1 len] e len by (simp add: i64_of_u64_def)
  have "entries_of L (j_rows j') = (entries_of L (j_rows j))(e_id e \<mapsto> e)"
  proof
    fix u
    show "entries_of L (j_rows j') u = ((entries_of L (j_rows j))(e_id e \<mapsto> e)) u"
      using none new qid uuid_text_inj
      by (cases "u = e_id e") (simp_all add: entries_of_def rows find_append split: option.splits)
  qed
  moreover have "entries_of L (j_rows j) (e_id e) = None" using none by (simp add: entries_of_def)
  ultimately show ?thesis using ok' by simp
qed

lemma insert_refused:
  assumes ok: "rows_ok L (j_rows j)" and m: "sql S (stmt_insert (row_of_entry L e 1 len)) j = (Inl x, j')"
  shows "j_rows j' = j_rows j" and "\<exists>d. x = Database d"
  using sql_rows_err [OF m] by auto

lemma create_implements:
  assumes "e_sha256 e = None"
  shows "implements L (spec_create e) (create L S e)"
proof (rule implementsI)
  fix j r j'
  assume ok: "rows_ok L (j_rows j)" and m: "create L S e j = (r, j')"
  let ?A = "entries_of L (j_rows j)"
  obtain q j1 where q: "active_count S j = (q, j1)" by fastforce
  show "outcome L (spec_create e ?A) j r j'"
  proof (cases q)
    case (Inl d)
    with q have "j_rows j1 = j_rows j" "\<exists>d'. d = Database d'"
      unfolding active_count_def by (auto dest: sql_rows_err)
    moreover have "r = Inl d" "j' = j1" using m q Inl by (auto simp: create_def and_then_def)
    ultimately show ?thesis using ok
      by (auto simp: outcome_def spec_create_def split: sum.splits if_splits prod.splits)
  next
    case (Inr n)
    with q have n: "n = int (card (active_ids ?A))" and j1: "j_rows j1 = j_rows j"
      using active_rows [OF ok] by (auto simp: active_count_def dest: sql_select)
    have m1: "and_then (fail_if (n \<ge> MAX_ACTIVE) JLimit) (\<lambda>_.
      and_then (fail_if (e_state e \<noteq> Proposed \<or> e_revision e \<noteq> 1) InvalidTransition) (\<lambda>_.
      and_then (lift_res (ok_or Range (i64_of_u64 (e_revision e)))) (\<lambda>revision.
      and_then (lift_res (ok_or Range (i64_of_u64 (e_size e)))) (\<lambda>len.
      sql S (stmt_insert (row_of_entry L e revision len)))))) j1 = (r, j')"
      using m q Inr by (simp add: create_def and_then_def)
    show ?thesis
    proof (cases "n < MAX_ACTIVE \<and> e_state e = Proposed \<and> e_revision e = 1 \<and> uint (e_size e) < 2 ^ 63")
      case False
      with m1 j1 ok n show ?thesis
        by (auto simp: outcome_def spec_create_def and_then_def fail_if_def i64_of_u64_def split: if_splits)
    next
      case True
      then have len: "i64_of_u64 (e_size e) = Some (uint (e_size e))" by (simp add: i64_of_u64_def)
      have m2: "sql S (stmt_insert (row_of_entry L e 1 (uint (e_size e)))) j1 = (r, j')"
        using m1 True by (simp add: and_then_def fail_if_def i64_of_u64_def)
      have ok1: "rows_ok L (j_rows j1)" using ok j1 by simp
      have spec: "spec_create e ?A = (if ?A (e_id e) \<noteq> None then Inl (Database (DbError 19)) else Inr ((), ?A(e_id e \<mapsto> e)))"
        using True n by (auto simp: spec_create_def)
      show ?thesis
      proof (cases r)
        case (Inr u)
        then have "r = Inr ()" by simp
        with insert_effect [OF ok1 _ _ assms len m2 [unfolded this]] True j1 spec show ?thesis
          by (auto simp: outcome_def)
      next
        case (Inl x)
        with insert_refused [OF ok1 m2 [unfolded Inl]] j1 ok spec show ?thesis by (auto simp: outcome_def)
      qed
    qed
  qed
qed

end

end
