(* ===== verification/Journal_History.thy ===== *)
theory Journal_History
  imports Journal_Laws
begin

text \<open>
  What holds of the journal over any sequence of its operations: which rows retention removes,
  the step relation every entry follows, and the invariants over all reachable tables.
\<close>

section \<open>Retention\<close>

lemma sql_delete:
  "sql S (stmt_delete p) j = (Inr n, j') \<Longrightarrow> \<exists>now. n = length (filter (p now (j_rows j)) (j_rows j)) \<and>
     j_rows j' = filter (\<lambda>r. \<not> p now (j_rows j) r) (j_rows j)"
  by (drule sql_Inr) (auto simp: stmt_delete_def)

definition terminal_rows :: "row list \<Rightarrow> row list" where
  "terminal_rows rows = filter (\<lambda>r. terminal_text (r_state r)) rows"

text \<open>Table \<open>b\<close> is table \<open>a\<close> without some terminal rows.\<close>

definition trimmed :: "row list \<Rightarrow> row list \<Rightarrow> bool" where
  "trimmed a b \<longleftrightarrow> (\<exists>p. b = filter p a \<and> (\<forall>r \<in> set a. \<not> p r \<longrightarrow> terminal_text (r_state r)))"

lemma trimmed_refl [simp]: "trimmed a a"
  unfolding trimmed_def by (rule exI [of _ "\<lambda>_. True"]) simp

lemma trimmed_trans: "trimmed a b \<Longrightarrow> trimmed b c \<Longrightarrow> trimmed a c"
proof -
  assume "trimmed a b" and "trimmed b c"
  then obtain p q where "b = filter p a" "\<forall>r \<in> set a. \<not> p r \<longrightarrow> terminal_text (r_state r)"
    "c = filter q b" "\<forall>r \<in> set b. \<not> q r \<longrightarrow> terminal_text (r_state r)"
    unfolding trimmed_def by blast
  then show ?thesis unfolding trimmed_def by (intro exI [of _ "\<lambda>r. p r \<and> q r"]) (auto simp: conj_commute)
qed

lemma trimmed_nonterminal: "trimmed a b \<Longrightarrow> nonterminal_rows b = nonterminal_rows a"
proof -
  assume "trimmed a b"
  then obtain p where "b = filter p a" "\<forall>r \<in> set a. \<not> p r \<longrightarrow> terminal_text (r_state r)"
    unfolding trimmed_def by blast
  moreover then have "filter (\<lambda>r. p r \<and> \<not> terminal_text (r_state r)) a = filter (\<lambda>r. \<not> terminal_text (r_state r)) a"
    by (intro filter_cong) auto
  ultimately show ?thesis unfolding nonterminal_rows_def filter_filter by (simp add: conj_commute)
qed

lemma trimmed_rows_ok: "trimmed a b \<Longrightarrow> rows_ok L a \<Longrightarrow> rows_ok L b"
  unfolding trimmed_def by (auto intro: rows_ok_filter)

lemma beyond_newest_terminal: "r \<in> set (beyond_newest k rows) \<Longrightarrow> r \<in> set rows \<and> terminal_text (r_state r)"
  unfolding beyond_newest_def by (drule in_set_dropD) (simp add: by_age_def)

lemma prune_terminal_run:
  assumes "prune_terminal S retain j = (r, j')"
  shows "(\<exists>e. r = Inl e \<and> j_rows j' = j_rows j) \<or>
    (\<exists>n. r = Inr n \<and> uint retain < 2 ^ 63 \<and>
      j_rows j' = filter (\<lambda>q. r_id q \<notin> set (map r_id (beyond_newest (uint retain) (j_rows j)))) (j_rows j) \<and>
      n = length (filter (\<lambda>q. r_id q \<in> set (map r_id (beyond_newest (uint retain) (j_rows j)))) (j_rows j)))"
proof (cases r)
  case (Inl e)
  with assms show ?thesis
    by (auto simp: prune_terminal_def and_then_Inl dest: sql_rows_err)
next
  case (Inr n)
  with assms show ?thesis
    by (auto simp: prune_terminal_def and_then_Inr i64_of_u64_Some dest!: sql_delete)
qed

lemma prune_trimmed:
  assumes "distinct (map r_id (j_rows j))" and "prune_terminal S retain j = (r, j')"
  shows "trimmed (j_rows j) (j_rows j')"
proof -
  have "terminal_text (r_state q)" if "q \<in> set (j_rows j)" "r_id q \<in> set (map r_id (beyond_newest k (j_rows j)))" for q k
  proof -
    from that(2) obtain x where x: "x \<in> set (beyond_newest k (j_rows j))" "r_id q = r_id x" by auto
    with beyond_newest_terminal [OF x(1)] that(1) assms(1) have "q = x" by (auto simp: distinct_map dest: inj_onD)
    with beyond_newest_terminal [OF x(1)] show ?thesis by simp
  qed
  with prune_terminal_run [OF assms(2)] show ?thesis
    unfolding trimmed_def by (metis (mono_tags, lifting) trimmed_def trimmed_refl)
qed

text \<open>The terminal rows that stay are the newest, in age order.\<close>

lemma filter_not_taken:
  assumes "distinct (map f xs)"
  shows "filter (\<lambda>x. f x \<notin> f ` set (take k xs)) xs = drop k xs"
proof -
  have "filter (\<lambda>x. f x \<notin> f ` set (take k xs)) (take k xs) = []" by (simp add: filter_empty_conv)
  moreover have "filter (\<lambda>x. f x \<notin> f ` set (take k xs)) (drop k xs) = drop k xs"
  proof (rule filter_True, rule ballI)
    fix x assume "x \<in> set (drop k xs)"
    moreover have "distinct (map f (take k xs) @ map f (drop k xs))"
      using assms by (metis append_take_drop_id map_append)
    ultimately show "f x \<notin> f ` set (take k xs)" by auto
  qed
  moreover have "filter (\<lambda>x. f x \<notin> f ` set (take k xs)) (take k xs @ drop k xs) = drop k xs"
    unfolding filter_append using calculation by simp
  ultimately show ?thesis by simp
qed

lemma prune_newest:
  assumes d: "distinct (map r_id (j_rows j))" and m: "prune_terminal S retain j = (Inr n, j')"
  shows "by_age (terminal_rows (j_rows j')) =
      drop (length (terminal_rows (j_rows j)) - unat retain) (by_age (terminal_rows (j_rows j)))"
    and "length (terminal_rows (j_rows j')) = min (unat retain) (length (terminal_rows (j_rows j)))"
proof -
  let ?T = "by_age (terminal_rows (j_rows j))"
  let ?k = "length ?T - unat retain"
  have len: "length ?T = length (terminal_rows (j_rows j))" by (simp add: by_age_def)
  have dT: "distinct (map r_id ?T)"
  proof -
    have "distinct (map r_id (terminal_rows (j_rows j)))" using d by (simp add: terminal_rows_def distinct_map_filter)
    then show ?thesis
      by (simp add: by_age_def distinct_map)
  qed
  have beyond: "set (beyond_newest (uint retain) (j_rows j)) = set (take ?k ?T)"
    by (simp add: beyond_newest_def terminal_rows_def [symmetric] drop_rev)
  have rows: "j_rows j' = filter (\<lambda>q. r_id q \<notin> r_id ` set (take ?k ?T)) (j_rows j)"
    using prune_terminal_run [OF m] beyond by simp
  have "terminal_rows (j_rows j') = filter (\<lambda>q. r_id q \<notin> r_id ` set (take ?k ?T)) (terminal_rows (j_rows j))"
    unfolding rows terminal_rows_def filter_filter by (rule filter_cong) auto
  then have "by_age (terminal_rows (j_rows j')) = filter (\<lambda>q. r_id q \<notin> r_id ` set (take ?k ?T)) ?T"
    by (simp add: by_age_def filter_sort)
  also have "\<dots> = drop ?k ?T" by (rule filter_not_taken [OF dT])
  finally show new: "by_age (terminal_rows (j_rows j')) =
      drop (length (terminal_rows (j_rows j)) - unat retain) (by_age (terminal_rows (j_rows j)))"
    by (simp only: len)
  have "length (terminal_rows (j_rows j')) = length (by_age (terminal_rows (j_rows j')))" by (simp add: by_age_def)
  also have "\<dots> = min (unat retain) (length (terminal_rows (j_rows j)))" unfolding new by (simp add: by_age_def)
  finally show "length (terminal_rows (j_rows j')) = min (unat retain) (length (terminal_rows (j_rows j)))" .
qed

lemma in_world_rows: "in_world m j = (r, j') \<Longrightarrow> j_rows j' = j_rows j"
  unfolding in_world_def by (auto split: prod.splits)

lemma retention_trimmed:
  assumes ok: "rows_ok L (j_rows j)" and m: "enforce_retention S retain age lim j = (r, j')"
  shows "trimmed (j_rows j) (j_rows j')"
proof -
  let ?P = "\<lambda>j'. trimmed (j_rows j) (j_rows j')"
  have aged: "keeps ?P (sql S (stmt_delete (\<lambda>now rows r. terminal_text (r_state r) \<and> r_updated_at r < now - a)))" for a
  proof (rule keepsI)
    fix i :: "'a journal" and r i'
    assume i: "?P i" and "sql S (stmt_delete (\<lambda>now rows r. terminal_text (r_state r) \<and> r_updated_at r < now - a)) i = (r, i')"
    then have "trimmed (j_rows i) (j_rows i')"
      by (cases r) (auto simp: trimmed_def dest!: sql_delete sql_rows_err intro: exI [of _ "\<lambda>_. True"])
    with i show "?P i'" by (rule trimmed_trans)
  qed
  have prune: "keeps ?P (prune_terminal S retain)"
  proof (rule keepsI)
    fix i :: "'a journal" and r i' assume i: "?P i" and "prune_terminal S retain i = (r, i')"
    moreover have "distinct (map r_id (j_rows i))" using trimmed_rows_ok [OF i ok] by (simp add: rows_ok_def)
    ultimately show "?P i'" using prune_trimmed trimmed_trans by blast
  qed
  have checkpoint: "keeps ?P (sql S (stmt_select (\<lambda>_. ())))"
    by (rule keepsI, case_tac r) (auto dest: sql_select sql_rows_err)
  have world: "keeps ?P (in_world m')" for m' :: "('a, journal_error, 'b) io"
    by (rule keepsI) (auto dest: in_world_rows)
  have "keeps ?P (enforce_retention S retain age lim)"
    unfolding enforce_retention_def
    by (intro keeps_and_then keeps_pure aged prune checkpoint world)
  from keepsD [OF this _ m] show ?thesis by simp
qed

section \<open>The step relation of an entry\<close>

text \<open>What one journal operation may do to the entry of one id; \<open>None\<close> is an absent entry.\<close>

inductive entry_step :: "entry option \<Rightarrow> entry option \<Rightarrow> bool" where
  step_same: "entry_step x x"
| step_create: "e_state e = Proposed \<Longrightarrow> e_revision e = 1 \<Longrightarrow> entry_step None (Some e)"
| step_transition: "allowed (e_state e) s \<Longrightarrow> uint (e_revision e) + 1 < 2 ^ 63 \<Longrightarrow>
    entry_step (Some e) (Some (e\<lparr>e_state := s, e_revision := e_revision e + 1\<rparr>))"
| step_revise: "e_state e = Proposed \<Longrightarrow> uint (e_revision e) + 1 < 2 ^ 63 \<Longrightarrow>
    entry_step (Some e) (Some (e\<lparr>e_destination_token := t, e_revision := e_revision e + 1\<rparr>))"
| step_digest: "length h = 64 \<Longrightarrow> list_all is_ascii_hexdigit h \<Longrightarrow>
    entry_step (Some e) (Some (e\<lparr>e_sha256 := Some h\<rparr>))"
| step_retire: "terminal (e_state e) \<Longrightarrow> entry_step (Some e) None"

inductive_cases entry_step_someE: "entry_step (Some e) x"
inductive_cases entry_step_noneE: "entry_step None x"
inductive_simps entry_step_from_none: "entry_step None x"
inductive_simps entry_step_to_none: "entry_step (Some e) None"

datatype command = Create entry | Transition uuid u64 jstate | Revise uuid u64 bytes
  | Digest uuid string | Retain u64 u64 u64

fun run_command :: "libs \<Rightarrow> 'w os \<Rightarrow> command \<Rightarrow> 'w journal \<Rightarrow> 'w journal" where
  "run_command L S (Create e) j = snd (create L S (e\<lparr>e_sha256 := None\<rparr>) j)"
| "run_command L S (Transition u rn s) j = snd (transition L S u rn s j)"
| "run_command L S (Revise u rn t) j = snd (revise_proposal L S u rn t j)"
| "run_command L S (Digest u h) j = snd (set_sha256 L S u h j)"
| "run_command L S (Retain n age lim) j = snd (enforce_retention S n age lim j)"

definition run_commands :: "libs \<Rightarrow> 'w os \<Rightarrow> command list \<Rightarrow> 'w journal \<Rightarrow> 'w journal" where
  "run_commands L S cs j = fold (run_command L S) cs j"

lemma run_commands_snoc [simp]:
  "run_commands L S [] j = j" "run_commands L S (cs @ [c]) j = run_command L S c (run_commands L S cs j)"
  by (simp_all add: run_commands_def)

lemma outcome_step:
  assumes "outcome L res j r j'"
    and "\<And>x B. res = Inr (x, B) \<Longrightarrow> entry_step (entries_of L (j_rows j) u) (B u)"
  shows "rows_ok L (j_rows j') \<and> entry_step (entries_of L (j_rows j) u) (entries_of L (j_rows j') u)"
  using assms by (auto simp: outcome_def intro: step_same split: sum.splits)

lemma advance_step:
  assumes "advance rn f e A = Inr (x, B)" and "A u = Some e" and "e_id e = u"
    and "uint rn + 1 < 2 ^ 63 \<Longrightarrow> entry_step (Some e) (Some ((f e)\<lparr>e_revision := rn + 1\<rparr>))"
  shows "entry_step (A v) (B v)"
  using assms by (auto simp: advance_def intro: step_same split: if_splits)

context libs_ok
begin

lemma spec_transition_step:
  assumes "spec_transition u rn s A = Inr (x, B)" and "\<And>u e. A u = Some e \<Longrightarrow> e_id e = u"
  shows "entry_step (A v) (B v)"
proof -
  from assms(1) obtain e where e: "A u = Some e" "e_revision e = rn" "allowed (e_state e) s"
    "advance rn (e_state_update (\<lambda>_. s)) e A = Inr (x, B)"
    by (auto simp: spec_transition_def split: option.splits if_splits)
  show ?thesis
    by (rule advance_step [OF e(4,1) assms(2) [OF e(1)]])
       (use step_transition [OF e(3)] e(2) in simp)
qed

lemma spec_revise_step:
  assumes "spec_revise u rn t A = Inr (x, B)" and "\<And>u e. A u = Some e \<Longrightarrow> e_id e = u"
  shows "entry_step (A v) (B v)"
proof -
  from assms(1) obtain e where e: "A u = Some e" "e_revision e = rn" "e_state e = Proposed"
    "advance rn (e_destination_token_update (\<lambda>_. t)) e A = Inr (x, B)"
    by (auto simp: spec_revise_def split: option.splits if_splits)
  show ?thesis
    by (rule advance_step [OF e(4,1) assms(2) [OF e(1)]])
       (use step_revise [OF e(3), of t] e(2) in simp)
qed

lemma trimmed_entries:
  assumes ok: "rows_ok L a" and t: "trimmed a b"
  shows "entries_of L b u = entries_of L a u \<or>
    entries_of L b u = None \<and> (\<exists>e. entries_of L a u = Some e \<and> terminal (e_state e))"
proof -
  obtain p where p: "b = filter p a" "\<forall>r \<in> set a. \<not> p r \<longrightarrow> terminal_text (r_state r)"
    using t unfolding trimmed_def by blast
  show ?thesis
  proof (cases "List.find (\<lambda>r. r_id r = lib_uuid_text L u) a")
    case None
    then have "List.find (\<lambda>r. r_id r = lib_uuid_text L u) b = None" by (auto simp: p(1) find_None_set)
    with None show ?thesis by (simp add: entries_of_def)
  next
    case (Some r)
    have one: "filter (\<lambda>r. r_id r = lib_uuid_text L u) a = [r]"
      using distinct_find_filter [OF _ Some] ok by (simp add: rows_ok_def)
    have find: "List.find (\<lambda>r. r_id r = lib_uuid_text L u) b = (if p r then Some r else None)"
    proof -
      have "filter (\<lambda>r. r_id r = lib_uuid_text L u) b = filter p [r]"
        unfolding p(1) filter_filter one [symmetric] by (rule filter_cong) auto
      moreover have "List.find q xs = (case filter q xs of [] \<Rightarrow> None | x # _ \<Rightarrow> Some x)" for q and xs :: "row list"
        by (induction xs) auto
      ultimately show ?thesis by simp
    qed
    show ?thesis
    proof (cases "p r")
      case True
      with Some find show ?thesis by (simp add: entries_of_def)
    next
      case False
      from entry_of_row_ok [OF row_ok_found(1) [OF ok Some], of u] obtain s e where
        e0: "r_state r = as_str s" "entry_of_row u r = Inr e" "e_state e = s" by fastforce
      have "terminal (e_state e)" using p(2) False row_ok_found(3) [OF ok Some] e0 by auto
      with Some find False e0 show ?thesis by (simp add: entries_of_def)
    qed
  qed
qed

lemma trimmed_step:
  assumes "rows_ok L a" and "trimmed a b"
  shows "entry_step (entries_of L a u) (entries_of L b u)"
  using trimmed_entries [OF assms, of u] by (auto intro: step_same step_retire)

text \<open>Every operation, whatever its result, keeps the table well-formed and moves each entry by one step.\<close>

lemma spec_create_step:
  assumes "spec_create (e\<lparr>e_sha256 := None\<rparr>) A = Inr (x, B)"
  shows "entry_step (A u) (B u)"
proof (cases "u = e_id e")
  case True
  with assms have "A u = None" "B u = Some (e\<lparr>e_sha256 := None\<rparr>)" "e_state e = Proposed" "e_revision e = 1"
    by (auto simp: spec_create_def split: if_splits)
  then show ?thesis by (simp add: step_create)
next
  case False
  with assms have "B u = A u" by (auto simp: spec_create_def split: if_splits)
  then show ?thesis by (simp add: step_same)
qed

lemma spec_digest_step: "spec_set_sha256 v h A = Inr (x, B) \<Longrightarrow> entry_step (A u) (B u)"
  by (auto simp: spec_set_sha256_def intro: step_same step_digest split: if_splits option.splits)

lemma command_step:
  assumes ok: "rows_ok L (j_rows j)"
  shows "rows_ok L (j_rows (run_command L S c j)) \<and>
    entry_step (entries_of L (j_rows j) u) (entries_of L (j_rows (run_command L S c j)) u)"
proof -
  let ?A = "entries_of L (j_rows j)"
  have ids: "e_id e = v" if "?A v = Some e" for v e using entries_of_id [OF that] .
  show ?thesis
  proof (cases c)
    case (Create e)
    obtain r j' where m: "create L S (e\<lparr>e_sha256 := None\<rparr>) j = (r, j')" by fastforce
    have made: "outcome L (spec_create (e\<lparr>e_sha256 := None\<rparr>) ?A) j r j'"
      by (rule implementsD [OF create_implements ok m]) simp
    have "rows_ok L (j_rows j') \<and> entry_step (?A u) (entries_of L (j_rows j') u)"
      by (rule outcome_step [OF made], rule spec_create_step, assumption)
    with Create m show ?thesis by simp
  next
    case (Transition v rn s)
    obtain r j' where m: "transition L S v rn s j = (r, j')" by fastforce
    have "rows_ok L (j_rows j') \<and> entry_step (?A u) (entries_of L (j_rows j') u)"
      by (rule outcome_step [OF implementsD [OF transition_implements ok m]], rule spec_transition_step [OF _ ids], assumption+)
    with Transition m show ?thesis by simp
  next
    case (Revise v rn t)
    obtain r j' where m: "revise_proposal L S v rn t j = (r, j')" by fastforce
    have "rows_ok L (j_rows j') \<and> entry_step (?A u) (entries_of L (j_rows j') u)"
      by (rule outcome_step [OF implementsD [OF revise_implements ok m]], rule spec_revise_step [OF _ ids], assumption+)
    with Revise m show ?thesis by simp
  next
    case (Digest v h)
    obtain r j' where m: "set_sha256 L S v h j = (r, j')" by fastforce
    have "rows_ok L (j_rows j') \<and> entry_step (?A u) (entries_of L (j_rows j') u)"
      by (rule outcome_step [OF implementsD [OF set_sha256_implements ok m]], rule spec_digest_step, assumption)
    with Digest m show ?thesis by simp
  next
    case (Retain n age lim)
    obtain r j' where m: "enforce_retention S n age lim j = (r, j')" by fastforce
    have "trimmed (j_rows j) (j_rows j')" using retention_trimmed [OF ok m] .
    with trimmed_rows_ok [OF this ok] trimmed_step [OF ok this] Retain m show ?thesis by simp
  qed
qed

lemma commands_ok: "rows_ok L (j_rows j) \<Longrightarrow> rows_ok L (j_rows (run_commands L S cs j))"
  by (induction cs rule: rev_induct) (use command_step in auto)

end

section \<open>What the listing reaches\<close>

text \<open>The ids the listing of \<open>nonterminal\<close> selects, and the active ones beyond its \<open>LIMIT 1000\<close>.\<close>

definition oldest_active :: "libs \<Rightarrow> row list \<Rightarrow> uuid set" where
  "oldest_active L rows = {u. lib_uuid_text L u \<in> r_id ` set (take 1000 (by_age (nonterminal_rows rows)))}"

definition unlisted :: "libs \<Rightarrow> row list \<Rightarrow> uuid set" where
  "unlisted L rows = active_ids (entries_of L rows) - oldest_active L rows"

section \<open>Histories\<close>

definition state_after :: "libs \<Rightarrow> 'w os \<Rightarrow> 'w journal \<Rightarrow> uuid \<Rightarrow> command list \<Rightarrow> jstate option" where
  "state_after L S j u cs = map_option e_state (entries_of L (j_rows (run_commands L S cs j)) u)"

lemma entry_step_state:
  "entry_step x y \<Longrightarrow> map_option e_state y = map_option e_state x \<or>
     (x = None \<and> map_option e_state y = Some Proposed) \<or>
     (\<exists>e s. x = Some e \<and> allowed (e_state e) s \<and> map_option e_state y = Some s) \<or>
     (\<exists>e. x = Some e \<and> terminal (e_state e) \<and> y = None)"
  by (induction rule: entry_step.induct) auto

context libs_ok
begin

text \<open>
  A state an entry has was either there from the start or entered by an allowed transition, at
  a moment reached by a prefix of the operations.
\<close>

lemma entered:
  assumes ok: "rows_ok L (j_rows j)" and "state_after L S j u cs = Some t" and "t \<noteq> Proposed"
    and "state_after L S j u [] \<noteq> Some t"
  shows "\<exists>a b s. cs = a @ b \<and> state_after L S j u a = Some s \<and> s \<noteq> t \<and> allowed s t"
  using assms(2)
proof (induction cs rule: rev_induct)
  case Nil
  with assms(4) show ?case by simp
next
  case (snoc c cs)
  let ?j = "run_commands L S cs j"
  have "entry_step (entries_of L (j_rows ?j) u) (entries_of L (j_rows (run_command L S c ?j)) u)"
    using command_step [OF commands_ok [OF ok]] by blast
  note step = entry_step_state [OF this]
  have after: "map_option e_state (entries_of L (j_rows (run_command L S c ?j)) u) = Some t"
    using snoc.prems by (simp add: state_after_def)
  have before: "state_after L S j u cs = map_option e_state (entries_of L (j_rows ?j) u)"
    by (simp add: state_after_def)
  have "state_after L S j u cs = Some t \<or> (\<exists>s. state_after L S j u cs = Some s \<and> allowed s t)"
    unfolding before using step [unfolded after] assms(3) by (metis option.distinct(1) option.inject option.map(2) after option.map(1))
  then consider "state_after L S j u cs = Some t"
    | s where "state_after L S j u cs = Some s" "allowed s t" "s \<noteq> t"
    by blast
  then show ?case
  proof cases
    case 1
    from snoc.IH [OF this] show ?thesis by (metis append.assoc)
  next
    case 2
    then show ?thesis by blast
  qed
qed


section \<open>The active entries\<close>

lemma collect_run:
  "rows_ok L (j_rows j) \<Longrightarrow> collect_entries L S (map (lib_uuid_text L) us) j = (Inr es, j') \<Longrightarrow>
     j_rows j' = j_rows j \<and> map Some es = map (entries_of L (j_rows j)) us"
proof (induction us arbitrary: j es)
  case (Cons u us)
  from Cons.prems(2) obtain e j1 es' where g: "get_entry L S u j = (Inr e, j1)"
    and c: "collect_entries L S (map (lib_uuid_text L) us) j1 = (Inr es', j')" and es: "es = e # es'"
    by (auto simp: and_then_Inr uuid_roundtrip)
  from get_entry_spec [OF Cons.prems(1) g] have "j_rows j1 = j_rows j" "entries_of L (j_rows j) u = Some e"
    by (cases "entries_of L (j_rows j) u"; auto)+
  with Cons.IH [OF _ c] Cons.prems(1) es show ?case by simp
qed (simp add: ok_def)

lemma nonterminal_run:
  assumes ok: "rows_ok L (j_rows j)" and m: "nonterminal_entries L S j = (Inr es, j')"
  obtains us where "map (lib_uuid_text L) us = map r_id (take 1000 (by_age (nonterminal_rows (j_rows j))))"
    and "map Some es = map (entries_of L (j_rows j)) us" and "j_rows j' = j_rows j"
proof -
  let ?ids = "map r_id (take 1000 (by_age (nonterminal_rows (j_rows j))))"
  from m obtain ids j1 where s: "sql S (stmt_select (\<lambda>rows. map r_id (take 1000 (by_age (nonterminal_rows rows))))) j = (Inr ids, j1)"
    and "collect_entries L S ids j1 = (Inr es, j')"
    unfolding nonterminal_entries_def by (auto simp: and_then_Inr)
  with sql_select [OF s] have j1: "j_rows j1 = j_rows j" and c: "collect_entries L S ?ids j1 = (Inr es, j')" by simp_all
  have "\<forall>t \<in> set ?ids. t \<in> range (lib_uuid_text L)"
  proof
    fix t assume "t \<in> set ?ids"
    then obtain r where r: "r \<in> set (j_rows j)" "t = r_id r"
      by (auto simp: by_age_def nonterminal_rows_def dest!: in_set_takeD)
    with ok have "row_ok L r" by (simp add: rows_ok_def)
    with r(2) show "t \<in> range (lib_uuid_text L)" unfolding row_ok_def by blast
  qed
  then obtain us where us: "?ids = map (lib_uuid_text L) us"
    by (metis ex_map_conv rangeE)
  with collect_run [OF _ c [unfolded us]] ok j1 that show thesis by simp
qed

text \<open>The listing has the thousand active entries that have not changed for longest; these are the others.\<close>

lemma oldest_sub: "rows_ok L rows \<Longrightarrow> oldest_active L rows \<subseteq> active_ids (entries_of L rows)"
  unfolding oldest_active_def using active_row_id by (fastforce simp: by_age_def uuid_text_inj dest!: in_set_takeD)

lemma few_unlisted:
  assumes ok: "rows_ok L rows" and "card (active_ids (entries_of L rows)) \<le> 1000"
  shows "unlisted L rows = {}"
proof -
  have "length (by_age (nonterminal_rows rows)) \<le> 1000" using assms(2) active_rows [OF ok] by (simp add: by_age_def)
  then have "take 1000 (by_age (nonterminal_rows rows)) = by_age (nonterminal_rows rows)" by simp
  then show ?thesis using active_id_row [OF ok] by (auto simp: unlisted_def oldest_active_def by_age_def)
qed

text \<open>Every entry listed is active, and when at most a thousand are, all of them are listed.\<close>

lemma nonterminal_listed:
  assumes ok: "rows_ok L (j_rows j)" and m: "nonterminal_entries L S j = (Inr es, j')"
  shows "distinct (map e_id es)" and "length es = min 1000 (card (active_ids (entries_of L (j_rows j))))"
    and "\<forall>e \<in> set es. entries_of L (j_rows j) (e_id e) = Some e \<and> \<not> terminal (e_state e)"
    and "j_rows j' = j_rows j" and "e_id ` set es = oldest_active L (j_rows j)"
proof -
  let ?N = "nonterminal_rows (j_rows j)"
  obtain us where us: "map (lib_uuid_text L) us = map r_id (take 1000 (by_age ?N))"
    and es: "map Some es = map (entries_of L (j_rows j)) us" and j': "j_rows j' = j_rows j"
    using nonterminal_run [OF ok m] by blast
  have len: "length us = length es" using es by (metis length_map)
  have each: "entries_of L (j_rows j) (us ! i) = Some (es ! i)" if "i < length es" for i
    using es that len by (metis nth_map)
  have ids: "map e_id es = us"
  proof (rule nth_equalityI)
    show "map e_id es ! i = us ! i" if "i < length (map e_id es)" for i
      using entries_of_id [OF each] that by simp
  qed (simp add: len)
  have "distinct (map r_id (by_age ?N))"
    using ok by (auto simp: by_age_def nonterminal_rows_def rows_ok_def distinct_map intro: inj_on_subset)
  then have "distinct (take 1000 (map r_id (by_age ?N)))" by (rule distinct_take)
  then have "distinct (map (lib_uuid_text L) us)" unfolding us by (simp add: take_map)
  then show "distinct (map e_id es)" unfolding ids by (simp add: distinct_map)
  have "length es = length (take 1000 (by_age ?N))" using us len by (metis length_map)
  then show "length es = min 1000 (card (active_ids (entries_of L (j_rows j))))"
    using active_rows [OF ok] by (simp add: by_age_def min.commute)
  show "j_rows j' = j_rows j" by (rule j')
  have "set us = oldest_active L (j_rows j)"
  proof -
    have "r_id ` set (take 1000 (by_age ?N)) = lib_uuid_text L ` set us" using us by (metis list.set_map)
    then show ?thesis by (auto simp: oldest_active_def uuid_text_inj)
  qed
  then show "e_id ` set es = oldest_active L (j_rows j)" using ids by (metis list.set_map)
  show "\<forall>e \<in> set es. entries_of L (j_rows j) (e_id e) = Some e \<and> \<not> terminal (e_state e)"
  proof
    fix e assume "e \<in> set es"
    then obtain i where i: "i < length es" "e = es ! i" by (auto simp: in_set_conv_nth)
    have ue1: "entries_of L (j_rows j) (us ! i) = Some e" unfolding i(2) by (rule each [OF i(1)])
    note ue = ue1 entries_of_id [OF ue1]
    have "lib_uuid_text L (us ! i) \<in> set (map r_id (take 1000 (by_age ?N)))"
      unfolding us [symmetric] using i len by simp
    then obtain r where r: "r \<in> set ?N" "r_id r = lib_uuid_text L (us ! i)"
      by (auto simp: by_age_def dest!: in_set_takeD)
    obtain q where q: "List.find (\<lambda>r. r_id r = lib_uuid_text L (us ! i)) (j_rows j) = Some q" "r_state q = as_str (e_state e)"
      using found_entry [OF ok ue(1)] by metis
    have "r \<in> set (j_rows j)" using r(1) by (simp add: nonterminal_rows_def)
    from find_row [OF ok this] have qr: "q = r" using q(1) unfolding r(2) by simp
    have "\<not> terminal_text (r_state r)" using r(1) by (simp add: nonterminal_rows_def)
    then have "\<not> terminal (e_state e)" using q(2) unfolding qr by simp
    moreover have "entries_of L (j_rows j) (e_id e) = Some e" unfolding ue(2) by (rule ue(1))
    ultimately show "entries_of L (j_rows j) (e_id e) = Some e \<and> \<not> terminal (e_state e)" by blast
  qed
qed

end

end
