(* ===== verification/Reference_Os.thy ===== *)
theory Reference_Os
  imports World "HOL-Library.AList"
begin

text \<open>
  An executable operating system that satisfies the contract \<open>posix\<close>: an in-memory tree of
  directories, entries and files on several devices, a clock, a supply of inode numbers and
  UUIDs, and a list of injected failures, one per call
  (a missing file is never injected: \<open>NOENT\<close> is reported only where an entry is absent). It shows that the contract can hold
  and instantiates the world of the witnesses; it stands for no code of the repository.
\<close>

record sim =
  sim_entries :: "((obj \<times> string) \<times> obj) list"
  sim_files :: "(obj \<times> vfile) list"
  sim_dirs :: "(string \<times> obj) list"
  sim_state :: "bytes option"
  sim_next :: "bytes option"
  sim_faults :: "errno option list" \<comment> \<open>head: the outcome forced on the next call\<close>
  sim_clock :: int
  sim_inodes :: "u64 list"
  sim_uuids :: "uuid list"
  sim_reply :: "(bool \<times> bytes) option" \<comment> \<open>the agent's exit and output, if it exits\<close>

definition sim_view :: "sim \<Rightarrow> fsview" where
  "sim_view s = \<lparr>v_entry = (\<lambda>d n. map_of (sim_entries s) (d, n)), v_file = map_of (sim_files s),
     v_dirpath = map_of (sim_dirs s), v_state = sim_state s, v_next = sim_next s\<rparr>"

definition next_fault :: "sim \<Rightarrow> errno option \<times> sim" where
  "next_fault s = (case sim_faults s of [] \<Rightarrow> (None, s)
     | f # fs \<Rightarrow> (if f = Some NOENT then None else f, s\<lparr>sim_faults := fs\<rparr>))"

definition sim_call :: "(sim, errno, 'a) io \<Rightarrow> (sim, errno, 'a) io" where
  "sim_call body s = (case next_fault s of (Some e, s') \<Rightarrow> (Inl e, s') | (None, s') \<Rightarrow> body s')"

definition observe :: "(sim \<Rightarrow> errno + 'a) \<Rightarrow> (sim, errno, 'a) io" where
  "observe f = sim_call (\<lambda>s. (f s, s))"

definition sim_stat_of :: "sim \<Rightarrow> obj \<Rightarrow> stat" where
  "sim_stat_of s x = (case map_of (sim_files s) x of
     Some f \<Rightarrow> \<lparr>st_type = FRegular, st_nlink = f_nlink f, st_size = int (length (f_data f)),
       st_dev = dev_of x, st_ino = ino_of x, st_mtime = f_mtime f, st_mtime_nsec = f_mtime_nsec f,
       st_atime = f_atime f, st_atime_nsec = f_atime_nsec f, st_mode = f_mode f\<rparr>
   | None \<Rightarrow> \<lparr>st_type = FDirectory, st_nlink = 2, st_size = 4096, st_dev = dev_of x, st_ino = ino_of x,
       st_mtime = 0, st_mtime_nsec = 0, st_atime = 0, st_atime_nsec = 0, st_mode = 493\<rparr>)"

definition sim_lookup :: "sim \<Rightarrow> string \<Rightarrow> errno + obj" where
  "sim_lookup s p = (case v_lookup (sim_view s) p of None \<Rightarrow> Inl NOENT | Some x \<Rightarrow> Inr x)"

fun sim_walk :: "sim \<Rightarrow> obj \<Rightarrow> component list \<Rightarrow> errno + obj" where
  "sim_walk s d [] = Inr d"
| "sim_walk s d (Normal n # cs) =
     (case map_of (sim_entries s) (d, n) of None \<Rightarrow> Inl NOENT | Some x \<Rightarrow> sim_walk s x cs)"
| "sim_walk s d (_ # cs) = Inl XDEV"

fun read_chunks :: "nat \<Rightarrow> bytes \<Rightarrow> bytes list" where
  "read_chunks 0 b = []"
| "read_chunks (Suc k) b =
     (if b = [] then [] else take 65536 b # read_chunks k (drop 65536 b))"

definition sim_set_file :: "obj \<Rightarrow> (vfile \<Rightarrow> vfile) \<Rightarrow> (sim, errno, unit) io" where
  "sim_set_file x g = sim_call (\<lambda>s. case map_of (sim_files s) x of None \<Rightarrow> (Inl NOENT, s)
     | Some f \<Rightarrow> (Inr (), s\<lparr>sim_files := AList.update x (g f) (sim_files s)\<rparr>))"

definition sim_rename :: "obj \<Rightarrow> string \<Rightarrow> obj \<Rightarrow> string \<Rightarrow> (sim, errno, unit) io" where
  "sim_rename d n d' n' = sim_call (\<lambda>s. case map_of (sim_entries s) (d, n) of None \<Rightarrow> (Inl NOENT, s)
     | Some x \<Rightarrow> if map_of (sim_entries s) (d', n') \<noteq> None then (Inl EXIST, s)
         else if dev_of d \<noteq> dev_of d' then (Inl XDEV, s)
         else (Inr (), s\<lparr>sim_entries :=
           AList.update (d', n') x (AList.delete (d, n) (sim_entries s))\<rparr>))"

definition sim_create :: "obj \<Rightarrow> string \<Rightarrow> u32 \<Rightarrow> (sim, errno, obj) io" where
  "sim_create d n md = sim_call (\<lambda>s.
     if map_of (sim_entries s) (d, n) \<noteq> None then (Inl EXIST, s)
     else (case sim_inodes s of [] \<Rightarrow> (Inl (ERRNO 28), s)
       | i # rest \<Rightarrow> let x = Obj (dev_of d) i in
           if x \<in> snd ` set (sim_entries s) \<or> x \<in> fst ` set (sim_files s) then (Inl (ERRNO 5), s)
           else (Inr x, s\<lparr>sim_inodes := rest, sim_entries := AList.update (d, n) x (sim_entries s),
             sim_files := AList.update x \<lparr>f_data = [], f_nlink = 1, f_mtime = 0, f_mtime_nsec = 0,
               f_atime = 0, f_atime_nsec = 0, f_mode = md\<rparr> (sim_files s)\<rparr>)))"

definition drop_unlinked :: "obj \<Rightarrow> ((obj \<times> string) \<times> obj) list \<Rightarrow> (obj \<times> vfile) list \<Rightarrow> (obj \<times> vfile) list" where
  "drop_unlinked x es fs = (if x \<in> snd ` set es then fs else AList.delete x fs)"

definition sim_unlink :: "obj \<Rightarrow> string \<Rightarrow> (sim, errno, unit) io" where
  "sim_unlink d n = sim_call (\<lambda>s. case map_of (sim_entries s) (d, n) of None \<Rightarrow> (Inl NOENT, s)
     | Some x \<Rightarrow> (Inr (), s\<lparr>sim_entries := AList.delete (d, n) (sim_entries s),
         sim_files := drop_unlinked x (AList.delete (d, n) (sim_entries s)) (sim_files s)\<rparr>))"

definition sim_at :: "string \<Rightarrow> (obj \<Rightarrow> string \<Rightarrow> (sim, errno, 'a) io) \<Rightarrow> (sim, errno, 'a) io" where
  "sim_at p m s = (case v_resolve (sim_view s) p of None \<Rightarrow> (Inl NOENT, s) | Some (d, n) \<Rightarrow> m d n s)"

definition sim_names :: "sim \<Rightarrow> obj \<Rightarrow> (errno + string \<times> (errno + ftype)) list" where
  "sim_names s d = map (\<lambda>((_, n), x). Inr (n, Inr (st_type (sim_stat_of s x))))
     (filter (\<lambda>((d', n), x). d' = d) (sim_entries s))"

definition sim_os :: "sim os" where
  "sim_os = \<lparr>
     os_lstat = (\<lambda>p. observe (\<lambda>s. case sim_lookup s p of Inl e \<Rightarrow> Inl e | Inr x \<Rightarrow> Inr (sim_stat_of s x))),
     os_stat = (\<lambda>p. observe (\<lambda>s. case map_of (sim_dirs s) p of Some d \<Rightarrow> Inr (sim_stat_of s d)
        | None \<Rightarrow> (case sim_lookup s p of Inl e \<Rightarrow> Inl e | Inr x \<Rightarrow> Inr (sim_stat_of s x)))),
     os_open_dir = (\<lambda>p. observe (\<lambda>s. case map_of (sim_dirs s) p of None \<Rightarrow> Inl NOENT | Some d \<Rightarrow> Inr d)),
     os_open_file = (\<lambda>p. observe (\<lambda>s. sim_lookup s p)),
     os_openat2 = (\<lambda>d p fl rs. observe (\<lambda>s. sim_walk s d (components p))),
     os_fstat = (\<lambda>x. observe (\<lambda>s. Inr (sim_stat_of s x))),
     os_rename_noreplace = sim_rename,
     os_fsync = (\<lambda>x. observe (\<lambda>s. Inr ())),
     os_create_excl = sim_create,
     os_dup = (\<lambda>x. observe (\<lambda>s. Inr x)),
     os_reads = (\<lambda>x s. (case next_fault s of (Some e, s') \<Rightarrow> ([Inl e], s')
        | (None, s') \<Rightarrow> (case map_of (sim_files s) x of None \<Rightarrow> [Inl (ERRNO 21)]
            | Some f \<Rightarrow> map Inr (read_chunks (length (f_data f)) (f_data f)), s'))),
     os_read_once = (\<lambda>x k. observe (\<lambda>s. case map_of (sim_files s) x of None \<Rightarrow> Inl (ERRNO 21)
        | Some f \<Rightarrow> Inr (take k (f_data f)))),
     os_write = (\<lambda>x b. sim_set_file x (\<lambda>f. f\<lparr>f_data := f_data f @ b\<rparr>)),
     os_flush = (\<lambda>x. sim_set_file x (\<lambda>f. f)),
     os_fchmod = (\<lambda>x md. sim_set_file x (\<lambda>f. f\<lparr>f_mode := md\<rparr>)),
     os_futimens = (\<lambda>x ta tm. sim_set_file x (\<lambda>f. f\<lparr>f_atime := fst ta, f_atime_nsec := snd ta,
        f_mtime := fst tm, f_mtime_nsec := snd tm\<rparr>)),
     os_unlinkat = sim_unlink,
     os_rename_path = (\<lambda>p p'. sim_at p (\<lambda>d n. sim_at p' (sim_rename d n))),
     os_create_path = (\<lambda>p md. sim_at p (\<lambda>d n. sim_create d n md)),
     os_remove_path = (\<lambda>p. sim_at p sim_unlink),
     os_read_dir = (\<lambda>p. observe (\<lambda>s. case map_of (sim_dirs s) p of None \<Rightarrow> Inl NOENT
        | Some d \<Rightarrow> Inr (sim_names s d))),
     os_canonicalize = (\<lambda>p. observe (\<lambda>s. Inr p)),
     os_now = (\<lambda>s. (sim_clock s, s\<lparr>sim_clock := sim_clock s + 1000000000\<rparr>)),
     os_new_uuid = (\<lambda>s. (case sim_uuids s of [] \<Rightarrow> (0, s) | u # us \<Rightarrow> (u, s\<lparr>sim_uuids := us\<rparr>))),
     os_db = (\<lambda>s. case next_fault s of (None, s') \<Rightarrow> (None, s') | (Some e, s') \<Rightarrow> (Some (DbError 0), s')),
     os_epoch = (\<lambda>s. (sim_clock s div 1000000000, s)),
     os_file_len = (\<lambda>p. observe (\<lambda>s. Inr 0)),
     os_next_open = sim_call (\<lambda>s. (Inr (), s\<lparr>sim_next := Some []\<rparr>)),
     os_next_write = (\<lambda>b. sim_call (\<lambda>s. (Inr (), s\<lparr>sim_next := Some b\<rparr>))),
     os_next_sync = observe (\<lambda>s. Inr ()),
     os_next_rename = sim_call (\<lambda>s. (Inr (), s\<lparr>sim_state := sim_next s, sim_next := None\<rparr>)),
     os_state_dir_sync = observe (\<lambda>s. Inr ()),
     os_state_mkdir = observe (\<lambda>s. Inr ()),
     os_state_exists = (\<lambda>s. case next_fault s of (Some e, s') \<Rightarrow> (False, s') | (None, s') \<Rightarrow> (sim_state s' \<noteq> None, s')),
     os_state_open = observe (\<lambda>s. if sim_state s = None then Inl NOENT else Inr ()),
     os_state_len = observe (\<lambda>s. case sim_state s of None \<Rightarrow> Inl NOENT | Some b \<Rightarrow> Inr (word_of_nat (length b))),
     os_state_read = (\<lambda>k. observe (\<lambda>s. case sim_state s of None \<Rightarrow> Inl NOENT | Some b \<Rightarrow> Inr (take k b))),
     os_spawn = (\<lambda>x as. observe (\<lambda>s. Inr ())),
     os_child_write = (\<lambda>b. observe (\<lambda>s. Inr ())),
     os_child_polls = (\<lambda>s. (case sim_reply s of Some _ \<Rightarrow> Exited | None \<Rightarrow> Running 30000 Exited, s)),
     os_child_kill = observe (\<lambda>s. Inr ()),
     os_child_wait = observe (\<lambda>s. Inr ()),
     os_child_output = observe (\<lambda>s. case sim_reply s of None \<Rightarrow> Inl (ERRNO 10) | Some r \<Rightarrow> Inr r)\<rparr>"

section \<open>The contract holds\<close>

lemma next_fault_view: "next_fault s = (f, s') \<Longrightarrow> sim_view s' = sim_view s"
  by (auto simp: next_fault_def sim_view_def split: list.splits)

lemma next_fault_frame:
  "next_fault s = (f, s') \<Longrightarrow> sim_entries s' = sim_entries s \<and> sim_files s' = sim_files s \<and>
     sim_dirs s' = sim_dirs s \<and> sim_state s' = sim_state s \<and> sim_next s' = sim_next s"
  by (auto simp: next_fault_def split: list.splits)

lemma next_fault_noent: "next_fault s = (Some e, s') \<Longrightarrow> e \<noteq> NOENT"
  by (auto simp: next_fault_def split: list.splits if_splits)

lemma observe_iff:
  assumes "observe f s = (r, s')"
  shows "sim_view s' = sim_view s \<and> ((\<exists>e. r = Inl e \<and> e \<noteq> NOENT) \<or> r = f s')"
proof -
  obtain fo s1 where n: "next_fault s = (fo, s1)" by fastforce
  show ?thesis
  proof (cases fo)
    case None
    with assms n have "r = f s'" and "s1 = s'" by (auto simp: observe_def sim_call_def)
    with next_fault_view [OF n] show ?thesis by simp
  next
    case (Some e)
    with assms n have "r = Inl e" and "s1 = s'" by (auto simp: observe_def sim_call_def)
    with next_fault_view [OF n] next_fault_noent [of s e s1] n Some show ?thesis by auto
  qed
qed

lemma observe_view: "observe f s = (r, s') \<Longrightarrow> sim_view s' = sim_view s"
  by (drule observe_iff) blast

lemma observe_ok: "observe f s = (Inr x, s') \<Longrightarrow> f s' = Inr x"
  by (drule observe_iff) auto

lemma observe_noent: "observe f s = (Inl NOENT, s') \<Longrightarrow> f s' = Inl NOENT"
  by (drule observe_iff) auto

lemma sim_lookup_view: "sim_lookup s p = Inr x \<longleftrightarrow> v_lookup (sim_view s) p = Some x"
  by (auto simp: sim_lookup_def split: option.splits)

lemma sim_stat_of_file:
  "case v_file (sim_view s) x of Some f \<Rightarrow> stat_of x f (sim_stat_of s x)
   | None \<Rightarrow> st_type (sim_stat_of s x) \<noteq> FRegular"
  by (auto simp: sim_view_def sim_stat_of_def stat_of_def split: option.splits)

lemma sim_stat_of_ids [simp]: "st_dev (sim_stat_of s x) = dev_of x" "st_ino (sim_stat_of s x) = ino_of x"
  by (auto simp: sim_stat_of_def split: option.splits)

lemma concat_read_chunks: "length b \<le> k \<Longrightarrow> concat (read_chunks k b) = b"
proof (induction k arbitrary: b)
  case (Suc k)
  show ?case
  proof (cases "b = []")
    case False
    then have "length (drop 65536 b) \<le> k" using Suc.prems by (cases b) auto
    with False Suc.IH show ?thesis by (simp del: drop_append)
  qed simp
qed simp

lemma sim_set_file_changes:
  assumes "sim_set_file x g s = (r, s')" and "v_file (sim_view s) x = Some f"
  shows "\<exists>f'. sim_view s' = set_file x (Some f') (sim_view s)"
proof -
  obtain fo s1 where n: "next_fault s = (fo, s1)" by fastforce
  have v1: "sim_view s1 = sim_view s" using n by (rule next_fault_view)
  then have f: "map_of (sim_files s1) x = Some f" using assms(2) by (metis sim_view_def fsview.select_convs(2))
  show ?thesis
  proof (cases fo)
    case None
    with assms(1) n f have "s' = s1\<lparr>sim_files := AList.update x (g f) (sim_files s1)\<rparr>"
      by (auto simp: sim_set_file_def sim_call_def)
    then have "sim_view s' = set_file x (Some (g f)) (sim_view s1)"
      by (simp add: sim_view_def set_file_def update_conv')
    with v1 show ?thesis by auto
  next
    case (Some e)
    with assms(1) n have "s' = s1" by (auto simp: sim_set_file_def sim_call_def)
    with v1 assms(2) have "sim_view s' = set_file x (Some f) (sim_view s)"
      by (simp add: set_file_def fun_upd_idem)
    then show ?thesis by blast
  qed
qed

lemma sim_call_cases:
  assumes "sim_call body s = (r, s')"
  obtains e s1 where "r = Inl e" "s' = s1" "sim_view s1 = sim_view s"
  | s1 where "body s1 = (r, s')" "sim_view s1 = sim_view s"
proof -
  obtain fo s1 where n: "next_fault s = (fo, s1)" by fastforce
  show thesis
  proof (cases fo)
    case None
    with assms n have "body s1 = (r, s')" by (simp add: sim_call_def)
    with that(2) next_fault_view [OF n] show thesis by blast
  next
    case (Some e)
    with assms n have "r = Inl e" "s' = s1" by (auto simp: sim_call_def)
    with that(1) next_fault_view [OF n] show thesis by blast
  qed
qed

lemma sim_call_ok:
  "sim_call body s = (Inr x, s') \<Longrightarrow> \<exists>s1. sim_view s1 = sim_view s \<and> body s1 = (Inr x, s')"
  by (erule sim_call_cases) auto

lemma sim_rename_err: "sim_rename d n d' n' s = (Inl e, s') \<Longrightarrow> sim_view s' = sim_view s"
  unfolding sim_rename_def
  by (erule sim_call_cases) (auto split: option.splits if_splits)

lemma sim_rename_ok:
  assumes "sim_rename d n d' n' s = (Inr (), s')"
  shows "\<exists>x. v_entry (sim_view s) d n = Some x \<and> v_entry (sim_view s) d' n' = None \<and>
    sim_view s' = move_entry d n d' n' (sim_view s)"
proof -
  from sim_call_ok [OF assms [unfolded sim_rename_def]] obtain s1 where "sim_view s1 = sim_view s"
    and b: "(case map_of (sim_entries s1) (d, n) of None \<Rightarrow> (Inl NOENT, s1)
     | Some x \<Rightarrow> if map_of (sim_entries s1) (d', n') \<noteq> None then (Inl EXIST, s1)
         else if dev_of d \<noteq> dev_of d' then (Inl XDEV, s1)
         else (Inr (), s1\<lparr>sim_entries :=
           AList.update (d', n') x (AList.delete (d, n) (sim_entries s1))\<rparr>)) = (Inr (), s')"
    by blast
  then obtain x where x: "map_of (sim_entries s1) (d, n) = Some x"
    by (cases "map_of (sim_entries s1) (d, n)") auto
  with b have free: "map_of (sim_entries s1) (d', n') = None"
    by (cases "map_of (sim_entries s1) (d', n')") auto
  with b x have s': "s' = s1\<lparr>sim_entries := AList.update (d', n') x (AList.delete (d, n) (sim_entries s1))\<rparr>"
    by (auto split: if_splits)
  have "sim_view s' = move_entry d n d' n' (sim_view s1)"
    using x by (auto simp: s' sim_view_def move_entry_def set_entry_def update_conv' delete_conv' fun_eq_iff)
  moreover have "v_entry (sim_view s1) d n = Some x" "v_entry (sim_view s1) d' n' = None"
    using x free by (simp_all add: sim_view_def)
  ultimately show ?thesis using \<open>sim_view s1 = sim_view s\<close> by auto
qed

lemma sim_create_err: "sim_create d n md s = (Inl e, s') \<Longrightarrow> sim_view s' = sim_view s"
  unfolding sim_create_def
  by (erule sim_call_cases) (auto simp: Let_def split: option.splits if_splits list.splits)

lemma sim_create_ok:
  assumes "sim_create d n md s = (Inr x, s')"
  shows "v_entry (sim_view s) d n = None \<and> v_file (sim_view s) x = None \<and>
    (\<forall>e m. v_entry (sim_view s) e m \<noteq> Some x) \<and>
    (\<exists>f. sim_view s' = set_entry d n (Some x) (set_file x (Some f) (sim_view s)))"
proof -
  from sim_call_ok [OF assms [unfolded sim_create_def]] obtain s1 where v: "sim_view s1 = sim_view s"
    and b: "(if map_of (sim_entries s1) (d, n) \<noteq> None then (Inl EXIST, s1)
     else (case sim_inodes s1 of [] \<Rightarrow> (Inl (ERRNO 28), s1)
       | i # rest \<Rightarrow> let x = Obj (dev_of d) i in
           if x \<in> snd ` set (sim_entries s1) \<or> x \<in> fst ` set (sim_files s1) then (Inl (ERRNO 5), s1)
           else (Inr x, s1\<lparr>sim_inodes := rest, sim_entries := AList.update (d, n) x (sim_entries s1),
             sim_files := AList.update x \<lparr>f_data = [], f_nlink = 1, f_mtime = 0, f_mtime_nsec = 0,
               f_atime = 0, f_atime_nsec = 0, f_mode = md\<rparr> (sim_files s1)\<rparr>))) = (Inr x, s')"
    by blast
  from b have free: "map_of (sim_entries s1) (d, n) = None"
    by (cases "map_of (sim_entries s1) (d, n)") auto
  with b obtain i rest where i: "sim_inodes s1 = i # rest" by (cases "sim_inodes s1") auto
  with b free have x: "x = Obj (dev_of d) i" by (auto simp: Let_def split: if_splits)
  define f where "f = \<lparr>f_data = [], f_nlink = (1::u64), f_mtime = (0::int), f_mtime_nsec = (0::int),
    f_atime = (0::int), f_atime_nsec = (0::int), f_mode = md\<rparr>"
  from b free i x have fresh: "x \<notin> snd ` set (sim_entries s1)" "x \<notin> fst ` set (sim_files s1)"
    and s': "s' = s1\<lparr>sim_inodes := rest, sim_entries := AList.update (d, n) x (sim_entries s1),
      sim_files := AList.update x f (sim_files s1)\<rparr>"
    by (auto simp: Let_def f_def split: if_splits)
  have "sim_view s' = set_entry d n (Some x) (set_file x (Some f) (sim_view s1))"
    by (auto simp: s' sim_view_def set_entry_def set_file_def update_conv' fun_eq_iff)
  moreover have "v_file (sim_view s1) x = None"
    using fresh(2) by (simp add: sim_view_def map_of_eq_None_iff)
  moreover have "v_entry (sim_view s1) e m \<noteq> Some x" for e m
    using fresh(1) by (auto simp: sim_view_def dest!: map_of_SomeD) force
  moreover have "v_entry (sim_view s1) d n = None" using free by (simp add: sim_view_def)
  ultimately show ?thesis using v by auto
qed

lemma sim_unlink_err: "sim_unlink d n s = (Inl e, s') \<Longrightarrow> sim_view s' = sim_view s"
  unfolding sim_unlink_def by (erule sim_call_cases) (auto split: option.splits)

lemma sim_unlink_ok:
  assumes "sim_unlink d n s = (Inr (), s')"
  shows "\<exists>x fo. v_entry (sim_view s) d n = Some x \<and>
    sim_view s' = set_entry d n None (set_file x fo (sim_view s)) \<and>
    (fo = v_file (sim_view s) x \<or> (fo = None \<and> (\<forall>e m. v_entry (sim_view s) e m = Some x \<longrightarrow> e = d \<and> m = n)))"
proof -
  from sim_call_ok [OF assms [unfolded sim_unlink_def]] obtain s1 where v: "sim_view s1 = sim_view s"
    and b: "(case map_of (sim_entries s1) (d, n) of None \<Rightarrow> (Inl NOENT, s1)
     | Some x \<Rightarrow> (Inr (), s1\<lparr>sim_entries := AList.delete (d, n) (sim_entries s1),
         sim_files := drop_unlinked x (AList.delete (d, n) (sim_entries s1)) (sim_files s1)\<rparr>)) = (Inr (), s')"
    by blast
  then obtain x where x: "map_of (sim_entries s1) (d, n) = Some x"
    by (cases "map_of (sim_entries s1) (d, n)") auto
  define rest where "rest = AList.delete (d, n) (sim_entries s1)"
  have s': "s' = s1\<lparr>sim_entries := rest, sim_files := drop_unlinked x rest (sim_files s1)\<rparr>"
    using b x unfolding rest_def by simp
  have e: "v_entry (sim_view s) d n = Some x" using x v [symmetric] by (simp add: sim_view_def)
  have r: "map_of rest = (map_of (sim_entries s1))((d, n) := None)" by (simp add: rest_def delete_conv')
  have c: "sim_view s' = set_entry d n None (set_file x (map_of (drop_unlinked x rest (sim_files s1)) x) (sim_view s))"
    using r unfolding v [symmetric]
    by (auto simp: s' sim_view_def set_entry_def set_file_def drop_unlinked_def delete_conv' fun_eq_iff)
  show ?thesis
  proof (cases "x \<in> snd ` set rest")
    case True
    then have "map_of (drop_unlinked x rest (sim_files s1)) x = v_file (sim_view s) x"
      unfolding v [symmetric] by (simp add: drop_unlinked_def sim_view_def)
    with e c show ?thesis by metis
  next
    case False
    then have "map_of (drop_unlinked x rest (sim_files s1)) x = None"
      by (simp add: drop_unlinked_def delete_conv')
    moreover have "e' = d \<and> m = n" if "v_entry (sim_view s) e' m = Some x" for e' m
    proof (rule ccontr)
      assume ne: "\<not> (e' = d \<and> m = n)"
      have "map_of (sim_entries s1) (e', m) = Some x"
        using that unfolding v [symmetric] by (simp add: sim_view_def)
      with ne r have "map_of rest (e', m) = Some x" by auto
      then have "((e', m), x) \<in> set rest" by (rule map_of_SomeD)
      then have "x \<in> snd ` set rest" by (metis snd_conv image_eqI)
      then show False using False by simp
    qed
    ultimately show ?thesis using e c by metis
  qed
qed

lemma sim_os_reads:
  "os_reads sim_os x s = (rs, s') \<Longrightarrow> sim_view s' = sim_view s \<and>
     (rs = map Inr cs \<longrightarrow> v_file (sim_view s) x = Some f \<longrightarrow> concat cs = f_data f)"
proof -
  assume r: "os_reads sim_os x s = (rs, s')"
  obtain fo s1 where n: "next_fault s = (fo, s1)" by fastforce
  have v1: "sim_view s1 = sim_view s" using n by (rule next_fault_view)
  have s': "s' = s1" using r n by (auto simp: sim_os_def split: option.splits)
  show ?thesis
  proof (intro conjI impI)
    show "sim_view s' = sim_view s" using s' v1 by simp
    assume m: "rs = map Inr cs" and f: "v_file (sim_view s) x = Some f"
    have fo: "fo = None" using r n m by (cases fo; cases cs) (auto simp: sim_os_def)
    have "map_of (sim_files s) x = Some f" using f by (simp add: sim_view_def)
    with r n m fo have "map Inr cs = (map Inr (read_chunks (length (f_data f)) (f_data f)) :: (errno + bytes) list)"
      by (simp add: sim_os_def)
    then have "cs = read_chunks (length (f_data f)) (f_data f)" by (rule map_injective) (simp add: inj_def)
    then show "concat cs = f_data f" by (simp add: concat_read_chunks)
  qed
qed

lemma sim_names_set: "fst ` set es = dom (v_entry (sim_view s) d)" if "sim_names s d = map Inr es"
proof -
  have "set es = {(n, Inr (st_type (sim_stat_of s x))) | n x. ((d, n), x) \<in> set (sim_entries s)}"
  proof -
    have "Inr ` set es = set (sim_names s d)" using that by simp
    also have "\<dots> = Inr ` {(n, Inr (st_type (sim_stat_of s x))) | n x. ((d, n), x) \<in> set (sim_entries s)}"
      unfolding sim_names_def by (force simp: image_iff)
    finally show ?thesis by (simp add: inj_image_eq_iff inj_def)
  qed
  then have "fst ` set es = {n. \<exists>x. ((d, n), x) \<in> set (sim_entries s)}" by force
  also have "\<dots> = dom (v_entry (sim_view s) d)"
  proof (rule set_eqI)
    fix n
    have "n \<in> dom (v_entry (sim_view s) d) \<longleftrightarrow> (d, n) \<in> fst ` set (sim_entries s)"
      by (simp add: sim_view_def domIff map_of_eq_None_iff del: not_None_eq)
    then show "n \<in> {n. \<exists>x. ((d, n), x) \<in> set (sim_entries s)} \<longleftrightarrow> n \<in> dom (v_entry (sim_view s) d)"
      by force
  qed
  finally show ?thesis .
qed

lemma sim_walk_entry: "entry_name n \<Longrightarrow> sim_walk s d (components n) = Inr x \<Longrightarrow> v_entry (sim_view s) d n = Some x"
  by (auto simp: components_entry sim_view_def split: option.splits)

lemma sim_lstat_iff:
  assumes "os_lstat sim_os p w = (r, w')"
  shows "sim_view w' = sim_view w"
    and "r = Inr s \<Longrightarrow> \<exists>x. v_lookup (sim_view w) p = Some x \<and> st_dev s = dev_of x \<and> st_ino s = ino_of x \<and>
      (case v_file (sim_view w) x of Some f \<Rightarrow> stat_of x f s | None \<Rightarrow> st_type s \<noteq> FRegular)"
    and "r = Inl NOENT \<Longrightarrow> v_lookup (sim_view w) p = None"
proof -
  let ?f = "\<lambda>s. case sim_lookup s p of Inl e \<Rightarrow> Inl e | Inr x \<Rightarrow> Inr (sim_stat_of s x)"
  have o: "observe ?f w = (r, w')" using assms by (simp add: sim_os_def)
  then show v: "sim_view w' = sim_view w" by (rule observe_view)
  show "\<exists>x. v_lookup (sim_view w) p = Some x \<and> st_dev s = dev_of x \<and> st_ino s = ino_of x \<and>
      (case v_file (sim_view w) x of Some f \<Rightarrow> stat_of x f s | None \<Rightarrow> st_type s \<noteq> FRegular)"
    if "r = Inr s"
  proof -
    from o that have "?f w' = Inr s" by (auto dest: observe_ok)
    then obtain x where x: "sim_lookup w' p = Inr x" and s: "s = sim_stat_of w' x"
      by (auto split: sum.splits)
    from x have "v_lookup (sim_view w) p = Some x" by (simp add: sim_lookup_view v)
    moreover note sim_stat_of_file [of w' x]
    ultimately show ?thesis unfolding s v by auto
  qed
  show "v_lookup (sim_view w) p = None" if "r = Inl NOENT"
    using observe_noent [OF o [unfolded that]]
    by (cases "v_lookup (sim_view w') p") (auto simp: sim_lookup_def v)
qed

lemma sim_open_dir_ok: "os_open_dir sim_os p w = (Inr d, w') \<Longrightarrow> v_dirpath (sim_view w) p = Some d"
proof -
  assume "os_open_dir sim_os p w = (Inr d, w')"
  then have o: "observe (\<lambda>s. case map_of (sim_dirs s) p of None \<Rightarrow> Inl NOENT | Some d \<Rightarrow> Inr d) w = (Inr d, w')"
    by (simp add: sim_os_def)
  then have "v_dirpath (sim_view w') p = Some d"
    by (auto dest!: observe_ok simp: sim_view_def split: option.splits)
  with observe_view [OF o] show ?thesis by simp
qed

lemma sim_open_file_ok:
  "os_open_file sim_os p w = (Inr x, w') \<Longrightarrow> v_lookup (sim_view w) p = Some y \<Longrightarrow> x = y"
proof -
  assume "os_open_file sim_os p w = (Inr x, w')" and y: "v_lookup (sim_view w) p = Some y"
  then have o: "observe (\<lambda>s. sim_lookup s p) w = (Inr x, w')" by (simp add: sim_os_def)
  then have "v_lookup (sim_view w') p = Some x" by (auto dest!: observe_ok simp: sim_lookup_view)
  with observe_view [OF o] y show ?thesis by simp
qed

lemma sim_openat2_ok:
  "os_openat2 sim_os d n fl rs w = (Inr x, w') \<Longrightarrow> entry_name n \<Longrightarrow> v_entry (sim_view w) d n = Some x"
proof -
  assume "os_openat2 sim_os d n fl rs w = (Inr x, w')" and n: "entry_name n"
  then have o: "observe (\<lambda>s. sim_walk s d (components n)) w = (Inr x, w')" by (simp add: sim_os_def)
  then have "v_entry (sim_view w') d n = Some x" by (auto dest!: observe_ok sim_walk_entry [OF n])
  with observe_view [OF o] show ?thesis by simp
qed

lemma sim_fstat_ok:
  "os_fstat sim_os x w = (Inr s, w') \<Longrightarrow> st_dev s = dev_of x \<and> st_ino s = ino_of x \<and>
     (case v_file (sim_view w) x of Some f \<Rightarrow> stat_of x f s | None \<Rightarrow> True)"
proof -
  assume "os_fstat sim_os x w = (Inr s, w')"
  then have o: "observe (\<lambda>s. Inr (sim_stat_of s x)) w = (Inr s, w')" by (simp add: sim_os_def)
  then have "s = sim_stat_of w' x" by (auto dest!: observe_ok)
  with observe_view [OF o] sim_stat_of_file [of w' x] show ?thesis by (auto split: option.splits)
qed

lemma sim_read_dir_ok:
  "os_read_dir sim_os p w = (Inr (map Inr es), w') \<Longrightarrow>
     \<exists>d. v_dirpath (sim_view w) p = Some d \<and> fst ` set es = dom (v_entry (sim_view w) d)"
proof -
  assume "os_read_dir sim_os p w = (Inr (map Inr es), w')"
  then have o: "observe (\<lambda>s. case map_of (sim_dirs s) p of None \<Rightarrow> Inl NOENT
      | Some d \<Rightarrow> Inr (sim_names s d)) w = (Inr (map Inr es), w')"
    by (simp add: sim_os_def)
  then obtain d where "v_dirpath (sim_view w') p = Some d" and "sim_names w' d = map Inr es"
    by (auto dest!: observe_ok simp: sim_view_def split: option.splits)
  with observe_view [OF o] sim_names_set show ?thesis by metis
qed

lemma sim_call_run:
  assumes "sim_call body s = (r, s')"
  obtains e where "r = Inl e" "sim_view s' = sim_view s"
  | s1 where "body s1 = (r, s')" "sim_view s1 = sim_view s" "sim_next s1 = sim_next s"
      "sim_state s1 = sim_state s"
proof -
  obtain fo s1 where n: "next_fault s = (fo, s1)" by fastforce
  show thesis
  proof (cases fo)
    case None
    with assms n have "body s1 = (r, s')" by (simp add: sim_call_def)
    with that(2) next_fault_view [OF n] next_fault_frame [OF n] show thesis by blast
  next
    case (Some e)
    with assms n have "r = Inl e" "s' = s1" by (auto simp: sim_call_def)
    with that(1) next_fault_view [OF n] show thesis by blast
  qed
qed

lemma v_next_same: "v\<lparr>v_next := v_next v\<rparr> = v"
  by simp

lemma sim_next_open: "os_next_open sim_os w = (u, w') \<Longrightarrow> \<exists>c. sim_view w' = (sim_view w)\<lparr>v_next := c\<rparr>"
proof -
  assume "os_next_open sim_os w = (u, w')"
  then have "sim_call (\<lambda>s. (Inr (), s\<lparr>sim_next := Some []\<rparr>)) w = (u, w')" by (simp add: sim_os_def)
  then show ?thesis
  proof (cases rule: sim_call_run)
    case (1 e)
    then show ?thesis using v_next_same [of "sim_view w"] by metis
  next
    case (2 s1)
    then have "sim_view w' = (sim_view s1)\<lparr>v_next := Some []\<rparr>" by (auto simp: sim_view_def)
    with 2 show ?thesis by auto
  qed
qed

lemma sim_next_write:
  assumes "os_next_write sim_os b w = (u, w')"
  shows "u = Inr () \<Longrightarrow> sim_view w' = (sim_view w)\<lparr>v_next := Some b\<rparr>"
    and "u = Inl e \<Longrightarrow> \<exists>c. sim_view w' = (sim_view w)\<lparr>v_next := c\<rparr>"
proof -
  have c: "sim_call (\<lambda>s. (Inr (), s\<lparr>sim_next := Some b\<rparr>)) w = (u, w')" using assms by (simp add: sim_os_def)
  show "sim_view w' = (sim_view w)\<lparr>v_next := Some b\<rparr>" if "u = Inr ()"
    using c
  proof (cases rule: sim_call_run)
    case (2 s1)
    then have "sim_view w' = (sim_view s1)\<lparr>v_next := Some b\<rparr>" by (auto simp: sim_view_def)
    with 2 show ?thesis by simp
  qed (simp add: that)
  show "\<exists>c. sim_view w' = (sim_view w)\<lparr>v_next := c\<rparr>" if "u = Inl e"
    using c
  proof (cases rule: sim_call_run)
    case 1
    then show ?thesis using v_next_same [of "sim_view w"] by metis
  qed (simp add: that)
qed

lemma sim_next_rename:
  assumes "os_next_rename sim_os w = (u, w')"
  shows "u = Inr () \<Longrightarrow> sim_view w' = (sim_view w)\<lparr>v_state := v_next (sim_view w), v_next := None\<rparr>"
    and "u = Inl e \<Longrightarrow> sim_view w' = sim_view w"
proof -
  have c: "sim_call (\<lambda>s. (Inr (), s\<lparr>sim_state := sim_next s, sim_next := None\<rparr>)) w = (u, w')"
    using assms by (simp add: sim_os_def)
  show "sim_view w' = (sim_view w)\<lparr>v_state := v_next (sim_view w), v_next := None\<rparr>" if "u = Inr ()"
    using c
  proof (cases rule: sim_call_run)
    case (2 s1)
    then have "sim_view w' = (sim_view s1)\<lparr>v_state := sim_next s1, v_next := None\<rparr>" by (auto simp: sim_view_def)
    with 2 show ?thesis by (simp add: sim_view_def)
  qed (simp add: that)
  show "sim_view w' = sim_view w" if "u = Inl e"
    using c by (cases rule: sim_call_run) (auto simp: that)
qed

lemma sim_state_sees:
  "observe (\<lambda>s. case sim_state s of None \<Rightarrow> Inl NOENT | Some b \<Rightarrow> Inr (f b)) w = (Inr x, w') \<Longrightarrow>
     v_state (sim_view w) = Some b \<Longrightarrow> x = f b"
proof -
  assume o: "observe (\<lambda>s. case sim_state s of None \<Rightarrow> Inl NOENT | Some b \<Rightarrow> Inr (f b)) w = (Inr x, w')"
    and "v_state (sim_view w) = Some b"
  with observe_view [OF o] have "sim_state w' = Some b" by (metis sim_view_def fsview.select_convs(4))
  with observe_ok [OF o] show "x = f b" by simp
qed

lemma sim_state_laws:
  "os_state_exists sim_os w = (True, w') \<Longrightarrow> v_state (sim_view w) \<noteq> None"
  "os_state_len sim_os w = (Inr n, w') \<Longrightarrow> v_state (sim_view w) = Some b \<Longrightarrow> n = word_of_nat (length b)"
  "os_state_read sim_os k w = (Inr c, w') \<Longrightarrow> v_state (sim_view w) = Some b \<Longrightarrow> c = take k b"
proof -
  show "v_state (sim_view w) \<noteq> None" if e: "os_state_exists sim_os w = (True, w')"
  proof -
    obtain fo s1 where n: "next_fault w = (fo, s1)" by fastforce
    with e have "sim_state s1 \<noteq> None" by (auto simp: sim_os_def split: option.splits)
    with next_fault_frame [OF n] show ?thesis by (simp add: sim_view_def)
  qed
  show "n = word_of_nat (length b)" if "os_state_len sim_os w = (Inr n, w')" "v_state (sim_view w) = Some b"
    using that sim_state_sees [where f = "\<lambda>b. word_of_nat (length b)"] by (simp add: sim_os_def)
  show "c = take k b" if "os_state_read sim_os k w = (Inr c, w')" "v_state (sim_view w) = Some b"
    using that sim_state_sees [where f = "take k"] by (simp add: sim_os_def)
qed

lemma sim_exists_view: "os_state_exists sim_os w = (ex, w') \<Longrightarrow> sim_view w' = sim_view w"
proof -
  assume r: "os_state_exists sim_os w = (ex, w')"
  obtain fo s1 where n: "next_fault w = (fo, s1)" by fastforce
  with r have "w' = s1" by (auto simp: sim_os_def split: option.splits)
  with next_fault_view [OF n] show ?thesis by simp
qed

lemma sim_dup_ok: "os_dup sim_os d w = (Inr x, w') \<Longrightarrow> x = d"
  by (auto simp: sim_os_def dest: observe_ok)

lemma sim_db_view: "os_db sim_os w = (e, w') \<Longrightarrow> sim_view w' = sim_view w"
proof -
  assume r: "os_db sim_os w = (e, w')"
  obtain fo s1 where n: "next_fault w = (fo, s1)" by fastforce
  with r have "w' = s1" by (auto simp: sim_os_def split: option.splits)
  with next_fault_view [OF n] show ?thesis by simp
qed

lemma sim_clock_views:
  "os_now sim_os w = (t, w') \<Longrightarrow> sim_view w' = sim_view w"
  "os_new_uuid sim_os w = (u, w') \<Longrightarrow> sim_view w' = sim_view w"
  "os_epoch sim_os w = (t, w') \<Longrightarrow> sim_view w' = sim_view w"
  "os_child_polls sim_os w = (ps, w') \<Longrightarrow> sim_view w' = sim_view w"
  by (auto simp: sim_os_def sim_view_def split: list.splits)

lemma sim_observe_views:
  "os_stat sim_os p w = (r, w') \<Longrightarrow> sim_view w' = sim_view w"
  "os_open_dir sim_os p w = (r', w') \<Longrightarrow> sim_view w' = sim_view w"
  "os_open_file sim_os p w = (r', w') \<Longrightarrow> sim_view w' = sim_view w"
  "os_openat2 sim_os d p fl rs w = (r', w') \<Longrightarrow> sim_view w' = sim_view w"
  "os_fstat sim_os d w = (r, w') \<Longrightarrow> sim_view w' = sim_view w"
  "os_fsync sim_os d w = (u, w') \<Longrightarrow> sim_view w' = sim_view w"
  "os_dup sim_os d w = (r', w') \<Longrightarrow> sim_view w' = sim_view w"
  "os_read_once sim_os d k w = (rq', w') \<Longrightarrow> sim_view w' = sim_view w"
  "os_read_dir sim_os p w = (res, w') \<Longrightarrow> sim_view w' = sim_view w"
  "os_canonicalize sim_os p w = (rq, w') \<Longrightarrow> sim_view w' = sim_view w"
  "os_file_len sim_os p w = (len, w') \<Longrightarrow> sim_view w' = sim_view w"
  "os_next_sync sim_os w = (u, w') \<Longrightarrow> sim_view w' = sim_view w"
  "os_state_dir_sync sim_os w = (u, w') \<Longrightarrow> sim_view w' = sim_view w"
  "os_state_read sim_os k w = (rq', w') \<Longrightarrow> sim_view w' = sim_view w"
  "os_state_mkdir sim_os w = (u, w') \<Longrightarrow> sim_view w' = sim_view w"
  "os_state_open sim_os w = (u, w') \<Longrightarrow> sim_view w' = sim_view w"
  "os_state_len sim_os w = (len, w') \<Longrightarrow> sim_view w' = sim_view w"
  "os_spawn sim_os exe args w = (u, w') \<Longrightarrow> sim_view w' = sim_view w"
  "os_child_write sim_os b w = (u, w') \<Longrightarrow> sim_view w' = sim_view w"
  "os_child_output sim_os w = (out, w') \<Longrightarrow> sim_view w' = sim_view w"
  "os_child_kill sim_os w = (kil, w') \<Longrightarrow> sim_view w' = sim_view w"
  "os_child_wait sim_os w = (wai, w') \<Longrightarrow> sim_view w' = sim_view w"
  by (simp_all add: sim_os_def) (erule observe_view)+

lemma sim_mutators:
  "os_rename_noreplace sim_os = sim_rename" "os_create_excl sim_os = sim_create"
  "os_unlinkat sim_os = sim_unlink"
  "os_write sim_os x b = sim_set_file x (\<lambda>f. f\<lparr>f_data := f_data f @ b\<rparr>)"
  "os_flush sim_os x = sim_set_file x (\<lambda>f. f)"
  "os_fchmod sim_os x md = sim_set_file x (\<lambda>f. f\<lparr>f_mode := md\<rparr>)"
  "os_futimens sim_os x ta tm = sim_set_file x (\<lambda>f. f\<lparr>f_atime := fst ta, f_atime_nsec := snd ta,
        f_mtime := fst tm, f_mtime_nsec := snd tm\<rparr>)"
  by (simp_all add: sim_os_def)

lemma dirpath_same: "v = v\<lparr>v_dirpath := v_dirpath v\<rparr>"
  by simp

lemma sim_rename_law:
  "os_rename_noreplace sim_os d n d' n' w = (Inr (), w') \<Longrightarrow>
      \<exists>x dp. v_entry (sim_view w) d n = Some x \<and> v_entry (sim_view w) d' n' = None \<and>
        sim_view w' = (move_entry d n d' n' (sim_view w))\<lparr>v_dirpath := dp\<rparr> \<and>
        (v_file (sim_view w) x \<noteq> None \<longrightarrow> dp = v_dirpath (sim_view w))"
proof -
  assume "os_rename_noreplace sim_os d n d' n' w = (Inr (), w')"
  then obtain x where "v_entry (sim_view w) d n = Some x" "v_entry (sim_view w) d' n' = None"
    and "sim_view w' = move_entry d n d' n' (sim_view w)"
    using sim_rename_ok by (metis sim_mutators(1))
  moreover have "move_entry d n d' n' (sim_view w) =
      (move_entry d n d' n' (sim_view w))\<lparr>v_dirpath := v_dirpath (sim_view w)\<rparr>"
    using dirpath_same [of "move_entry d n d' n' (sim_view w)"] by (simp only: move_entry_frame)
  ultimately show ?thesis by metis
qed

lemma sim_unlink_law:
  "os_unlinkat sim_os d n w = (Inr (), w') \<Longrightarrow>
      \<exists>x fo dp. v_entry (sim_view w) d n = Some x \<and>
        sim_view w' = (set_entry d n None (set_file x fo (sim_view w)))\<lparr>v_dirpath := dp\<rparr> \<and>
        (v_file (sim_view w) x \<noteq> None \<longrightarrow> dp = v_dirpath (sim_view w)) \<and>
        (\<forall>g. fo = Some g \<longrightarrow> map_option f_data (v_file (sim_view w) x) = Some (f_data g)) \<and>
        (fo = None \<longrightarrow> v_file (sim_view w) x \<noteq> None \<longrightarrow>
          (\<forall>e m. v_entry (sim_view w) e m = Some x \<longrightarrow> e = d \<and> m = n))"
proof -
  assume "os_unlinkat sim_os d n w = (Inr (), w')"
  then obtain x fo where x: "v_entry (sim_view w) d n = Some x"
    and v: "sim_view w' = set_entry d n None (set_file x fo (sim_view w))"
    and fo: "fo = v_file (sim_view w) x \<or>
      (fo = None \<and> (\<forall>e m. v_entry (sim_view w) e m = Some x \<longrightarrow> e = d \<and> m = n))"
    using sim_unlink_ok by (metis sim_mutators(3))
  have "set_entry d n None (set_file x fo (sim_view w)) =
      (set_entry d n None (set_file x fo (sim_view w)))\<lparr>v_dirpath := v_dirpath (sim_view w)\<rparr>"
    using dirpath_same [of "set_entry d n None (set_file x fo (sim_view w))"]
    by (simp only: set_entry_frame set_file_frame)
  with v have "sim_view w' =
      (set_entry d n None (set_file x fo (sim_view w)))\<lparr>v_dirpath := v_dirpath (sim_view w)\<rparr>" by simp
  with x fo show ?thesis
    by (intro exI [of _ x] exI [of _ fo] exI [of _ "v_dirpath (sim_view w)"]) auto
qed

lemma sim_path_laws:
  "os_rename_path sim_os p p' w = (u, w') \<Longrightarrow>
      (\<exists>e. u = Inl e \<and> sim_view w' = sim_view w) \<or>
      (\<exists>d n d' n'. v_resolve (sim_view w) p = Some (d, n) \<and> v_resolve (sim_view w) p' = Some (d', n') \<and>
        os_rename_noreplace sim_os d n d' n' w = (u, w'))"
  "os_create_path sim_os p md w = (r', w') \<Longrightarrow>
      (\<exists>e. r' = Inl e \<and> sim_view w' = sim_view w) \<or>
      (\<exists>d n. v_resolve (sim_view w) p = Some (d, n) \<and> os_create_excl sim_os d n md w = (r', w'))"
  "os_remove_path sim_os p w = (u, w') \<Longrightarrow>
      (\<exists>e. u = Inl e \<and> sim_view w' = sim_view w) \<or>
      (\<exists>d n. v_resolve (sim_view w) p = Some (d, n) \<and> os_unlinkat sim_os d n w = (u, w'))"
  by (auto simp: sim_os_def sim_at_def split: option.splits)

lemma read_chunks_bounded: "c \<in> set (read_chunks k b) \<Longrightarrow> c \<noteq> [] \<and> length c \<le> 65536"
  by (induction k arbitrary: b) (auto split: if_splits)

lemma sim_reads_bounded:
  "os_reads sim_os x w = (rs, w') \<Longrightarrow> Inr c \<in> set rs \<Longrightarrow> c \<noteq> [] \<and> length c \<le> 65536"
  by (auto simp: sim_os_def dest: read_chunks_bounded split: prod.splits option.splits)

lemma sim_create_law:
  "os_create_excl sim_os d n md w = (Inr x, w') \<Longrightarrow>
     v_entry (sim_view w) d n = None \<and> v_file (sim_view w) x = None \<and>
     (\<forall>e m. v_entry (sim_view w) e m \<noteq> Some x) \<and>
     (\<exists>f. sim_view w' = set_entry d n (Some x) (set_file x (Some f) (sim_view w)))"
  unfolding sim_mutators by (rule sim_create_ok)

lemma sim_refusals:
  "os_rename_noreplace sim_os d n d' n' w = (Inl e, w') \<Longrightarrow> sim_view w' = sim_view w"
  "os_create_excl sim_os d n md w = (Inl e, w') \<Longrightarrow> sim_view w' = sim_view w"
  "os_unlinkat sim_os d n w = (Inl e, w') \<Longrightarrow> sim_view w' = sim_view w"
  unfolding sim_mutators by (erule sim_rename_err sim_create_err sim_unlink_err)+

lemma sim_writes:
  assumes "v_file (sim_view w) x = Some f"
  shows "os_write sim_os x b w = (u, w') \<Longrightarrow> \<exists>f'. sim_view w' = set_file x (Some f') (sim_view w)"
    and "os_flush sim_os x w = (u, w') \<Longrightarrow> \<exists>f'. sim_view w' = set_file x (Some f') (sim_view w)"
    and "os_fchmod sim_os x md w = (u, w') \<Longrightarrow> \<exists>f'. sim_view w' = set_file x (Some f') (sim_view w)"
    and "os_futimens sim_os x ta tm w = (u, w') \<Longrightarrow> \<exists>f'. sim_view w' = set_file x (Some f') (sim_view w)"
  using assms unfolding sim_mutators by (metis sim_set_file_changes)+

lemma sim_lstat_laws:
  "os_lstat sim_os p w = (r, w') \<Longrightarrow> sim_view w' = sim_view w"
  "os_lstat sim_os p w = (Inr s, w') \<Longrightarrow>
      \<exists>x. v_lookup (sim_view w) p = Some x \<and> st_dev s = dev_of x \<and> st_ino s = ino_of x \<and>
        (case v_file (sim_view w) x of Some f \<Rightarrow> stat_of x f s | None \<Rightarrow> st_type s \<noteq> FRegular)"
  "os_lstat sim_os p w = (Inl NOENT, w') \<Longrightarrow> v_lookup (sim_view w) p = None"
  by (auto dest: sim_lstat_iff)

lemma sim_reads_laws:
  "os_reads sim_os x w = (rs, w') \<Longrightarrow> sim_view w' = sim_view w"
  "os_reads sim_os x w = (map Inr cs, w') \<Longrightarrow> v_file (sim_view w) x = Some f \<Longrightarrow> concat cs = f_data f"
  by (drule sim_os_reads, blast)+

lemmas sim_frame_laws = sim_observe_views sim_clock_views sim_db_view sim_exists_view sim_lstat_laws(1) sim_reads_laws(1)
  sim_refusals sim_next_rename(2) [OF _ refl]

lemmas sim_success_laws = sim_lstat_laws(2,3) sim_open_dir_ok sim_open_file_ok sim_openat2_ok sim_fstat_ok
  sim_dup_ok sim_reads_laws(2) sim_read_dir_ok sim_state_laws sim_rename_law sim_create_law
  sim_unlink_law sim_writes sim_next_open sim_next_write(1) [OF _ refl] sim_next_write(2) [OF _ refl]
  sim_next_rename(1) [OF _ refl]
  sim_path_laws sim_reads_bounded

interpretation sim: posix sim_os sim_view
  by unfold_locales ((erule sim_frame_laws | rule sim_frame_laws | rule sim_success_laws; assumption)+)

end
