(* ===== verification/Reference_Libs.thy ===== *)
theory Reference_Libs
  imports Reference_Os
begin

text \<open>
  Executable library functions that satisfy the contract \<open>libs_ok\<close>, for the witnesses; they stand
  for no code of the repository. A UUID is written as its binary digits from the lowest, a digest
  as 64 hexadecimal digits of the first bytes.
\<close>

fun num_text :: "num \<Rightarrow> string" where
  "num_text num.One = ''1''"
| "num_text (num.Bit0 n) = CHR ''0'' # num_text n"
| "num_text (num.Bit1 n) = CHR ''1'' # num_text n"

fun num_parse :: "string \<Rightarrow> num option" where
  "num_parse [] = None"
| "num_parse (c # cs) = (if cs = [] then (if c = CHR ''1'' then Some num.One else None)
     else if c = CHR ''0'' then map_option num.Bit0 (num_parse cs)
     else if c = CHR ''1'' then map_option num.Bit1 (num_parse cs) else None)"

lemma num_text_neq [simp]: "num_text n \<noteq> []"
  by (cases n) simp_all

lemma num_parse_text [simp]: "num_parse (num_text n) = Some n"
  by (induction n) simp_all

lemma num_text_plain: "CHR ''/'' \<notin> set (num_text n)"
  by (induction n) simp_all

definition int_text :: "int \<Rightarrow> string" where
  "int_text k = (if k \<le> 0 then ''0'' else num_text (num_of_nat (nat k)))"

lemma int_text_code [code]:
  "int_text 0 = ''0''" "int_text (Int.Pos n) = num_text n" "int_text (Int.Neg n) = ''0''"
  by (simp_all add: int_text_def num_of_nat_numeral_eq)

definition int_parse :: "string \<Rightarrow> int option" where
  "int_parse t = (if t = ''0'' then Some 0 else map_option Int.Pos (num_parse t))"

lemma int_parse_text: "0 \<le> k \<Longrightarrow> int_parse (int_text k) = Some k"
proof -
  assume k: "0 \<le> k"
  have no: "num_text n \<noteq> ''0''" for n by (cases n) simp_all
  show ?thesis
  proof (cases "k = 0")
    case False
    with k have "(numeral (num_of_nat (nat k)) :: nat) = nat k" by (intro numeral_num_of_nat) simp
    then have "int (numeral (num_of_nat (nat k))) = int (nat k)" by (rule arg_cong)
    with k have "numeral (num_of_nat (nat k)) = k" by simp
    with False k no show ?thesis by (simp add: int_parse_def int_text_def)
  qed (simp add: int_parse_def int_text_def)
qed

lemma int_text_plain: "CHR ''/'' \<notin> set (int_text k)"
  by (simp add: int_text_def num_text_plain)

definition ref_uuid_text :: "uuid \<Rightarrow> string" where
  "ref_uuid_text u = int_text (uint u)"

definition ref_uuid_parse :: "string \<Rightarrow> uuid option" where
  "ref_uuid_parse t = map_option word_of_int (int_parse t)"

lemma ref_uuid_roundtrip: "ref_uuid_parse (ref_uuid_text u) = Some u"
  by (simp add: ref_uuid_parse_def ref_uuid_text_def int_parse_text)

lemma ref_uuid_plain: "CHR ''/'' \<notin> set (ref_uuid_text u)"
  by (simp add: ref_uuid_text_def int_text_plain)

definition hex_digit :: "nat \<Rightarrow> char" where
  "hex_digit k = char_of (if k < 10 then 48 + k else 87 + k)"

fun hex_bytes :: "bytes \<Rightarrow> string" where
  "hex_bytes [] = []"
| "hex_bytes (c # cs) = hex_digit (of_char c div 16) # hex_digit (of_char c mod 16) # hex_bytes cs"

definition ref_sha256 :: "bytes \<Rightarrow> string" where
  "ref_sha256 b = take 64 (hex_bytes b @ replicate 64 CHR ''0'')"

definition ref_glob :: "string \<Rightarrow> (string \<Rightarrow> bool) option" where
  "ref_glob p = (case p of [] \<Rightarrow> None | c # cs \<Rightarrow>
     if c = CHR ''*'' then Some (\<lambda>s. ends_with s cs) else Some (\<lambda>s. s = p))"

definition ref_libs :: libs where
  "ref_libs = \<lparr>lib_glob = ref_glob, lib_sha256 = ref_sha256, lib_b64_encode = (\<lambda>b. b),
     lib_b64_decode = Some, lib_uuid_text = ref_uuid_text, lib_uuid_parse = ref_uuid_parse,
     lib_lowercase = to_ascii_lowercase\<rparr>"

interpretation reference: libs_ok ref_libs
  by unfold_locales (simp_all add: ref_libs_def ref_uuid_roundtrip ref_uuid_plain)

end
