(* ===== verification/Journal_Properties.thy ===== *)
theory Journal_Properties
  imports Journal_History Reference_Libs "HOL-Library.Sublist"
begin

text \<open>
  The properties of the journal: each operation refines its specification on the map of entries,
  and over any sequence of operations the entries follow the state machine, so that a completed
  entry has been through every recorded step of a move.
\<close>

section \<open>A journal for the witnesses\<close>

definition start_world :: sim where
  "start_world = \<lparr>sim_entries = [], sim_files = [], sim_dirs = [], sim_state = None, sim_next = None,
     sim_faults = [], sim_clock = 7000000000, sim_inodes = [], sim_uuids = [], sim_reply = None\<rparr>"

definition sample_entry :: entry where
  "sample_entry = \<lparr>e_id = 7, e_revision = 1, e_state = Proposed, e_source_token = ''/in/a'',
     e_destination_token = ''/out/a'', e_size = 3, e_sha256 = None\<rparr>"

definition empty_journal :: "sim journal" where
  "empty_journal = \<lparr>j_rows = [], j_path = ''/journal'', j_world = start_world\<rparr>"

definition sample_journal :: "sim journal" where
  "sample_journal = \<lparr>j_rows = [row_of_entry ref_libs sample_entry 1 3], j_path = ''/journal'', j_world = start_world\<rparr>"

lemma empty_journal_ok: "rows_ok L (j_rows empty_journal)"
  by (simp add: empty_journal_def rows_ok_def)

lemma sample_journal_ok: "rows_ok ref_libs (j_rows sample_journal)"
  by (auto simp: sample_journal_def rows_ok_def row_ok_def row_of_entry_def sample_entry_def
      intro: range_eqI [of _ _ Proposed])

section \<open>Refinement\<close>

text \<open>C23. A transition refines the specification on the map of entries: it succeeds only at the
  current revision and along an allowed edge, then advances the revision by one and changes the
  state alone; on any error of its own the map is unchanged, and on a database error it is either
  unchanged or fully advanced. The table stays well-formed.\<close>

theorem transition_refines:
  assumes "libs_ok L" and "rows_ok L (j_rows j)" and "transition L S u n t j = (r, j')"
  shows "outcome L (spec_transition u n t (entries_of L (j_rows j))) j r j'"
  using libs_ok.transition_implements [OF assms(1)] assms(2,3) by (rule implementsD)

theorem transition_refines_witness:
  "outcome ref_libs (spec_transition 7 1 Approved (entries_of ref_libs (j_rows sample_journal))) sample_journal
      (fst (transition ref_libs sim_os 7 1 Approved sample_journal))
      (snd (transition ref_libs sim_os 7 1 Approved sample_journal))
   \<and> map_option e_state (res_ok (fst (transition ref_libs sim_os 7 1 Approved sample_journal))) = Some Approved"
  by (intro conjI transition_refines [OF reference.libs_ok_axioms sample_journal_ok prod.collapse [symmetric]]) code_simp

text \<open>Choosing another destination refines its specification: only an entry still proposed, at
  the given revision, changes, and only in its destination and revision.\<close>

theorem revise_refines:
  assumes "libs_ok L" and "rows_ok L (j_rows j)" and "revise_proposal L S u n token j = (r, j')"
  shows "outcome L (spec_revise u n token (entries_of L (j_rows j))) j r j'"
  using libs_ok.revise_implements [OF assms(1)] assms(2,3) by (rule implementsD)

theorem revise_refines_witness:
  "outcome ref_libs (spec_revise 7 1 ''/out/b'' (entries_of ref_libs (j_rows sample_journal))) sample_journal
      (fst (revise_proposal ref_libs sim_os 7 1 ''/out/b'' sample_journal))
      (snd (revise_proposal ref_libs sim_os 7 1 ''/out/b'' sample_journal))
   \<and> map_option e_revision (res_ok (fst (revise_proposal ref_libs sim_os 7 1 ''/out/b'' sample_journal))) = Some 2"
  by (intro conjI revise_refines [OF reference.libs_ok_axioms sample_journal_ok prod.collapse [symmetric]]) code_simp

text \<open>C24. Creating an entry refines its specification: at most \<open>MAX_ACTIVE\<close> entries are active at
  a time, a new entry is proposed at revision 1 under an unused id, and nothing else changes.\<close>

theorem create_refines:
  assumes "libs_ok L" and "rows_ok L (j_rows j)" and "e_sha256 e = None" and "create L S e j = (r, j')"
  shows "outcome L (spec_create e (entries_of L (j_rows j))) j r j' \<and>
    (r = Inr () \<longrightarrow> int (card (active_ids (entries_of L (j_rows j')))) \<le> MAX_ACTIVE)"
proof
  show out: "outcome L (spec_create e (entries_of L (j_rows j))) j r j'"
    using libs_ok.create_implements [OF assms(1,3)] assms(2,4) by (rule implementsD)
  show "r = Inr () \<longrightarrow> int (card (active_ids (entries_of L (j_rows j')))) \<le> MAX_ACTIVE"
  proof
    assume "r = Inr ()"
    with out have lt: "int (card (active_ids (entries_of L (j_rows j)))) < MAX_ACTIVE"
      and new: "entries_of L (j_rows j') = (entries_of L (j_rows j))(e_id e \<mapsto> e)"
      by (auto simp: outcome_def spec_create_def split: if_splits)
    have "active_ids (entries_of L (j_rows j')) \<subseteq> insert (e_id e) (active_ids (entries_of L (j_rows j)))"
      unfolding new active_ids_def by (auto split: if_splits)
    then have "card (active_ids (entries_of L (j_rows j'))) \<le> card (insert (e_id e) (active_ids (entries_of L (j_rows j))))"
      by (rule card_mono [rotated]) simp
    also have "\<dots> \<le> Suc (card (active_ids (entries_of L (j_rows j))))" by (rule card_insert_le_m1 [OF zero_less_Suc, simplified]) simp
    finally show "int (card (active_ids (entries_of L (j_rows j')))) \<le> MAX_ACTIVE" using lt by simp
  qed
qed

theorem create_refines_witness:
  "outcome ref_libs (spec_create sample_entry (entries_of ref_libs (j_rows empty_journal))) empty_journal
      (fst (create ref_libs sim_os sample_entry empty_journal)) (snd (create ref_libs sim_os sample_entry empty_journal))
   \<and> fst (create ref_libs sim_os sample_entry empty_journal) = Inr ()"
proof
  show "outcome ref_libs (spec_create sample_entry (entries_of ref_libs (j_rows empty_journal))) empty_journal
      (fst (create ref_libs sim_os sample_entry empty_journal)) (snd (create ref_libs sim_os sample_entry empty_journal))"
    using create_refines [OF reference.libs_ok_axioms empty_journal_ok _ prod.collapse [symmetric], of sample_entry sim_os]
    by (simp add: sample_entry_def)
qed code_simp

section \<open>Histories\<close>

lemma steps_snoc: "r\<^sup>*\<^sup>* x y \<Longrightarrow> r y z \<Longrightarrow> r\<^sup>*\<^sup>* x z"
  by (rule rtranclp.rtrancl_into_rtrancl)

text \<open>Over any sequence of journal operations, whatever each of them returns and whichever
  statements the database refuses, the table stays well-formed and every entry follows the state
  machine: it is created proposed at revision 1, advances one revision at a time along allowed
  edges, and disappears only from a terminal state.\<close>

theorem history_follows_machine:
  assumes "libs_ok L" and "rows_ok L (j_rows j)"
  shows "rows_ok L (j_rows (run_commands L S cs j)) \<and>
    entry_step\<^sup>*\<^sup>* (entries_of L (j_rows j) u) (entries_of L (j_rows (run_commands L S cs j)) u)"
proof (induction cs rule: rev_induct)
  case Nil
  with assms show ?case by simp
next
  case (snoc c cs)
  note step = libs_ok.command_step [OF assms(1) conjunct1 [OF snoc.IH], of S c u]
  with steps_snoc [of entry_step, OF conjunct2 [OF snoc.IH]] show ?case by simp
qed

theorem history_follows_machine_witness:
  "rows_ok ref_libs (j_rows (run_commands ref_libs sim_os [Create sample_entry, Transition 7 1 Ignored] empty_journal)) \<and>
    entry_step\<^sup>*\<^sup>* (entries_of ref_libs (j_rows empty_journal) 7)
      (entries_of ref_libs (j_rows (run_commands ref_libs sim_os [Create sample_entry, Transition 7 1 Ignored] empty_journal)) 7)"
  by (rule history_follows_machine [OF reference.libs_ok_axioms empty_journal_ok])

text \<open>C22. The journal says \<open>Completed\<close> only of an entry it created and saw, in this order, proposed,
  approved, published and with its source removed.\<close>

theorem completed_only_after_removal:
  assumes "libs_ok L" and "rows_ok L (j_rows j)" and "entries_of L (j_rows j) u = None"
    and "state_after L S j u cs = Some Completed"
  shows "\<exists>a b c d. prefix a b \<and> prefix b c \<and> prefix c d \<and> prefix d cs \<and>
    state_after L S j u a = Some Proposed \<and> state_after L S j u b = Some Approved \<and>
    state_after L S j u c = Some Published \<and> state_after L S j u d = Some SourceRemoved"
proof -
  have none: "state_after L S j u [] \<noteq> Some t" for t using assms(3) by (simp add: state_after_def)
  have came: "\<exists>a s. prefix a c \<and> state_after L S j u a = Some s \<and> allowed s t \<and> s \<noteq> t"
    if "state_after L S j u c = Some t" "t \<noteq> Proposed" for c t
    using libs_ok.entered [OF assms(1,2) that none] by (auto simp: prefix_def)
  obtain d where d: "prefix d cs" "state_after L S j u d = Some SourceRemoved"
    using came [OF assms(4)] by (auto simp: allowed_def)
  obtain c where c: "prefix c d" "state_after L S j u c = Some Published"
    using came [OF d(2)] by (auto simp: allowed_def)
  obtain b where b: "prefix b c" "state_after L S j u b = Some Approved"
  proof -
    from came [OF c(2)] obtain b s where b: "prefix b c" "state_after L S j u b = Some s" "allowed s Published" by auto
    then consider "s = Approved" | "s = Copying" by (auto simp: allowed_def)
    then show thesis
    proof cases
      case 2
      with came [OF b(2)] obtain b' where "prefix b' b" "state_after L S j u b' = Some Approved"
        by (auto simp: allowed_def)
      with b(1) that show thesis using prefix_order.trans by blast
    qed (use b that in blast)
  qed
  obtain a where a: "prefix a b" "state_after L S j u a = Some Proposed"
    using came [OF b(2)] by (auto simp: allowed_def)
  show ?thesis using a b c d by blast
qed

definition full_move :: "command list" where
  "full_move = [Create sample_entry, Transition 7 1 Approved, Transition 7 2 Published,
     Transition 7 3 SourceRemoved, Transition 7 4 Completed]"

lemma full_move_completed: "state_after ref_libs sim_os empty_journal 7 full_move = Some Completed"
  by code_simp

theorem completed_only_after_removal_witness:
  "state_after ref_libs sim_os empty_journal 7 full_move = Some Completed \<and>
   (\<exists>a b c d. prefix a b \<and> prefix b c \<and> prefix c d \<and> prefix d full_move \<and>
    state_after ref_libs sim_os empty_journal 7 a = Some Proposed \<and>
    state_after ref_libs sim_os empty_journal 7 b = Some Approved \<and>
    state_after ref_libs sim_os empty_journal 7 c = Some Published \<and>
    state_after ref_libs sim_os empty_journal 7 d = Some SourceRemoved)"
proof (intro conjI full_move_completed
    completed_only_after_removal [OF reference.libs_ok_axioms empty_journal_ok _ full_move_completed])
  show "entries_of ref_libs (j_rows empty_journal) 7 = None" by (simp add: empty_journal_def entries_of_def)
qed

section \<open>Retention\<close>

text \<open>C30. Retention never removes an active entry: whatever it returns, the non-terminal rows are
  the same, in the same order, and every entry is unchanged or was terminal and is gone.\<close>

theorem retention_keeps_active:
  assumes "libs_ok L" and "rows_ok L (j_rows j)" and "enforce_retention S retain age lim j = (r, j')"
  shows "nonterminal_rows (j_rows j') = nonterminal_rows (j_rows j) \<and>
    (\<forall>u. entries_of L (j_rows j') u \<noteq> entries_of L (j_rows j) u \<longrightarrow>
       entries_of L (j_rows j') u = None \<and> (\<exists>e. entries_of L (j_rows j) u = Some e \<and> terminal (e_state e)))"
  using trimmed_nonterminal [OF retention_trimmed [OF assms(2,3)]]
    libs_ok.trimmed_entries [OF assms(1,2) retention_trimmed [OF assms(2,3)]] by blast

theorem retention_keeps_active_witness:
  "nonterminal_rows (j_rows (snd (enforce_retention sim_os 0 0 0 sample_journal))) = nonterminal_rows (j_rows sample_journal)
   \<and> length (nonterminal_rows (j_rows sample_journal)) = 1"
  using retention_keeps_active [OF reference.libs_ok_axioms sample_journal_ok prod.collapse [symmetric], of sim_os 0 0 0]
  by (simp add: sample_journal_def nonterminal_rows_def row_of_entry_def sample_entry_def terminal_text_def)

text \<open>A successful pruning leaves exactly the newest terminal rows, as many as asked for or all
  of them, in their order of age.\<close>

theorem pruning_keeps_newest:
  assumes "distinct (map r_id (j_rows j))" and "prune_terminal S retain j = (Inr n, j')"
  shows "by_age (terminal_rows (j_rows j')) =
      drop (length (terminal_rows (j_rows j)) - unat retain) (by_age (terminal_rows (j_rows j)))"
  using prune_newest(1) [OF assms] .

definition aged_row :: "uuid \<Rightarrow> int \<Rightarrow> row" where
  "aged_row u t = (row_of_entry ref_libs (sample_entry\<lparr>e_id := u, e_state := Ignored\<rparr>) 2 3)\<lparr>r_updated_at := t\<rparr>"

definition aged_journal :: "sim journal" where
  "aged_journal = empty_journal\<lparr>j_rows := [aged_row 1 30, aged_row 2 10, aged_row 3 20]\<rparr>"

lemma aged_run:
  "distinct (map r_id (j_rows aged_journal))" "fst (prune_terminal sim_os 1 aged_journal) = Inr 2"
  by code_simp+

theorem pruning_keeps_newest_witness:
  "by_age (terminal_rows (j_rows (snd (prune_terminal sim_os 1 aged_journal)))) =
      drop (length (terminal_rows (j_rows aged_journal)) - unat (1 :: u64)) (by_age (terminal_rows (j_rows aged_journal)))"
  by (rule pruning_keeps_newest [OF aged_run(1)], rule prod_eqI) (simp_all add: aged_run)

section \<open>What recovery is given\<close>

text \<open>The listing recovery works from: distinct active entries with their current values, as
  many as there are up to a thousand, so that below the limit no active entry is missed; reading
  it changes no row.\<close>

theorem nonterminal_listing:
  assumes "libs_ok L" and "rows_ok L (j_rows j)" and "nonterminal_entries L S j = (Inr es, j')"
  shows "distinct (map e_id es) \<and> length es = min 1000 (card (active_ids (entries_of L (j_rows j)))) \<and>
    (\<forall>e \<in> set es. entries_of L (j_rows j) (e_id e) = Some e \<and> \<not> terminal (e_state e)) \<and>
    (card (active_ids (entries_of L (j_rows j))) \<le> 1000 \<longrightarrow> e_id ` set es = active_ids (entries_of L (j_rows j))) \<and>
    j_rows j' = j_rows j"
proof (intro conjI impI)
  note listed = libs_ok.nonterminal_listed [OF assms]
  show "distinct (map e_id es)" and "length es = min 1000 (card (active_ids (entries_of L (j_rows j))))"
    and "\<forall>e \<in> set es. entries_of L (j_rows j) (e_id e) = Some e \<and> \<not> terminal (e_state e)"
    and "j_rows j' = j_rows j" by (fact listed)+
  assume small: "card (active_ids (entries_of L (j_rows j))) \<le> 1000"
  have "card (e_id ` set es) = card (active_ids (entries_of L (j_rows j)))"
    using listed(1,2) small distinct_card [OF listed(1)] by simp
  moreover have "e_id ` set es \<subseteq> active_ids (entries_of L (j_rows j))"
    using listed(3) by (auto simp: active_ids_def)
  moreover have "finite (active_ids (entries_of L (j_rows j)))" by simp
  ultimately show "e_id ` set es = active_ids (entries_of L (j_rows j))" by (intro card_subset_eq)
qed

lemma sample_listing: "nonterminal_entries ref_libs sim_os sample_journal = (Inr [sample_entry], snd (nonterminal_entries ref_libs sim_os sample_journal))"
  by (rule prod_eqI) (simp_all, code_simp)

theorem nonterminal_listing_witness:
  "e_id ` set [sample_entry] = {7} \<and>
   length [sample_entry] = min 1000 (card (active_ids (entries_of ref_libs (j_rows sample_journal))))"
  using nonterminal_listing [OF reference.libs_ok_axioms sample_journal_ok sample_listing]
  by (simp add: sample_entry_def)

text \<open>The names of the states are read back as the states they were written for, and nothing
  else is read as a state.\<close>

theorem state_names_roundtrip:
  "parse_state (as_str s) = Inr s \<and> (parse_state t = Inr s \<longleftrightarrow> t = as_str s) \<and>
    (terminal_text (as_str s) \<longleftrightarrow> terminal s)"
  by (simp add: parse_state_Inr)

text \<open>The digest recorded for an entry has the form of a SHA-256 digest and changes nothing else;
  any other text is refused.\<close>

theorem digest_refines:
  assumes "libs_ok L" and "rows_ok L (j_rows j)" and "set_sha256 L S u h j = (r, j')"
  shows "outcome L (spec_set_sha256 u h (entries_of L (j_rows j))) j r j'"
  using libs_ok.set_sha256_implements [OF assms(1)] assms(2,3) by (rule implementsD)

theorem digest_refines_witness:
  "outcome ref_libs (spec_set_sha256 7 (ref_sha256 ''abc'') (entries_of ref_libs (j_rows sample_journal))) sample_journal
      (fst (set_sha256 ref_libs sim_os 7 (ref_sha256 ''abc'') sample_journal))
      (snd (set_sha256 ref_libs sim_os 7 (ref_sha256 ''abc'') sample_journal))"
  by (rule digest_refines [OF reference.libs_ok_axioms sample_journal_ok prod.collapse [symmetric]])

end
