(* ===== verification/Fs_Primitives.thy ===== *)
theory Fs_Primitives
  imports World
begin

text \<open>
  The crate \<open>sortinghat-fs\<close>: file identity, relative-path validation, descriptor-based opening,
  the atomic same-filesystem move, the verified staging copy, its publication and the retirement
  of the source, and their path-based variants. The lemmas show what each may change of the
  directory tree, when it succeeds and when it stops early.
\<close>

section \<open>Errors and identities\<close>

definition MAX_FILE_SIZE :: u64 where "MAX_FILE_SIZE = 4294967296"

datatype fs_error = FsUnsafePath | UnsafeSource | Oversized | FsCollision | FsIo errno
  | IdentityChanged | VerificationFailed

record identity =
  id_device :: u64
  id_inode :: u64
  id_size :: u64
  id_modified_ns :: int

definition modified_ns_of :: "stat \<Rightarrow> int" where
  "modified_ns_of m = st_mtime m * 1000000000 + st_mtime_nsec m"

definition identity_read :: "'w os \<Rightarrow> string \<Rightarrow> ('w, fs_error, identity) io" where
  "identity_read S path =
    and_then (map_err FsIo (os_lstat S path)) (\<lambda>m.
    and_then (fail_if (st_type m \<noteq> FRegular \<or> st_nlink m \<noteq> 1) UnsafeSource) (\<lambda>_.
    and_then (fail_if ((word_of_int (st_size m) :: u64) > MAX_FILE_SIZE) Oversized) (\<lambda>_.
    ok \<lparr>id_device = st_dev m, id_inode = st_ino m, id_size = word_of_int (st_size m),
      id_modified_ns = modified_ns_of m\<rparr>)))"

text \<open>
  \<open>StabilityTracker::sample\<close>: the tracker is the previous sample. \<open>duration_since\<close> of an
  earlier clock reading is an error, read as a zero duration.
\<close>

type_synonym tracker = "(identity \<times> int) option"

definition sample_stable :: "tracker \<Rightarrow> identity \<Rightarrow> int \<Rightarrow> int \<Rightarrow> bool" where
  "sample_stable previous i now settle = (case previous of None \<Rightarrow> False
     | Some (old, at) \<Rightarrow> old = i \<and> (if now \<ge> at then now - at else 0) \<ge> settle)"

definition stability_sample :: "'w os \<Rightarrow> tracker \<Rightarrow> string \<Rightarrow> int \<Rightarrow> ('w, fs_error, bool \<times> tracker) io" where
  "stability_sample S previous path settle =
    and_then (identity_read S path) (\<lambda>i.
    and_then (total (os_now S)) (\<lambda>now.
    ok (sample_stable previous i now settle, Some (i, now))))"

section \<open>Paths and descriptors\<close>

definition validate_relative :: "string \<Rightarrow> fs_error + unit" where
  "validate_relative path =
    (if path = [] \<or> length path > 4096 \<or> is_absolute path then Inl FsUnsafePath
     else if \<not> list_all is_normal (components path) then Inl FsUnsafePath
     else Inr ())"

definition open_root :: "'w os \<Rightarrow> string \<Rightarrow> ('w, fs_error, obj) io" where
  "open_root S root = map_err FsIo (os_open_dir S root)"

definition open_beneath :: "'w os \<Rightarrow> obj \<Rightarrow> string \<Rightarrow> oflags \<Rightarrow> ('w, fs_error, obj) io" where
  "open_beneath S root relative flags =
    and_then (lift_res (validate_relative relative)) (\<lambda>_.
    map_err FsIo (os_openat2 S root relative flags Beneath_No_Xdev))"

definition identity_fd :: "'w os \<Rightarrow> obj \<Rightarrow> ('w, fs_error, identity) io" where
  "identity_fd S fd =
    and_then (map_err FsIo (os_fstat S fd)) (\<lambda>m.
    and_then (fail_if (st_nlink m \<noteq> 1 \<or> st_size m < 0) UnsafeSource) (\<lambda>_.
    and_then (fail_if ((word_of_int (st_size m) :: u64) > MAX_FILE_SIZE) Oversized) (\<lambda>_.
    ok \<lparr>id_device = st_dev m, id_inode = st_ino m, id_size = word_of_int (st_size m),
      id_modified_ns = modified_ns_of m\<rparr>)))"

definition device_fd :: "'w os \<Rightarrow> obj \<Rightarrow> ('w, fs_error, u64) io" where
  "device_fd S fd = and_then (map_err FsIo (os_fstat S fd)) (\<lambda>m. ok (st_dev m))"

section \<open>The atomic move\<close>

definition rename_outcome :: "('w, errno, unit) io \<Rightarrow> ('w, fs_error, unit) io \<Rightarrow> ('w, fs_error, unit) io" where
  "rename_outcome rename done =
    and_then (try_result rename) (\<lambda>r. case r of
      Inr _ \<Rightarrow> done
    | Inl EXIST \<Rightarrow> err FsCollision
    | Inl e \<Rightarrow> err (FsIo e))"

definition same_filesystem_move_at_with ::
  "'w os \<Rightarrow> obj \<Rightarrow> string \<Rightarrow> obj \<Rightarrow> string \<Rightarrow> identity \<Rightarrow>
   (obj \<Rightarrow> string \<Rightarrow> obj \<Rightarrow> string \<Rightarrow> ('w, errno, unit) io) \<Rightarrow> ('w, fs_error, unit) io" where
  "same_filesystem_move_at_with S source_parent source_name destination_parent destination_name expected rename =
    and_then (map_err FsIo (os_openat2 S source_parent source_name O_RDONLY Beneath)) (\<lambda>source_fd.
    and_then (identity_fd S source_fd) (\<lambda>i.
    and_then (fail_if (i \<noteq> expected) IdentityChanged) (\<lambda>_.
    rename_outcome (rename source_parent source_name destination_parent destination_name)
     (and_then (map_err FsIo (os_fsync S source_parent)) (\<lambda>_.
      and_then (map_err FsIo (os_fsync S destination_parent)) (\<lambda>_.
      and_then (map_err FsIo (os_openat2 S destination_parent destination_name O_RDONLY Beneath)) (\<lambda>destination_fd.
      and_then (identity_fd S destination_fd) (\<lambda>j.
      fail_if (j \<noteq> expected) VerificationFailed))))))))"

definition same_filesystem_move_at ::
  "'w os \<Rightarrow> obj \<Rightarrow> string \<Rightarrow> obj \<Rightarrow> string \<Rightarrow> identity \<Rightarrow> ('w, fs_error, unit) io" where
  "same_filesystem_move_at S source_parent source_name destination_parent destination_name expected =
    same_filesystem_move_at_with S source_parent source_name destination_parent destination_name expected
      (os_rename_noreplace S)"

section \<open>The verified copy\<close>

text \<open>The read loops, over the results of the successive \<open>read\<close> calls; the list ends at \<open>count == 0\<close>.\<close>

fun hash_loop :: "(errno + bytes) list \<Rightarrow> bytes \<Rightarrow> errno + bytes" where
  "hash_loop [] hashed = Inr hashed"
| "hash_loop (Inl e # rs) hashed = Inl e"
| "hash_loop (Inr c # rs) hashed = hash_loop rs (hashed @ c)"

definition sha256_file :: "libs \<Rightarrow> 'w os \<Rightarrow> obj \<Rightarrow> ('w, fs_error, string) io" where
  "sha256_file L S fd =
    and_then (total (os_reads S fd)) (\<lambda>rs.
    and_then (map_err FsIo (lift_res (hash_loop rs []))) (\<lambda>hashed. ok (lib_sha256 L hashed)))"

fun copy_loop :: "'w os \<Rightarrow> obj \<Rightarrow> (errno + bytes) list \<Rightarrow> u64 \<Rightarrow> bytes \<Rightarrow> ('w, fs_error, u64 \<times> bytes) io" where
  "copy_loop S out [] copied hashed = ok (copied, hashed)"
| "copy_loop S out (Inl e # rs) copied hashed = err (FsIo e)"
| "copy_loop S out (Inr c # rs) copied hashed =
    and_then (lift_res (ok_or Oversized (checked_add_u64 copied (word_of_nat (length c))))) (\<lambda>copied'.
    and_then (fail_if (copied' > MAX_FILE_SIZE) Oversized) (\<lambda>_.
    and_then (map_err FsIo (os_write S out c)) (\<lambda>_.
    copy_loop S out rs copied' (hashed @ c))))"

definition create_outcome :: "errno \<Rightarrow> fs_error" where
  "create_outcome e = (if e = EXIST then FsCollision else FsIo e)"

text \<open>The output is flushed, given the mode and times of the source, and synced.\<close>

definition seal_stage :: "'w os \<Rightarrow> obj \<Rightarrow> stat \<Rightarrow> ('w, fs_error, unit) io" where
  "seal_stage S output source_stat =
    and_then (map_err FsIo (os_flush S output)) (\<lambda>_.
    and_then (map_err FsIo (os_fchmod S output (st_mode source_stat))) (\<lambda>_.
    and_then (map_err FsIo (os_futimens S output (st_atime source_stat, st_atime_nsec source_stat)
        (st_mtime source_stat, st_mtime_nsec source_stat))) (\<lambda>_.
    map_err FsIo (os_fsync S output))))"

text \<open>The number of bytes copied and the digest of the staged file read back are compared.\<close>

definition check_stage ::
  "libs \<Rightarrow> 'w os \<Rightarrow> obj \<Rightarrow> string \<Rightarrow> identity \<Rightarrow> u64 \<Rightarrow> bytes \<Rightarrow> ('w, fs_error, string) io" where
  "check_stage L S destination_parent staging_name expected copied hashed =
    and_then (fail_if (copied \<noteq> id_size expected) IdentityChanged) (\<lambda>_.
    and_then (map_err FsIo (os_openat2 S destination_parent staging_name O_RDONLY Beneath)) (\<lambda>staged.
    and_then (sha256_file L S staged) (\<lambda>staged_digest.
    and_then (fail_if (staged_digest \<noteq> lib_sha256 L hashed) VerificationFailed) (\<lambda>_.
    ok (lib_sha256 L hashed)))))"

definition verified_stage_copy_at ::
  "libs \<Rightarrow> 'w os \<Rightarrow> obj \<Rightarrow> obj \<Rightarrow> string \<Rightarrow> identity \<Rightarrow> ('w, fs_error, string) io" where
  "verified_stage_copy_at L S source destination_parent staging_name expected =
    and_then (identity_fd S source) (\<lambda>i.
    and_then (fail_if (i \<noteq> expected) IdentityChanged) (\<lambda>_.
    and_then (map_err FsIo (os_fstat S source)) (\<lambda>source_stat.
    and_then (map_err create_outcome (os_create_excl S destination_parent staging_name 384)) (\<lambda>output.
    and_then (map_err FsIo (os_dup S source)) (\<lambda>reader.
    and_then (total (os_reads S reader)) (\<lambda>rs.
    and_then (copy_loop S output rs 0 []) (\<lambda>r.
    and_then (seal_stage S output source_stat) (\<lambda>_.
    check_stage L S destination_parent staging_name expected (fst r) (snd r)))))))))"

definition publish_stage_at :: "'w os \<Rightarrow> obj \<Rightarrow> string \<Rightarrow> string \<Rightarrow> ('w, fs_error, unit) io" where
  "publish_stage_at S destination_parent staging_name destination_name =
    rename_outcome (os_rename_noreplace S destination_parent staging_name destination_parent destination_name)
      (map_err FsIo (os_fsync S destination_parent))"

definition verify_at :: "libs \<Rightarrow> 'w os \<Rightarrow> obj \<Rightarrow> string \<Rightarrow> string \<Rightarrow> ('w, fs_error, unit) io" where
  "verify_at L S par name expected_sha256 =
    and_then (map_err FsIo (os_openat2 S par name O_RDONLY Beneath)) (\<lambda>fd.
    and_then (sha256_file L S fd) (\<lambda>digest.
    fail_if (digest \<noteq> expected_sha256) VerificationFailed))"

definition retire_source_at ::
  "libs \<Rightarrow> 'w os \<Rightarrow> obj \<Rightarrow> string \<Rightarrow> identity \<Rightarrow> string \<Rightarrow> ('w, fs_error, unit) io" where
  "retire_source_at L S source_parent source_name expected expected_sha256 =
    and_then (map_err FsIo (os_openat2 S source_parent source_name O_RDONLY Beneath)) (\<lambda>fd.
    and_then (identity_fd S fd) (\<lambda>i.
    and_then (fail_if (i \<noteq> expected) IdentityChanged) (\<lambda>_.
    and_then (sha256_file L S fd) (\<lambda>digest.
    and_then (fail_if (digest \<noteq> expected_sha256) IdentityChanged) (\<lambda>_.
    and_then (map_err FsIo (os_unlinkat S source_parent source_name)) (\<lambda>_.
    map_err FsIo (os_fsync S source_parent)))))))"

section \<open>Path-based operations\<close>

definition validate_beneath :: "'w os \<Rightarrow> string \<Rightarrow> string \<Rightarrow> ('w, fs_error, string) io" where
  "validate_beneath S root relative =
    and_then (lift_res (validate_relative relative)) (\<lambda>_.
    and_then (map_err FsIo (os_canonicalize S root)) (\<lambda>root'.
    and_then (lift_res (ok_or FsUnsafePath (parent (path_join root' relative)))) (\<lambda>p.
    and_then (map_err FsIo (os_canonicalize S p)) (\<lambda>p'.
    and_then (fail_if (\<not> path_starts_with p' root') FsUnsafePath) (\<lambda>_.
    ok (path_join root' relative))))))"

definition open_and_sync :: "'w os \<Rightarrow> string \<Rightarrow> ('w, fs_error, unit) io" where
  "open_and_sync S p = and_then (map_err FsIo (os_open_file S p)) (\<lambda>fd. map_err FsIo (os_fsync S fd))"

definition same_filesystem_move :: "'w os \<Rightarrow> string \<Rightarrow> string \<Rightarrow> identity \<Rightarrow> ('w, fs_error, unit) io" where
  "same_filesystem_move S source destination expected =
    and_then (identity_read S source) (\<lambda>i.
    and_then (fail_if (i \<noteq> expected) IdentityChanged) (\<lambda>_.
    and_then (lift_res (ok_or FsUnsafePath (parent destination))) (\<lambda>p.
    rename_outcome (os_rename_path S source destination)
     (and_then (open_and_sync S p) (\<lambda>_.
      and_then (identity_read S destination) (\<lambda>j.
      fail_if (id_size j \<noteq> id_size expected) VerificationFailed))))))"

definition sha256 :: "libs \<Rightarrow> 'w os \<Rightarrow> string \<Rightarrow> ('w, fs_error, string) io" where
  "sha256 L S path = and_then (map_err FsIo (os_open_file S path)) (sha256_file L S)"

definition verified_stage_copy :: "libs \<Rightarrow> 'w os \<Rightarrow> string \<Rightarrow> string \<Rightarrow> identity \<Rightarrow> ('w, fs_error, string) io" where
  "verified_stage_copy L S source staging expected =
    and_then (identity_read S source) (\<lambda>i.
    and_then (fail_if (i \<noteq> expected) IdentityChanged) (\<lambda>_.
    and_then (map_err FsIo (os_open_file S source)) (\<lambda>input.
    and_then (map_err create_outcome (os_create_path S staging 384)) (\<lambda>output.
    and_then (total (os_reads S input)) (\<lambda>rs.
    and_then (copy_loop S output rs 0 []) (\<lambda>(copied, hashed).
    and_then (map_err FsIo (os_flush S output)) (\<lambda>_.
    and_then (map_err FsIo (os_fsync S output)) (\<lambda>_.
    and_then (fail_if (copied \<noteq> id_size expected) IdentityChanged) (\<lambda>_.
    and_then (sha256 L S staging) (\<lambda>staged_digest.
    and_then (fail_if (staged_digest \<noteq> lib_sha256 L hashed) VerificationFailed) (\<lambda>_.
    ok (lib_sha256 L hashed))))))))))))"

definition publish_stage :: "'w os \<Rightarrow> string \<Rightarrow> string \<Rightarrow> ('w, fs_error, unit) io" where
  "publish_stage S staging destination =
    rename_outcome (os_rename_path S staging destination)
     (and_then (lift_res (ok_or FsUnsafePath (parent destination))) (open_and_sync S))"

definition source_matches :: "'w os \<Rightarrow> string \<Rightarrow> identity \<Rightarrow> ('w, fs_error, bool) io" where
  "source_matches S source expected = and_then (identity_read S source) (\<lambda>i. ok (i = expected))"

fun any_folded :: "libs \<Rightarrow> string \<Rightarrow> (errno + string \<times> (errno + ftype)) list \<Rightarrow> fs_error + bool" where
  "any_folded L name [] = Inr False"
| "any_folded L name (Inl e # es) = Inl (FsIo e)"
| "any_folded L name (Inr (n, ty) # es) =
    (if lib_lowercase L (to_string_lossy n) = name then Inr True else any_folded L name es)"

definition destination_exists_case_folded :: "libs \<Rightarrow> 'w os \<Rightarrow> string \<Rightarrow> ('w, fs_error, bool) io" where
  "destination_exists_case_folded L S destination =
    and_then (lift_res (ok_or FsUnsafePath (file_name destination))) (\<lambda>n.
    and_then (lift_res (ok_or FsUnsafePath (parent destination))) (\<lambda>p.
    and_then (map_err FsIo (os_read_dir S p)) (\<lambda>entries.
    lift_res (any_folded L (lib_lowercase L (to_string_lossy n)) entries))))"

definition path_is_symlink :: "'w os \<Rightarrow> string \<Rightarrow> ('w, fs_error, bool) io" where
  "path_is_symlink S path = and_then (map_err FsIo (os_lstat S path)) (\<lambda>m. ok (st_type m = FSymlink))"

definition retire_source :: "libs \<Rightarrow> 'w os \<Rightarrow> string \<Rightarrow> identity \<Rightarrow> string \<Rightarrow> ('w, fs_error, unit) io" where
  "retire_source L S source expected expected_sha256 =
    and_then (identity_read S source) (\<lambda>i.
    and_then (fail_if (i \<noteq> expected) IdentityChanged) (\<lambda>_.
    and_then (sha256 L S source) (\<lambda>digest.
    and_then (fail_if (digest \<noteq> expected_sha256) IdentityChanged) (\<lambda>_.
    and_then (map_err FsIo (os_remove_path S source)) (\<lambda>_.
    and_then (lift_res (ok_or FsUnsafePath (parent source))) (open_and_sync S))))))"

section \<open>Computations that leave the files alone\<close>

definition quiet :: "('w \<Rightarrow> fsview) \<Rightarrow> ('w, 'e, 'a) io \<Rightarrow> bool" where
  "quiet view m \<longleftrightarrow> (\<forall>w r w'. m w = (r, w') \<longrightarrow> view w' = view w)"

lemma quietI: "(\<And>w r w'. m w = (r, w') \<Longrightarrow> view w' = view w) \<Longrightarrow> quiet view m"
  unfolding quiet_def by blast

lemma quietD: "quiet view m \<Longrightarrow> m w = (r, w') \<Longrightarrow> view w' = view w"
  unfolding quiet_def by blast

lemma quiet_keeps: "quiet view m \<Longrightarrow> keeps (\<lambda>w. P (view w)) m"
  by (rule keepsI) (simp add: quietD)

lemma quiet_triple: "quiet view m \<Longrightarrow> triple (\<lambda>w. P (view w)) m (\<lambda>_ w. P (view w)) (\<lambda>_ w. P (view w))"
  using quiet_keeps unfolding keeps_triple .

lemma quiet_by_keeps: "(\<And>v. keeps (\<lambda>w. view w = v) m) \<Longrightarrow> quiet view m"
  by (rule quietI) (blast dest: keepsD)

lemma quiet_pure [os_frame]:
  "quiet view (ok x)" "quiet view (err e)" "quiet view (lift_res r)" "quiet view (gets f)"
  "quiet view (fail_if c e')"
  by (auto intro!: quietI simp: io_defs split: if_splits)

lemma quiet_and_then [os_frame]:
  "quiet view m \<Longrightarrow> (\<And>x. quiet view (k x)) \<Longrightarrow> quiet view (and_then m k)"
  by (rule quiet_by_keeps, rule keeps_and_then) (auto intro: quiet_keeps)

lemma quiet_map_err [os_frame]: "quiet view m \<Longrightarrow> quiet view (map_err f m)"
  by (rule quiet_by_keeps, rule keeps_map_err) (rule quiet_keeps)

lemma quiet_try_result [os_frame]: "quiet view m \<Longrightarrow> quiet view (try_result m)"
  by (rule quiet_by_keeps, rule keeps_try_result) (rule quiet_keeps)

lemma quiet_total [os_frame]: "(\<And>w x w'. f w = (x, w') \<Longrightarrow> view w' = view w) \<Longrightarrow> quiet view (total f)"
  by (rule quietI) (auto simp: total_def split: prod.splits)

lemma quiet_if [os_frame]: "quiet view m \<Longrightarrow> quiet view m' \<Longrightarrow> quiet view (if c then m else m')"
  by simp

lemma quiet_case_option [os_frame]:
  "quiet view m \<Longrightarrow> (\<And>x. quiet view (k x)) \<Longrightarrow> quiet view (case t of None \<Rightarrow> m | Some x \<Rightarrow> k x)"
  by (cases t) auto

lemma quiet_case_prod [os_frame]:
  "(\<And>x y. quiet view (k x y)) \<Longrightarrow> quiet view (case t of (x, y) \<Rightarrow> k x y)"
  by (cases t) auto

text \<open>
  \<open>effect view v m Q E\<close>: started where the files are \<open>v\<close>, a successful \<open>m\<close> leaves files with
  \<open>Q\<close> of its value and a failed one files with \<open>E\<close>. The rules walk along the body of a
  function; a step that leaves the files alone contributes the fact that it succeeded.
\<close>

definition effect :: "('s \<Rightarrow> fsview) \<Rightarrow> fsview \<Rightarrow> ('s, 'e, 'a) io \<Rightarrow> ('a \<Rightarrow> fsview \<Rightarrow> bool) \<Rightarrow> (fsview \<Rightarrow> bool) \<Rightarrow> bool" where
  "effect view v m Q E \<longleftrightarrow> (\<forall>s r s'. view s = v \<longrightarrow> m s = (r, s') \<longrightarrow>
     (case r of Inr x \<Rightarrow> Q x (view s') | Inl _ \<Rightarrow> E (view s')))"

lemma effectI:
  assumes "\<And>s x s'. view s = v \<Longrightarrow> m s = (Inr x, s') \<Longrightarrow> Q x (view s')"
    and "\<And>s e s'. view s = v \<Longrightarrow> m s = (Inl e, s') \<Longrightarrow> E (view s')"
  shows "effect view v m Q E"
  unfolding effect_def using assms by (auto split: sum.splits)

lemma effectD:
  "effect view v m Q E \<Longrightarrow> view s = v \<Longrightarrow> m s = (r, s') \<Longrightarrow>
     (case r of Inr x \<Rightarrow> Q x (view s') | Inl _ \<Rightarrow> E (view s'))"
  unfolding effect_def by blast

lemma effect_okD: "effect view v m Q E \<Longrightarrow> view s = v \<Longrightarrow> m s = (Inr x, s') \<Longrightarrow> Q x (view s')"
  unfolding effect_def by fastforce

lemma effect_errD: "effect view v m Q E \<Longrightarrow> view s = v \<Longrightarrow> m s = (Inl e, s') \<Longrightarrow> E (view s')"
  unfolding effect_def by fastforce

lemma effect_weaken:
  assumes "effect view v m Q E" and "\<And>x u. Q x u \<Longrightarrow> Q' x u" and "\<And>u. E u \<Longrightarrow> E' u"
  shows "effect view v m Q' E'"
proof (rule effectI)
  show "Q' x (view s')" if "view s = v" "m s = (Inr x, s')" for s x s'
    using assms(2) effect_okD [OF assms(1) that] by blast
  show "E' (view s')" if "view s = v" "m s = (Inl e, s')" for s e s'
    using assms(3) effect_errD [OF assms(1) that] by blast
qed

lemma effect_then:
  assumes "effect view v m R E" and "\<And>x u. R x u \<Longrightarrow> effect view u (k x) Q E"
  shows "effect view v (and_then m k) Q E"
proof (rule effectI)
  fix s y s'' assume "view s = v" and "and_then m k s = (Inr y, s'')"
  then obtain x s' where m: "m s = (Inr x, s')" and k: "k x s' = (Inr y, s'')" by (auto simp: and_then_Inr)
  show "Q y (view s'')"
    using effect_okD [OF assms(2) [OF effect_okD [OF assms(1) \<open>view s = v\<close> m]] refl k] .
next
  fix s e s'' assume v: "view s = v" and "and_then m k s = (Inl e, s'')"
  then consider "m s = (Inl e, s'')" | x s' where "m s = (Inr x, s')" "k x s' = (Inl e, s'')"
    by (auto simp: and_then_Inl)
  then show "E (view s'')"
  proof cases
    case 1
    then show ?thesis by (rule effect_errD [OF assms(1) v])
  next
    case 2
    then show ?thesis using effect_errD [OF assms(2) [OF effect_okD [OF assms(1) v 2(1)]] refl 2(2)] by simp
  qed
qed

lemma effect_quiet:
  assumes "quiet view m" and "E v" and "\<And>s x s'. view s = v \<Longrightarrow> m s = (Inr x, s') \<Longrightarrow> effect view v (k x) Q E"
  shows "effect view v (and_then m k) Q E"
proof (rule effect_then [where R = "\<lambda>x u. u = v \<and> effect view v (k x) Q E"])
  show "effect view v m (\<lambda>x u. u = v \<and> effect view v (k x) Q E) E"
    by (rule effectI) (use assms quietD [OF assms(1)] in auto)
qed simp

lemma effect_last: "quiet view m \<Longrightarrow> E v \<Longrightarrow> (\<And>s x s'. view s = v \<Longrightarrow> m s = (Inr x, s') \<Longrightarrow> Q x v) \<Longrightarrow> effect view v m Q E"
  by (rule effectI) (auto dest: quietD)

lemma effect_fail_if:
  assumes "c \<Longrightarrow> E v" and "\<not> c \<Longrightarrow> effect view v (k ()) Q E"
  shows "effect view v (and_then (fail_if c e) k) Q E"
proof (cases c)
  case True
  then show ?thesis using assms(1) by (auto intro!: effectI simp: and_then_def fail_if_def)
next
  case False
  then have "and_then (fail_if c e) k = k ()" by (auto simp: and_then_def fail_if_def)
  then show ?thesis using assms(2) False by simp
qed

lemma effect_map_err: "effect view v m Q E \<Longrightarrow> effect view v (map_err f m) Q E"
  by (rule effectI) (auto dest: effect_okD effect_errD)

lemma effect_if: "(c \<Longrightarrow> effect view v m Q E) \<Longrightarrow> (\<not> c \<Longrightarrow> effect view v m' Q E) \<Longrightarrow>
    effect view v (if c then m else m') Q E"
  by simp

section \<open>What of the tree stays\<close>

definition data_at :: "fsview \<Rightarrow> obj \<Rightarrow> bytes option" where
  "data_at v x = map_option f_data (v_file v x)"

text \<open>Every entry outside \<open>K\<close> still names the same object, with the same content.\<close>

definition untouched :: "(obj \<times> string) set \<Rightarrow> fsview \<Rightarrow> fsview \<Rightarrow> bool" where
  "untouched K v v' \<longleftrightarrow> (\<forall>d n x. (d, n) \<notin> K \<longrightarrow> v_entry v d n = Some x \<longrightarrow>
     v_entry v' d n = Some x \<and> data_at v' x = data_at v x)"

lemma untouched_refl [simp]: "untouched K v v"
  by (simp add: untouched_def)

lemma untouched_trans: "untouched K v v' \<Longrightarrow> untouched K v' v'' \<Longrightarrow> untouched K v v''"
  by (simp add: untouched_def)

lemma untouched_mono: "untouched K v v' \<Longrightarrow> K \<subseteq> K' \<Longrightarrow> untouched K' v v'"
  unfolding untouched_def by blast

lemma untouched_absent: "untouched (insert (d, n) K) v v' \<Longrightarrow> v_entry v d n = None \<Longrightarrow> untouched K v v'"
  unfolding untouched_def by (metis insertE option.distinct(1) prod.inject)

text \<open>One regular object changed its name, to a free one.\<close>

definition moved :: "obj \<Rightarrow> string \<Rightarrow> obj \<Rightarrow> string \<Rightarrow> obj \<Rightarrow> fsview \<Rightarrow> fsview \<Rightarrow> bool" where
  "moved d n d' n' x v v' \<longleftrightarrow> v_entry v d n = Some x \<and> v_entry v d' n' = None \<and>
     (\<exists>p. v' = (move_entry d n d' n' v)\<lparr>v_dirpath := p\<rparr>)"

lemma moved_facts:
  assumes "moved d n d' n' x v v'"
  shows "v_entry v' d' n' = Some x" and "v_entry v' d n = None" and "v_file v' = v_file v"
    and "v_state v' = v_state v" and "v_next v' = v_next v"
    and "\<And>e m. (e, m) \<noteq> (d, n) \<Longrightarrow> (e, m) \<noteq> (d', n') \<Longrightarrow> v_entry v' e m = v_entry v e m"
    and "(d, n) \<noteq> (d', n')"
  using assms by (auto simp: moved_def)

lemma moved_untouched: "moved d n d' n' x v v' \<Longrightarrow> untouched {(d, n)} v v'"
  by (auto simp: untouched_def moved_def data_at_def)

text \<open>A new file was added under a free name.\<close>

definition staged :: "obj \<Rightarrow> string \<Rightarrow> obj \<Rightarrow> vfile \<Rightarrow> fsview \<Rightarrow> fsview \<Rightarrow> bool" where
  "staged d n x f v v' \<longleftrightarrow> v_entry v d n = None \<and> v_file v x = None \<and> (\<forall>e m. v_entry v e m \<noteq> Some x) \<and>
     v' = set_entry d n (Some x) (set_file x (Some f) v)"

lemma staged_untouched: "staged d n x f v v' \<Longrightarrow> untouched {} v v'"
  by (auto simp: untouched_def staged_def data_at_def)

lemma staged_facts:
  assumes "staged d n x f v v'"
  shows "v_entry v' d n = Some x" and "v_file v' x = Some f" and "v_file v y = Some g \<Longrightarrow> v_file v' y = Some g"
    and "v_entry v d n = None" and "v_state v' = v_state v" and "v_next v' = v_next v"
    and "(e, m) \<noteq> (d, n) \<Longrightarrow> v_entry v' e m = v_entry v e m"
  using assms by (auto simp: staged_def)

lemma staged_rewrite: "staged d n x f v v' \<Longrightarrow> staged d n x g v (set_file x (Some g) v')"
  by (auto simp: staged_def set_file_def set_entry_def)

text \<open>An entry was removed; the content stays wherever another entry still names the object.\<close>

definition retired :: "obj \<Rightarrow> string \<Rightarrow> obj \<Rightarrow> fsview \<Rightarrow> fsview \<Rightarrow> bool" where
  "retired d n x v v' \<longleftrightarrow> v_entry v d n = Some x \<and> v_entry v' d n = None \<and> untouched {(d, n)} v v' \<and>
     (\<forall>y. y \<noteq> x \<longrightarrow> v_file v' y = v_file v y) \<and>
     (\<forall>e m. (e, m) \<noteq> (d, n) \<longrightarrow> v_entry v' e m = v_entry v e m) \<and>
     v_state v' = v_state v \<and> v_next v' = v_next v"

text \<open>The identity a regular file has.\<close>

definition identity_of :: "obj \<Rightarrow> vfile \<Rightarrow> identity" where
  "identity_of x f = \<lparr>id_device = dev_of x, id_inode = ino_of x, id_size = word_of_int (int (length (f_data f))),
     id_modified_ns = f_mtime f * 1000000000 + f_mtime_nsec f\<rparr>"

definition object_of :: "identity \<Rightarrow> obj" where
  "object_of i = Obj (id_device i) (id_inode i)"

lemma object_of_identity_of [simp]: "object_of (identity_of x f) = x"
  by (simp add: object_of_def identity_of_def)

text \<open>The source was removed, and had the expected identity and digest.\<close>

definition retired_checked :: "libs \<Rightarrow> obj \<Rightarrow> string \<Rightarrow> identity \<Rightarrow> string \<Rightarrow> fsview \<Rightarrow> fsview \<Rightarrow> bool" where
  "retired_checked L d n i h v u \<longleftrightarrow> retired d n (object_of i) v u \<and>
     (\<forall>f. v_file v (object_of i) = Some f \<longrightarrow> i = identity_of (object_of i) f \<and> f_nlink f = 1 \<and> lib_sha256 L (f_data f) = h)"

context posix
begin

lemma quiet_calls [os_frame]:
  "quiet view (os_lstat S p)" "quiet view (os_stat S p)" "quiet view (os_open_dir S p)"
  "quiet view (os_open_file S p)" "quiet view (os_openat2 S d p fl rs)" "quiet view (os_fstat S d)"
  "quiet view (os_fsync S d)" "quiet view (os_dup S d)" "quiet view (total (os_reads S d))"
  "quiet view (os_read_once S d k)" "quiet view (os_read_dir S p)" "quiet view (os_canonicalize S p)" "quiet view (total (os_now S))"
  "quiet view (total (os_new_uuid S))" "quiet view (total (os_db S))" "quiet view (total (os_epoch S))"
  "quiet view (os_file_len S p)" "quiet view (os_next_sync S)" "quiet view (os_state_dir_sync S)"
  "quiet view (os_state_read S k)" "quiet view (os_spawn S exe args)" "quiet view (os_child_write S b)"
  "quiet view (total (os_child_polls S))" "quiet view (os_child_kill S)"
  "quiet view (os_child_output S)" "quiet view (os_state_mkdir S)" "quiet view (total (os_state_exists S))"
  "quiet view (os_state_open S)" "quiet view (os_state_len S)" "quiet view (os_child_wait S)"
  by (rule quietI, auto simp: total_def split: prod.splits
      dest: lstat_view stat_view open_dir_view open_file_view openat2_view fstat_view fsync_view dup_view
        reads_view read_once_view read_dir_view canonicalize_view now_view new_uuid_view db_view epoch_view file_len_view
        next_sync_view state_dir_sync_view state_read_view spawn_view child_write_view child_polls_view
        child_output_view child_kill_view child_wait_view state_mkdir_view state_exists_view state_open_view state_len_view)+

lemma quiet_reading [os_frame]:
  "quiet view (identity_read S p)" "quiet view (stability_sample S t p settle)"
  "quiet view (open_root S p)" "quiet view (open_beneath S d p fl)" "quiet view (identity_fd S d)"
  "quiet view (device_fd S d)" "quiet view (sha256_file L S d)" "quiet view (verify_at L S d n h)"
  "quiet view (validate_beneath S p q)" "quiet view (open_and_sync S p)" "quiet view (sha256 L S p)"
  "quiet view (source_matches S p i)" "quiet view (destination_exists_case_folded L S p)"
  "quiet view (path_is_symlink S p)"
  unfolding identity_read_def stability_sample_def open_root_def open_beneath_def identity_fd_def
    device_fd_def sha256_file_def verify_at_def validate_beneath_def open_and_sync_def sha256_def
    source_matches_def destination_exists_case_folded_def path_is_symlink_def
  by (intro os_frame quiet_calls; simp)+

end

end
