(* ===== verification/Fs_Laws.thy ===== *)
theory Fs_Laws
  imports Fs_Primitives
begin

text \<open>
  What each operation of \<open>sortinghat-fs\<close> guarantees under the contract of the system calls:
  when it returns \<open>Ok\<close>, what it has read or changed; when it returns \<open>Err\<close>, how far it can
  have got.
\<close>

section \<open>Reading loops\<close>

lemma hash_loop_ok: "hash_loop rs h = Inr b \<Longrightarrow> \<exists>cs. rs = map Inr cs \<and> b = h @ concat cs"
proof (induction rs h rule: hash_loop.induct)
  case (3 c rs h)
  then obtain cs where "rs = map Inr cs" "b = (h @ c) @ concat cs" by auto
  then show ?case by (intro exI [of _ "c # cs"]) simp
qed auto

lemma copy_loop_ok:
  "copy_loop S out rs copied h w = (Inr (n, b), w') \<Longrightarrow>
     \<exists>cs. rs = map Inr cs \<and> b = h @ concat cs \<and> (n = copied \<or> n \<le> MAX_FILE_SIZE) \<and>
       ((\<forall>c \<in> set cs. length c \<le> 65536) \<longrightarrow> unat n = unat copied + length (concat cs))"
proof (induction S out rs copied h arbitrary: w rule: copy_loop.induct)
  case (3 S out c rs copied h)
  from "3.prems" obtain k w1 where k: "checked_add_u64 copied (word_of_nat (length c)) = Some k"
    and lim: "\<not> k > MAX_FILE_SIZE" and rest: "copy_loop S out rs k (h @ c) w1 = (Inr (n, b), w')"
    by (auto simp: and_then_Inr)
  from "3.IH" [OF rest] obtain cs where cs: "rs = map Inr cs" "b = (h @ c) @ concat cs"
    "n = k \<or> n \<le> MAX_FILE_SIZE"
    "(\<forall>c \<in> set cs. length c \<le> 65536) \<longrightarrow> unat n = unat k + length (concat cs)"
    by blast
  have "length c \<le> 65536 \<Longrightarrow> unat (word_of_nat (length c) :: u64) = length c"
    by (simp add: unat_of_nat take_bit_nat_eq_self)
  then have "length c \<le> 65536 \<Longrightarrow> unat k = unat copied + length c"
    using checked_add_u64_unat [OF k] by simp
  with cs lim show ?case
    by (intro exI [of _ "c # cs"]) auto
qed auto

text \<open>While the copy runs, the files are those at the start and one new file of some content.\<close>

definition staging :: "obj \<Rightarrow> string \<Rightarrow> obj \<Rightarrow> fsview \<Rightarrow> fsview \<Rightarrow> bool" where
  "staging d n x v u \<longleftrightarrow> (\<exists>f. staged d n x f v u)"

context posix
begin

section \<open>Identity\<close>

lemma identity_read_ok:
  assumes "identity_read S p w = (Inr i, w')" and "plain_path p"
  shows "\<exists>f. v_lookup (view w) p = Some (object_of i) \<and> v_file (view w) (object_of i) = Some f \<and>
    i = identity_of (object_of i) f \<and> f_nlink f = 1 \<and> view w' = view w"
proof -
  from assms(1) obtain m where m: "os_lstat S p w = (Inr m, w')" "st_type m = FRegular" "st_nlink m = 1"
    "i = \<lparr>id_device = st_dev m, id_inode = st_ino m, id_size = word_of_int (st_size m),
      id_modified_ns = modified_ns_of m\<rparr>"
    unfolding identity_read_def by (auto simp: and_then_Inr)
  from lstat_ok [OF m(1) assms(2)] obtain x where x: "v_lookup (view w) p = Some x"
    "st_dev m = dev_of x" "st_ino m = ino_of x"
    "case v_file (view w) x of Some f \<Rightarrow> stat_of x f m | None \<Rightarrow> st_type m \<noteq> FRegular"
    by blast
  then obtain f where f: "v_file (view w) x = Some f" "stat_of x f m"
    using m(2) by (cases "v_file (view w) x") auto
  have "i = identity_of x f" using f(2) m(4) x
    by (simp add: identity_of_def stat_of_def modified_ns_of_def)
  moreover have "f_nlink f = 1" using f(2) m(3) by (simp add: stat_of_def)
  ultimately show ?thesis using x f lstat_view [OF m(1)] by auto
qed

lemma identity_fd_ok:
  assumes "identity_fd S x w = (Inr i, w')"
  shows "object_of i = x" and "v_file (view w) x = Some f \<Longrightarrow> i = identity_of x f \<and> f_nlink f = 1"
    and "view w' = view w"
proof -
  from assms obtain m where m: "os_fstat S x w = (Inr m, w')" "st_nlink m = 1"
    "i = \<lparr>id_device = st_dev m, id_inode = st_ino m, id_size = word_of_int (st_size m),
      id_modified_ns = modified_ns_of m\<rparr>"
    unfolding identity_fd_def by (auto simp: and_then_Inr)
  from fstat_ok [OF m(1)] have x: "st_dev m = dev_of x" "st_ino m = ino_of x"
    "case v_file (view w) x of Some f \<Rightarrow> stat_of x f m | None \<Rightarrow> True" by blast+
  then show "object_of i = x" using m(3) by (simp add: object_of_def)
  show "i = identity_of x f \<and> f_nlink f = 1" if "v_file (view w) x = Some f"
    using x that m by (simp add: identity_of_def stat_of_def modified_ns_of_def)
  show "view w' = view w" using fstat_view [OF m(1)] .
qed

lemma sha256_file_ok:
  assumes "sha256_file L S x w = (Inr h, w')" and "v_file (view w) x = Some f"
  shows "h = lib_sha256 L (f_data f)"
proof -
  from assms(1) obtain rs w1 b where "os_reads S x w = (rs, w1)" "hash_loop rs [] = Inr b" "h = lib_sha256 L b"
    unfolding sha256_file_def by (auto simp: and_then_Inr)
  moreover then obtain cs where "rs = map Inr cs" "b = concat cs" using hash_loop_ok [of rs "[]" b] by auto
  ultimately show ?thesis using reads_ok assms(2) by metis
qed

lemma sha256_ok:
  assumes "sha256 L S p w = (Inr h, w')" and "plain_path p"
    and "v_lookup (view w) p = Some x" and "v_file (view w) x = Some f"
  shows "h = lib_sha256 L (f_data f)"
proof -
  from assms(1) obtain y w1 where o': "os_open_file S p w = (Inr y, w1)" and h: "sha256_file L S y w1 = (Inr h, w')"
    unfolding sha256_def by (auto simp: and_then_Inr)
  have "y = x" using open_file_ok [OF o' assms(2,3)] assms(4) by simp
  with h assms(4) open_file_view [OF o'] show ?thesis by (auto dest: sha256_file_ok)
qed

section \<open>The atomic move\<close>

lemma effect_rename_outcome:
  assumes "\<And>w w'. view w = v \<Longrightarrow> ren w = (Inr (), w') \<Longrightarrow> Q (view w')"
    and "\<And>w e w'. ren w = (Inl e, w') \<Longrightarrow> view w' = view w" and "quiet view fin"
  shows "effect view v (rename_outcome ren fin) (\<lambda>_. Q) (\<lambda>u. u = v \<or> Q u)"
  unfolding rename_outcome_def
proof (rule effect_then)
  show "effect view v (try_result ren) (\<lambda>r u. if r = Inr () then Q u else u = v) (\<lambda>u. u = v \<or> Q u)"
  proof (rule effectI)
    fix w r w' assume w: "view w = v" and "try_result ren w = (Inr r, w')"
    then have run: "ren w = (r, w')" by simp
    show "if r = Inr () then Q (view w') else view w' = v"
    proof (cases r)
      case (Inl e)
      with assms(2) [of w e w'] run w show ?thesis by simp
    qed (use assms(1) [OF w] run in auto)
  qed simp
next
  fix r :: "errno + unit" and u
  assume r: "if r = Inr () then Q u else u = v"
  show "effect view u (case r of Inr _ \<Rightarrow> fin | Inl EXIST \<Rightarrow> err FsCollision | Inl e \<Rightarrow> err (FsIo e))
      (\<lambda>_. Q) (\<lambda>u. u = v \<or> Q u)"
  proof (cases r)
    case (Inl e)
    with r show ?thesis by (cases e) (auto intro!: effectI)
  next
    case (Inr x)
    with r show ?thesis by (auto intro: effect_last [OF assms(3)])
  qed
qed

lemma rename_moved:
  assumes "os_rename_noreplace S d n d' n' w = (Inr (), w')" and "entry_name n" and "entry_name n'"
  shows "\<exists>x. v_entry (view w) d n = Some x \<and> moved d n d' n' x (view w) (view w')"
  using rename_ok [OF assms] unfolding moved_def by blast

lemma move_at_effect:
  assumes "entry_name n" and "entry_name n'"
  shows "effect view v (same_filesystem_move_at S d n d' n' i)
    (\<lambda>_. moved d n d' n' (object_of i) v) (\<lambda>u. u = v \<or> moved d n d' n' (object_of i) v u)"
  unfolding same_filesystem_move_at_def same_filesystem_move_at_with_def
proof (rule effect_quiet [OF quiet_map_err [OF quiet_calls(5)]], simp)
  fix w fd w' assume "view w = v" and "map_err FsIo (os_openat2 S d n O_RDONLY Beneath) w = (Inr fd, w')"
  then have fd: "v_entry v d n = Some fd" using openat2_ok [OF _ assms(1)] by auto
  let ?fin = "and_then (map_err FsIo (os_fsync S d)) (\<lambda>_.
            and_then (map_err FsIo (os_fsync S d')) (\<lambda>_.
            and_then (map_err FsIo (os_openat2 S d' n' O_RDONLY Beneath)) (\<lambda>destination_fd.
            and_then (identity_fd S destination_fd) (\<lambda>j. fail_if (j \<noteq> i) VerificationFailed))))"
  have fin: "quiet view ?fin" by (intro os_frame quiet_calls quiet_reading)
  show "effect view v (and_then (identity_fd S fd) (\<lambda>j. and_then (fail_if (j \<noteq> i) IdentityChanged) (\<lambda>_.
          rename_outcome (os_rename_noreplace S d n d' n') ?fin)))
      (\<lambda>_. moved d n d' n' (object_of i) v) (\<lambda>u. u = v \<or> moved d n d' n' (object_of i) v u)"
  proof (rule effect_quiet [OF quiet_reading(5)], simp, rule effect_fail_if, simp)
    fix w1 j w1' assume "identity_fd S fd w1 = (Inr j, w1')" and "\<not> j \<noteq> i"
    then have x: "v_entry v d n = Some (object_of i)" using fd identity_fd_ok by auto
    show "effect view v (rename_outcome (os_rename_noreplace S d n d' n') ?fin)
      (\<lambda>_. moved d n d' n' (object_of i) v) (\<lambda>u. u = v \<or> moved d n d' n' (object_of i) v u)"
    proof (rule effect_rename_outcome [OF _ _ fin])
      fix w w' assume "view w = v" and "os_rename_noreplace S d n d' n' w = (Inr (), w')"
      with rename_moved [OF this(2) assms] x show "moved d n d' n' (object_of i) v (view w')" by auto
    qed (rule rename_err)
  qed
qed

section \<open>The verified copy\<close>

lemma staged_change:
  assumes "os = os_write S x b \<or> os = os_flush S x \<or> os = os_fchmod S x md \<or> os = os_futimens S x ta tm"
    and "staged d n x f v (view w)" and "os w = (r, w')"
  shows "\<exists>g. staged d n x g v (view w')"
proof -
  have "v_file (view w) x = Some f" using assms(2) by (rule staged_facts)
  then obtain g where "view w' = set_file x (Some g) (view w)"
    using assms(1,3) write_changes flush_changes fchmod_changes futimens_changes by metis
  with staged_rewrite [OF assms(2)] show ?thesis by auto
qed

lemma staging_step:
  assumes "os = os_write S x b \<or> os = os_flush S x \<or> os = os_fchmod S x md \<or> os = os_futimens S x ta tm"
    and "staging d n x v u"
  shows "effect view u (map_err FsIo os) (\<lambda>_. staging d n x v) (staging d n x v)"
  using assms(2) staged_change [OF assms(1)] unfolding staging_def
  by (intro effectI) fastforce+

lemma copy_loop_effect:
  "staging d n x v u \<Longrightarrow> effect view u (copy_loop S x rs copied h) (\<lambda>_. staging d n x v) (staging d n x v)"
proof (induction rs arbitrary: copied h u)
  case Nil
  then show ?case by (auto intro: effectI)
next
  case (Cons r rs)
  show ?case
  proof (cases r)
    case (Inl e)
    with Cons.prems show ?thesis by (auto intro: effectI)
  next
    case (Inr c)
    show ?thesis unfolding Inr copy_loop.simps
      by (rule effect_quiet [OF quiet_pure(3)], rule Cons.prems, rule effect_fail_if, rule Cons.prems,
          rule effect_then, rule staging_step [OF disjI1 [OF refl] Cons.prems], rule Cons.IH)
  qed
qed

lemma seal_effect:
  assumes "staging d n x v u"
  shows "effect view u (seal_stage S x m) (\<lambda>_. staging d n x v) (staging d n x v)"
  unfolding seal_stage_def
proof (rule effect_then)
  show "effect view u (map_err FsIo (os_flush S x)) (\<lambda>_. staging d n x v) (staging d n x v)"
    using assms by (rule staging_step [rotated]) blast
next
  fix u1 assume "staging d n x v u1"
  then have a: "effect view u1 (map_err FsIo (os_fchmod S x (st_mode m))) (\<lambda>_. staging d n x v) (staging d n x v)"
    by (rule staging_step [rotated]) blast
  have b: "effect view u2 (map_err FsIo (os_futimens S x (st_atime m, st_atime_nsec m) (st_mtime m, st_mtime_nsec m)))
      (\<lambda>_. staging d n x v) (staging d n x v)" if "staging d n x v u2" for u2
    using that by (rule staging_step [rotated]) blast
  show "effect view u1 (and_then (map_err FsIo (os_fchmod S x (st_mode m))) (\<lambda>_.
      and_then (map_err FsIo (os_futimens S x (st_atime m, st_atime_nsec m) (st_mtime m, st_mtime_nsec m))) (\<lambda>_.
      map_err FsIo (os_fsync S x)))) (\<lambda>_. staging d n x v) (staging d n x v)"
    by (rule effect_then [OF a], rule effect_then [OF b], assumption,
        rule effect_last [OF quiet_map_err [OF quiet_calls(7)]])
qed

lemma quiet_check_stage: "quiet view (check_stage L S d n i k h)"
  unfolding check_stage_def by (intro os_frame quiet_calls quiet_reading)

lemma check_stage_ok:
  assumes "entry_name n" and "check_stage L S d n i k b w = (Inr h, w')" and "staged d n x f v (view w)"
  shows "h = lib_sha256 L b \<and> lib_sha256 L (f_data f) = lib_sha256 L b \<and> k = id_size i"
proof -
  from assms(2) obtain y w1 where y: "os_openat2 S d n O_RDONLY Beneath w = (Inr y, w1)"
    and h: "sha256_file L S y w1 = (Inr (lib_sha256 L b), w')" "h = lib_sha256 L b" "k = id_size i"
    unfolding check_stage_def by (auto simp: and_then_Inr)
  have "y = x" using openat2_ok [OF y assms(1)] staged_facts(1) [OF assms(3)] by simp
  moreover have "v_file (view w1) x = Some f" using staged_facts(2) [OF assms(3)] openat2_view [OF y] by simp
  ultimately show ?thesis using h sha256_file_ok by metis
qed

text \<open>
  The staging copy: on success a new file stands under the staging name, whose content has
  the returned digest, the digest of the source's content; on failure nothing else has changed.
\<close>

lemma create_effect:
  assumes n: "entry_name n"
  shows "effect view v (map_err create_outcome (os_create_excl S d n 384)) (\<lambda>x. staging d n x v) (\<lambda>u. u = v)"
proof (rule effectI)
  fix w x w' assume "view w = v" and "map_err create_outcome (os_create_excl S d n 384) w = (Inr x, w')"
  then show "staging d n x v (view w')" using create_ok [OF _ n, of d 384 w x w']
    unfolding staging_def staged_def by auto
next
  fix w e w' assume "view w = v" and "map_err create_outcome (os_create_excl S d n 384) w = (Inl e, w')"
  then show "view w' = v" using create_err by auto
qed

lemma copied_effect:
  assumes st: "staging d n x v u"
  shows "effect view u (copy_loop S x rs 0 [])
    (\<lambda>r u. staging d n x v u \<and> (\<exists>cs. rs = map Inr cs \<and> snd r = concat cs)) (staging d n x v)"
proof (rule effectI)
  fix w r w' assume w: "view w = u" "copy_loop S x rs 0 [] w = (Inr r, w')"
  have "staging d n x v (view w')" using effect_okD [OF copy_loop_effect [OF st] w] .
  moreover have "\<exists>cs. rs = map Inr cs \<and> snd r = concat cs"
    using w(2) copy_loop_ok [of S x rs 0 "[]" w "fst r" "snd r" w'] by auto
  ultimately show "staging d n x v (view w') \<and> (\<exists>cs. rs = map Inr cs \<and> snd r = concat cs)" by simp
next
  fix w e w' assume w: "view w = u" "copy_loop S x rs 0 [] w = (Inl e, w')"
  then show "staging d n x v (view w')" using effect_errD [OF copy_loop_effect [OF st] w] by blast
qed

text \<open>The copy from the successive reads \<open>rs\<close> to the comparison of the digests.\<close>

lemma copy_tail_effect:
  assumes n: "entry_name n" and st: "staging d n x v u"
  shows "effect view u (and_then (copy_loop S x rs 0 []) (\<lambda>r. and_then (seal_stage S x m) (\<lambda>_.
      check_stage L S d n i (fst r) (snd r))))
    (\<lambda>h u. (\<exists>f. staged d n x f v u \<and> lib_sha256 L (f_data f) = h) \<and>
      (\<exists>cs. rs = map Inr cs \<and> h = lib_sha256 L (concat cs)))
    (staging d n x v)" (is "effect view u _ ?Q ?E")
proof (rule effect_then [OF copied_effect [OF st]], goal_cases)
  case (1 r u1)
  then have st1: "staging d n x v u1" and bytes: "\<exists>cs. rs = map Inr cs \<and> snd r = concat cs" by auto
  show ?case
  proof (rule effect_then [OF seal_effect [OF st1]], rule effect_last [OF quiet_check_stage])
    fix u2 assume st2: "staging d n x v u2"
    then show "?E u2" .
    fix w5 h w5' assume "view w5 = u2" and c: "check_stage L S d n i (fst r) (snd r) w5 = (Inr h, w5')"
    with st2 obtain f where f: "staged d n x f v (view w5)" "staged d n x f v u2" unfolding staging_def by auto
    with check_stage_ok [OF n c f(1)] bytes show "?Q h u2" by auto
  qed
qed

lemma stage_copy_effect:
  assumes n: "entry_name n"
  shows "effect view v (verified_stage_copy_at L S src d n i)
    (\<lambda>h u. object_of i = src \<and> (\<exists>x f. staged d n x f v u \<and> lib_sha256 L (f_data f) = h) \<and>
       (\<forall>g. v_file v src = Some g \<longrightarrow> i = identity_of src g \<and> h = lib_sha256 L (f_data g)))
    (\<lambda>u. u = v \<or> (\<exists>x. staging d n x v u))"
  (is "effect view v _ ?Q ?E")
  unfolding verified_stage_copy_at_def
proof (rule effect_quiet [OF quiet_reading(5)], simp, rule effect_fail_if, simp,
    rule effect_quiet [OF quiet_map_err [OF quiet_calls(6)]], simp,
    rule effect_then [where R = "\<lambda>x. staging d n x v", OF effect_weaken [OF create_effect [OF n]]], assumption, simp)
  fix w1 j w1' w2 m w2' x u
  assume w1: "view w1 = v" "identity_fd S src w1 = (Inr j, w1')" "\<not> j \<noteq> i" and st: "staging d n x v u"
  have i: "object_of i = src" and g: "v_file v src = Some g \<Longrightarrow> i = identity_of src g" for g
    using w1 identity_fd_ok by auto
  have E: "?E u" using st by blast
  show "effect view u (and_then (map_err FsIo (os_dup S src)) (\<lambda>reader. and_then (total (os_reads S reader)) (\<lambda>rs.
      and_then (copy_loop S x rs 0 []) (\<lambda>r. and_then (seal_stage S x m) (\<lambda>_.
      check_stage L S d n i (fst r) (snd r)))))) ?Q ?E"
  proof (rule effect_quiet [OF quiet_map_err [OF quiet_calls(8)]], rule E,
      rule effect_quiet [OF quiet_calls(9)], rule E, rule effect_weaken [OF copy_tail_effect [OF n st]])
    fix w3 y w3' w4 rs w4' h u2
    assume "map_err FsIo (os_dup S src) w3 = (Inr y, w3')" and w4: "view w4 = u" "total (os_reads S y) w4 = (Inr rs, w4')"
      and q: "(\<exists>f. staged d n x f v u2 \<and> lib_sha256 L (f_data f) = h) \<and>
        (\<exists>cs. rs = map Inr cs \<and> h = lib_sha256 L (concat cs))"
    then have y: "y = src" using dup_ok by auto
    have "h = lib_sha256 L (f_data k)" if "v_file v src = Some k" for k
    proof -
      have "v_file u src = Some k" using st that staged_facts(3) unfolding staging_def by blast
      then show ?thesis using q w4 reads_ok by (auto simp: y)
    qed
    then show "?Q h u2" using q i g by blast
  qed blast
qed

section \<open>Publishing, verifying, retiring\<close>

lemma publish_effect:
  assumes "entry_name sn" and "entry_name n" and x: "v_entry v d sn = Some x"
  shows "effect view v (publish_stage_at S d sn n) (\<lambda>_. moved d sn d n x v) (\<lambda>u. u = v \<or> moved d sn d n x v u)"
  unfolding publish_stage_at_def
proof (rule effect_rename_outcome [OF _ _ quiet_map_err [OF quiet_calls(7)]])
  fix w w' assume "view w = v" and "os_rename_noreplace S d sn d n w = (Inr (), w')"
  with rename_moved [OF this(2) assms(1,2)] x show "moved d sn d n x v (view w')" by auto
qed (rule rename_err)

lemma verify_at_ok:
  assumes "entry_name n" and "verify_at L S d n h w = (Inr (), w')"
  shows "\<exists>x. v_entry (view w) d n = Some x \<and> (\<forall>f. v_file (view w) x = Some f \<longrightarrow> lib_sha256 L (f_data f) = h)"
proof -
  from assms(2) obtain x w1 where x: "os_openat2 S d n O_RDONLY Beneath w = (Inr x, w1)"
    and h: "sha256_file L S x w1 = (Inr h, w')"
    unfolding verify_at_def by (auto simp: and_then_Inr)
  have "v_file (view w) x = Some f \<Longrightarrow> lib_sha256 L (f_data f) = h" for f
    using sha256_file_ok [OF h] openat2_view [OF x] by auto
  with openat2_ok [OF x assms(1)] show ?thesis by blast
qed

lemma unlink_retired:
  assumes "os_unlinkat S d n w = (Inr (), w')" and "entry_name n" and "v_entry (view w) d n = Some x"
  shows "retired d n x (view w) (view w')"
proof -
  obtain y fo dp where y: "v_entry (view w) d n = Some y"
    and v0: "view w' = (set_entry d n None (set_file y fo (view w)))\<lparr>v_dirpath := dp\<rparr>"
    and g: "\<forall>g. fo = Some g \<longrightarrow> data_at (view w) y = Some (f_data g)"
    and nl: "fo = None \<longrightarrow> v_file (view w) y \<noteq> None \<longrightarrow> (\<forall>e m. v_entry (view w) e m = Some y \<longrightarrow> e = d \<and> m = n)"
    using unlink_ok [OF assms(1,2)] unfolding data_at_def by blast
  have v: "view w' = (set_entry d n None (set_file x fo (view w)))\<lparr>v_dirpath := dp\<rparr>"
    using v0 y assms(3) by simp
  have "untouched {(d, n)} (view w) (view w')"
    unfolding untouched_def
  proof (intro allI impI)
    fix e m z assume k: "(e, m) \<notin> {(d, n)}" and e: "v_entry (view w) e m = Some z"
    have "data_at (view w') z = data_at (view w) z"
    proof (cases "z = x")
      case True
      show ?thesis
      proof (cases fo)
        case None
        have "v_file (view w) x = None"
          using nl None y assms(3) e k True by (cases "v_file (view w) x") auto
        with None True v show ?thesis by (simp add: data_at_def)
      next
        case (Some h)
        with g y assms(3) True v show ?thesis by (auto simp: data_at_def)
      qed
    next
      case False
      then show ?thesis by (simp add: v data_at_def)
    qed
    with e k v show "v_entry (view w') e m = Some z \<and> data_at (view w') z = data_at (view w) z" by auto
  qed
  with v assms(3) show ?thesis by (auto simp: retired_def)
qed

text \<open>The source is unlinked only where it has the expected identity and the expected digest.\<close>

lemma unlink_checked:
  assumes n: "entry_name n"
    and "map_err FsIo (os_openat2 S d n O_RDONLY Beneath) w1 = (Inr fd, w1')" and "view w1 = v"
    and i: "identity_fd S fd w2 = (Inr i, w2')" and v2: "view w2 = v"
    and h: "sha256_file L S fd w3 = (Inr h, w3')" and v3: "view w3 = v"
    and u: "os_unlinkat S d n w4 = (Inr (), w4')" and v4: "view w4 = v"
  shows "retired_checked L d n i h v (view w4')"
  unfolding retired_checked_def
proof (intro conjI allI impI)
  have fd: "v_entry v d n = Some fd" using openat2_ok [OF _ n] assms(2,3) by (metis map_err_iff(1))
  have fdi: "fd = object_of i" using identity_fd_ok(1) [OF i] by simp
  have e: "v_entry (view w4) d n = Some (object_of i)" using v4 fd fdi by simp
  show "retired d n (object_of i) v (view w4')" using unlink_retired [OF u n e] v4 by simp
  fix f assume "v_file v (object_of i) = Some f"
  then have f: "v_file (view w2) fd = Some f" "v_file (view w3) fd = Some f" unfolding fdi v2 v3 by simp_all
  show "i = identity_of (object_of i) f" "f_nlink f = 1" using identity_fd_ok(2) [OF i f(1)] unfolding fdi by blast+
  show "lib_sha256 L (f_data f) = h" using sha256_file_ok [OF h f(2)] by simp
qed

lemma retire_effect:
  assumes "entry_name n"
  shows "effect view v (retire_source_at L S d n i h) (\<lambda>_. retired_checked L d n i h v)
    (\<lambda>u. u = v \<or> retired_checked L d n i h v u)"
  (is "effect view v _ ?Q ?E")
  unfolding retire_source_at_def
proof (rule effect_quiet [OF quiet_map_err [OF quiet_calls(5)]], simp,
    rule effect_quiet [OF quiet_reading(5)], simp, rule effect_fail_if, simp,
    rule effect_quiet [OF quiet_reading(7)], simp, rule effect_fail_if, simp, rule effect_then)
  fix w1 fd w1' w2 j w2' w3 k w3'
  assume a: "map_err FsIo (os_openat2 S d n O_RDONLY Beneath) w1 = (Inr fd, w1')" "view w1 = v"
    "identity_fd S fd w2 = (Inr j, w2')" "view w2 = v" "\<not> j \<noteq> i"
    "sha256_file L S fd w3 = (Inr k, w3')" "view w3 = v" "\<not> k \<noteq> h"
  show "effect view v (map_err FsIo (os_unlinkat S d n)) ?Q ?E"
  proof (rule effectI)
    fix w x w' assume w: "view w = v" "map_err FsIo (os_unlinkat S d n) w = (Inr x, w')"
    then show "?Q x (view w')" using unlink_checked [OF assms a(1-4) a(6-7), of w w'] a(5,8) by simp
  next
    fix w e w' assume "view w = v" "map_err FsIo (os_unlinkat S d n) w = (Inl e, w')"
    then show "?E (view w')" by (auto dest: unlink_err)
  qed
next
  fix x u assume "?Q x u"
  then show "effect view u (map_err FsIo (os_fsync S d)) ?Q ?E"
    by (intro effect_last [OF quiet_map_err [OF quiet_calls(7)]]) simp_all
qed

section \<open>Names already taken\<close>

lemma any_folded_False:
  "any_folded L name es = Inr False \<Longrightarrow>
     \<exists>rs. es = map Inr rs \<and> (\<forall>(n, _) \<in> set rs. lib_lowercase L (to_string_lossy n) \<noteq> name)"
proof (induction L name es rule: any_folded.induct)
  case (3 L name n ty es)
  from "3.prems" have ne: "lib_lowercase L (to_string_lossy n) \<noteq> name" and "any_folded L name es = Inr False"
    by (auto split: if_splits)
  with "3.IH" obtain rs where "es = map Inr rs" "\<forall>(n, _) \<in> set rs. lib_lowercase L (to_string_lossy n) \<noteq> name"
    by blast
  with ne show ?case by (intro exI [of _ "(n, ty) # rs"]) auto
qed auto

lemma any_folded_True:
  "any_folded L name es = Inr True \<Longrightarrow> \<exists>n ty. Inr (n, ty) \<in> set es \<and> lib_lowercase L (to_string_lossy n) = name"
  by (induction L name es rule: any_folded.induct) (auto split: if_splits)

text \<open>
  \<open>Ok(false)\<close> means that no entry of the destination's directory has the destination's name up
  to case and lossy decoding; in particular the name itself is free.
\<close>

lemma case_folded_free:
  assumes "destination_exists_case_folded L S p w = (Inr False, w')" and "file_name p = Some n"
  shows "\<exists>q d. parent p = Some q \<and> v_dirpath (view w) q = Some d \<and>
    (\<forall>m \<in> dom (v_entry (view w) d). lib_lowercase L (to_string_lossy m) \<noteq> lib_lowercase L (to_string_lossy n))"
proof -
  from assms obtain q w1 es where q: "parent p = Some q"
    and es: "os_read_dir S q w = (Inr es, w1)"
    and f: "any_folded L (lib_lowercase L (to_string_lossy n)) es = Inr False"
    unfolding destination_exists_case_folded_def by (auto simp: and_then_Inr)
  from any_folded_False [OF f] obtain rs where rs: "es = map Inr rs"
    "\<forall>(m, _) \<in> set rs. lib_lowercase L (to_string_lossy m) \<noteq> lib_lowercase L (to_string_lossy n)"
    by blast
  from read_dir_ok [OF es [unfolded rs(1)]] obtain d where d: "v_dirpath (view w) q = Some d"
    "fst ` set rs = dom (v_entry (view w) d)" by blast
  have "lib_lowercase L (to_string_lossy m) \<noteq> lib_lowercase L (to_string_lossy n)"
    if "m \<in> dom (v_entry (view w) d)" for m
    using that rs(2) unfolding d(2) [symmetric] by auto
  with q d show ?thesis by blast
qed

end

end
