(* ===== verification/Reference_Run.thy ===== *)
theory Reference_Run
  imports Fs_Primitives Reference_Libs
begin

text \<open>
  How the witnesses run the model on the reference system: one rewrite rule per system call and
  library function, and the definitions of the file-system layer, in the collection \<open>run\<close>. The
  rule \<open>and_then_step\<close> keeps a continuation untouched until the call before it has a result.
\<close>

lemma sim_os_fields [run]:
  "os_lstat sim_os = (\<lambda>p. observe (\<lambda>s. case sim_lookup s p of Inl e \<Rightarrow> Inl e | Inr x \<Rightarrow> Inr (sim_stat_of s x)))"
  "os_stat sim_os = (\<lambda>p. observe (\<lambda>s. case map_of (sim_dirs s) p of Some d \<Rightarrow> Inr (sim_stat_of s d)
        | None \<Rightarrow> (case sim_lookup s p of Inl e \<Rightarrow> Inl e | Inr x \<Rightarrow> Inr (sim_stat_of s x))))"
  "os_open_dir sim_os = (\<lambda>p. observe (\<lambda>s. case map_of (sim_dirs s) p of None \<Rightarrow> Inl NOENT | Some d \<Rightarrow> Inr d))"
  "os_open_file sim_os = (\<lambda>p. observe (\<lambda>s. sim_lookup s p))"
  "os_openat2 sim_os = (\<lambda>d p fl rs. observe (\<lambda>s. sim_walk s d (components p)))"
  "os_fstat sim_os = (\<lambda>x. observe (\<lambda>s. Inr (sim_stat_of s x)))"
  "os_rename_noreplace sim_os = sim_rename"
  "os_fsync sim_os = (\<lambda>x. observe (\<lambda>s. Inr ()))"
  "os_create_excl sim_os = sim_create"
  "os_dup sim_os = (\<lambda>x. observe (\<lambda>s. Inr x))"
  "os_reads sim_os = (\<lambda>x s. (case next_fault s of (Some e, s') \<Rightarrow> ([Inl e], s')
        | (None, s') \<Rightarrow> (case map_of (sim_files s) x of None \<Rightarrow> [Inl (ERRNO 21)]
            | Some f \<Rightarrow> map Inr (read_chunks (length (f_data f)) (f_data f)), s')))"
  "os_read_once sim_os = (\<lambda>x k. observe (\<lambda>s. case map_of (sim_files s) x of None \<Rightarrow> Inl (ERRNO 21)
        | Some f \<Rightarrow> Inr (take k (f_data f))))"
  "os_write sim_os = (\<lambda>x b. sim_set_file x (\<lambda>f. f\<lparr>f_data := f_data f @ b\<rparr>))"
  "os_flush sim_os = (\<lambda>x. sim_set_file x (\<lambda>f. f))"
  "os_fchmod sim_os = (\<lambda>x md. sim_set_file x (\<lambda>f. f\<lparr>f_mode := md\<rparr>))"
  "os_futimens sim_os = (\<lambda>x ta tm. sim_set_file x (\<lambda>f. f\<lparr>f_atime := fst ta, f_atime_nsec := snd ta,
        f_mtime := fst tm, f_mtime_nsec := snd tm\<rparr>))"
  "os_unlinkat sim_os = sim_unlink"
  "os_rename_path sim_os = (\<lambda>p p'. sim_at p (\<lambda>d n. sim_at p' (sim_rename d n)))"
  "os_create_path sim_os = (\<lambda>p md. sim_at p (\<lambda>d n. sim_create d n md))"
  "os_remove_path sim_os = (\<lambda>p. sim_at p sim_unlink)"
  "os_read_dir sim_os = (\<lambda>p. observe (\<lambda>s. case map_of (sim_dirs s) p of None \<Rightarrow> Inl NOENT
        | Some d \<Rightarrow> Inr (sim_names s d)))"
  "os_canonicalize sim_os = (\<lambda>p. observe (\<lambda>s. Inr p))"
  "os_now sim_os = (\<lambda>s. (sim_clock s, s\<lparr>sim_clock := sim_clock s + 1000000000\<rparr>))"
  "os_new_uuid sim_os = (\<lambda>s. (case sim_uuids s of [] \<Rightarrow> (0, s) | u # us \<Rightarrow> (u, s\<lparr>sim_uuids := us\<rparr>)))"
  "os_db sim_os = (\<lambda>s. case next_fault s of (None, s') \<Rightarrow> (None, s') | (Some e, s') \<Rightarrow> (Some (DbError 0), s'))"
  "os_epoch sim_os = (\<lambda>s. (sim_clock s div 1000000000, s))"
  "os_file_len sim_os = (\<lambda>p. observe (\<lambda>s. Inr 0))"
  "os_next_open sim_os = sim_call (\<lambda>s. (Inr (), s\<lparr>sim_next := Some []\<rparr>))"
  "os_next_write sim_os = (\<lambda>b. sim_call (\<lambda>s. (Inr (), s\<lparr>sim_next := Some b\<rparr>)))"
  "os_next_sync sim_os = observe (\<lambda>s. Inr ())"
  "os_next_rename sim_os = sim_call (\<lambda>s. (Inr (), s\<lparr>sim_state := sim_next s, sim_next := None\<rparr>))"
  "os_state_dir_sync sim_os = observe (\<lambda>s. Inr ())"
  "os_state_mkdir sim_os = observe (\<lambda>s. Inr ())"
  "os_state_exists sim_os = (\<lambda>s. case next_fault s of (Some e, s') \<Rightarrow> (False, s') | (None, s') \<Rightarrow> (sim_state s' \<noteq> None, s'))"
  "os_state_open sim_os = observe (\<lambda>s. if sim_state s = None then Inl NOENT else Inr ())"
  "os_state_len sim_os = observe (\<lambda>s. case sim_state s of None \<Rightarrow> Inl NOENT | Some b \<Rightarrow> Inr (word_of_nat (length b)))"
  "os_state_read sim_os = (\<lambda>k. observe (\<lambda>s. case sim_state s of None \<Rightarrow> Inl NOENT | Some b \<Rightarrow> Inr (take k b)))"
  "os_spawn sim_os = (\<lambda>x as. observe (\<lambda>s. Inr ()))"
  "os_child_write sim_os = (\<lambda>b. observe (\<lambda>s. Inr ()))"
  "os_child_polls sim_os = (\<lambda>s. (case sim_reply s of Some _ \<Rightarrow> Exited | None \<Rightarrow> Running 30000 Exited, s))"
  "os_child_kill sim_os = observe (\<lambda>s. Inr ())"
  "os_child_wait sim_os = observe (\<lambda>s. Inr ())"
  "os_child_output sim_os = observe (\<lambda>s. case sim_reply s of None \<Rightarrow> Inl (ERRNO 10) | Some r \<Rightarrow> Inr r)"
  by (simp_all only: sim_os_def os.simps)

lemma ref_libs_fields [run]:
  "lib_glob ref_libs = ref_glob" "lib_sha256 ref_libs = ref_sha256" "lib_b64_encode ref_libs = (\<lambda>b. b)"
  "lib_b64_decode ref_libs = Some" "lib_uuid_text ref_libs = ref_uuid_text"
  "lib_uuid_parse ref_libs = ref_uuid_parse" "lib_lowercase ref_libs = to_ascii_lowercase"
  by (simp_all add: ref_libs_def)

lemma to_str_ascii [run]: "list_all (\<lambda>c. of_char c < (128 :: nat)) s \<Longrightarrow> to_str s = Some s"
proof -
  have "utf8_valid bs" if "list_all (\<lambda>b. b < 128) bs" for bs
    using that by (induction bs) simp_all
  moreover assume "list_all (\<lambda>c. of_char c < (128 :: nat)) s"
  ultimately show ?thesis by (simp add: to_str_def bytes_of_def list.pred_map comp_def)
qed

lemma to_string_lossy_ascii [run]:
  "list_all (\<lambda>c. of_char c < (128 :: nat)) s \<Longrightarrow> to_string_lossy s = s"
  by (rule to_string_lossy_valid) (rule to_str_ascii)

lemma char_of_literal [run]:
  "char_of (numeral k :: nat) = Char (odd (numeral k :: nat)) (odd (numeral k div 2 :: nat)) (odd (numeral k div 4 :: nat))
     (odd (numeral k div 8 :: nat)) (odd (numeral k div 16 :: nat)) (odd (numeral k div 32 :: nat))
     (odd (numeral k div 64 :: nat)) (odd (numeral k div 128 :: nat))"
  by (simp add: char_of_def bit_iff_odd)

declare observe_def [run] sim_call_def [run] next_fault_def [run] sim_lookup_def [run] v_lookup_def [run]
  v_resolve_def [run] sim_view_def [run] sim_stat_of_def [run] sim_set_file_def [run] sim_rename_def [run]
  sim_create_def [run] drop_unlinked_def [run] sim_unlink_def [run] sim_at_def [run] sim_names_def [run]

declare to_ascii_lowercase_def [run] ascii_lower_def [run] checked_add_u64_def [run] u64_of_i64_def [run] i64_of_u64_def [run]

declare components_def [run] path_split_def [run] is_absolute_def [run] starts_with_def [run] real_part_def [run]
  component_of_def [run] trim_right_def [run] file_name_def [run] parent_def [run] path_join_def [run] Let_def [run]

declare identity_read_def [run] modified_ns_of_def [run] stability_sample_def [run] sample_stable_def [run]
  validate_relative_def [run] open_root_def [run] open_beneath_def [run] identity_fd_def [run] device_fd_def [run]
  rename_outcome_def [run] same_filesystem_move_at_def [run] same_filesystem_move_at_with_def [run]
  sha256_file_def [run] create_outcome_def [run] seal_stage_def [run] check_stage_def [run]
  verified_stage_copy_at_def [run] publish_stage_at_def [run] verify_at_def [run] retire_source_at_def [run]
  destination_exists_case_folded_def [run] sha256_def [run] MAX_FILE_SIZE_def [run]

end
