(* ===== verification/Fs_Properties.thy ===== *)
theory Fs_Properties
  imports Fs_Laws Reference_Run
begin

text \<open>
  The properties of the file-system layer, over any operating system that keeps the contract
  \<open>posix\<close>: for every pattern of failing calls, what each operation may have done to the tree
  when it returns.
\<close>

section \<open>A small tree for the witnesses\<close>

abbreviation inbox :: obj where "inbox \<equiv> Obj 1 1"
abbreviation papers :: obj where "papers \<equiv> Obj 1 2"
abbreviation stick :: obj where "stick \<equiv> Obj 2 1"
abbreviation letter :: obj where "letter \<equiv> Obj 1 10"

definition letter_file :: vfile where
  "letter_file = \<lparr>f_data = ''abc'', f_nlink = 1, f_mtime = 5, f_mtime_nsec = 6, f_atime = 7, f_atime_nsec = 8, f_mode = 420\<rparr>"

definition letter_identity :: identity where
  "letter_identity = \<lparr>id_device = 1, id_inode = 10, id_size = 3, id_modified_ns = 5000000006\<rparr>"

definition small_tree :: sim where
  "small_tree = \<lparr>sim_entries = [((inbox, ''a''), letter)], sim_files = [(letter, letter_file)],
     sim_dirs = [(''/in'', inbox), (''/papers'', papers), (''/stick'', stick)], sim_state = None, sim_next = None,
     sim_faults = [], sim_clock = 7000000000, sim_inodes = [20, 21, 22], sim_uuids = [7, 8, 9], sim_reply = None\<rparr>"

lemmas on_tree = run small_tree_def letter_identity_def letter_file_def

section \<open>Identity\<close>

text \<open>An identity is read only from a regular file with a single link, and is that file's: its
  object, size and modification time.\<close>

theorem identity_read_sound:
  assumes "posix S view" and "plain_path p" and "identity_read S p w = (Inr i, w')"
  shows "\<exists>f. v_lookup (view w) p = Some (object_of i) \<and> v_file (view w) (object_of i) = Some f \<and>
    i = identity_of (object_of i) f \<and> f_nlink f = 1 \<and> view w' = view w"
  using posix.identity_read_ok [OF assms(1,3,2)] .

lemma plain_in: "plain_path ''/in/a''"
  unfolding plain_path_def by (intro exI [of _ "''/in''"] exI [of _ "''a''"]) (simp add: run entry_name_def)

theorem identity_read_sound_witness:
  "\<exists>f. v_lookup (sim_view small_tree) ''/in/a'' = Some (object_of letter_identity) \<and>
    v_file (sim_view small_tree) (object_of letter_identity) = Some f \<and>
    letter_identity = identity_of (object_of letter_identity) f \<and> f_nlink f = 1 \<and> sim_view small_tree = sim_view small_tree"
proof (rule identity_read_sound [OF sim.posix_axioms plain_in])
  show "identity_read sim_os ''/in/a'' small_tree = (Inr letter_identity, small_tree)"
    by (simp add: on_tree cong: and_then_step)
qed

section \<open>The atomic move\<close>

text \<open>C12. The same-filesystem move never overwrites. When it succeeds, the object with the expected
  identity has changed its name to one that was free, and nothing else in the tree differs; when
  it fails, at whatever call, either nothing has happened or exactly that.\<close>

theorem same_filesystem_move_at_exact:
  assumes "posix S view" and "entry_name n" and "entry_name n'"
    and "same_filesystem_move_at S d n d' n' i w = (r, w')"
  shows "case r of Inr _ \<Rightarrow> moved d n d' n' (object_of i) (view w) (view w')
    | Inl _ \<Rightarrow> view w' = view w \<or> moved d n d' n' (object_of i) (view w) (view w')"
  using effectD [OF posix.move_at_effect [OF assms(1-3)] refl assms(4)] .

theorem same_filesystem_move_at_exact_witness:
  "moved inbox ''a'' papers ''b'' letter (sim_view small_tree)
    (sim_view (snd (same_filesystem_move_at sim_os inbox ''a'' papers ''b'' letter_identity small_tree)))"
proof -
  have went: "fst (same_filesystem_move_at sim_os inbox ''a'' papers ''b'' letter_identity small_tree) = Inr ()"
    by (simp add: on_tree cong: and_then_step)
  have names: "entry_name ''a''" "entry_name ''b''" by (simp_all add: entry_name_def)
  show ?thesis
    using same_filesystem_move_at_exact [OF sim.posix_axioms names prod.collapse [symmetric],
        of inbox papers letter_identity small_tree]
    unfolding went by (simp add: letter_identity_def object_of_def)
qed

section \<open>The verified copy\<close>

text \<open>C11. The staging copy creates a new file under a free name and reports a digest only after
  reading the copy back with that digest: on success the source still is the expected file, the
  copy has the digest of the source's content, and no existing entry or content changed. When it
  fails, the tree is as before or has one new file under the staging name.\<close>

theorem stage_copy_verified:
  assumes "posix S view" and "entry_name n" and "verified_stage_copy_at L S src d n i w = (r, w')"
  shows "case r of Inr h \<Rightarrow> object_of i = src \<and>
      (\<exists>x f. staged d n x f (view w) (view w') \<and> lib_sha256 L (f_data f) = h) \<and>
      (\<forall>g. v_file (view w) src = Some g \<longrightarrow> i = identity_of src g \<and> h = lib_sha256 L (f_data g))
    | Inl _ \<Rightarrow> view w' = view w \<or> (\<exists>x f. staged d n x f (view w) (view w'))"
  using effectD [OF posix.stage_copy_effect [OF assms(1,2)] refl assms(3)]
  by (cases r) (simp_all add: staging_def)

theorem stage_copy_verified_witness:
  "\<exists>x f. staged stick ''.stage'' x f (sim_view small_tree)
      (sim_view (snd (verified_stage_copy_at ref_libs sim_os letter stick ''.stage'' letter_identity small_tree)))
    \<and> ref_sha256 (f_data f) = ref_sha256 ''abc''"
proof -
  have went: "fst (verified_stage_copy_at ref_libs sim_os letter stick ''.stage'' letter_identity small_tree)
      = Inr (ref_sha256 ''abc'')"
    by (simp add: on_tree cong: and_then_step)
  have name: "entry_name ''.stage''" by (simp add: entry_name_def)
  show ?thesis
    using stage_copy_verified [OF sim.posix_axioms name prod.collapse [symmetric],
        of ref_libs letter stick letter_identity small_tree]
    unfolding went by (simp add: ref_libs_fields)
qed

section \<open>Retiring the source\<close>

text \<open>C13. The source of a copy is removed only when it is still the file with the expected identity,
  with a single link, and its content has the expected digest; nothing else in the tree changes,
  and on failure the source may be gone only after those checks.\<close>

theorem retire_source_checked:
  assumes "posix S view" and "entry_name n" and "retire_source_at L S d n i h w = (r, w')"
  shows "case r of Inr _ \<Rightarrow> retired_checked L d n i h (view w) (view w')
    | Inl _ \<Rightarrow> view w' = view w \<or> retired_checked L d n i h (view w) (view w')"
  using effectD [OF posix.retire_effect [OF assms(1,2)] refl assms(3)] .

theorem retire_source_checked_witness:
  "retired_checked ref_libs inbox ''a'' letter_identity (ref_sha256 ''abc'') (sim_view small_tree)
    (sim_view (snd (retire_source_at ref_libs sim_os inbox ''a'' letter_identity (ref_sha256 ''abc'') small_tree)))"
proof -
  have went: "fst (retire_source_at ref_libs sim_os inbox ''a'' letter_identity (ref_sha256 ''abc'') small_tree) = Inr ()"
    by (simp add: on_tree cong: and_then_step)
  have name: "entry_name ''a''" by (simp add: entry_name_def)
  show ?thesis
    using retire_source_checked [OF sim.posix_axioms name prod.collapse [symmetric],
        of ref_libs inbox letter_identity "ref_sha256 ''abc''" small_tree]
    unfolding went by simp
qed

section \<open>Collisions, stability, paths\<close>

text \<open>C35. The collision check reports a free destination only when no entry of the destination's
  directory equals its name after lower-casing; in particular the name itself is free.\<close>

theorem collision_check_sound:
  assumes "posix S view" and "file_name p = Some n"
    and "destination_exists_case_folded L S p w = (Inr False, w')"
  shows "\<exists>q d. parent p = Some q \<and> v_dirpath (view w) q = Some d \<and> v_entry (view w) d n = None \<and>
    (\<forall>m \<in> dom (v_entry (view w) d). lib_lowercase L (to_string_lossy m) \<noteq> lib_lowercase L (to_string_lossy n))"
proof -
  from posix.case_folded_free [OF assms(1,3,2)] obtain q d where "parent p = Some q" "v_dirpath (view w) q = Some d"
    and free: "\<forall>m \<in> dom (v_entry (view w) d). lib_lowercase L (to_string_lossy m) \<noteq> lib_lowercase L (to_string_lossy n)"
    by blast
  moreover have "v_entry (view w) d n = None" using free by (cases "v_entry (view w) d n") auto
  ultimately show ?thesis by blast
qed

theorem collision_check_sound_witness:
  "\<exists>q d. parent ''/in/b'' = Some q \<and> v_dirpath (sim_view small_tree) q = Some d \<and>
    v_entry (sim_view small_tree) d ''b'' = None \<and>
    (\<forall>m \<in> dom (v_entry (sim_view small_tree) d).
       lib_lowercase ref_libs (to_string_lossy m) \<noteq> lib_lowercase ref_libs (to_string_lossy ''b''))
    \<and> fst (destination_exists_case_folded ref_libs sim_os ''/in/A'' small_tree) = Inr True"
proof -
  have name: "file_name ''/in/b'' = Some ''b''" by (simp add: run)
  have free: "destination_exists_case_folded ref_libs sim_os ''/in/b'' small_tree = (Inr False, small_tree)"
    by (simp add: on_tree cong: and_then_step)
  have "fst (destination_exists_case_folded ref_libs sim_os ''/in/A'' small_tree) = Inr True"
    by (simp add: on_tree cong: and_then_step)
  with collision_check_sound [OF sim.posix_axioms name free] show ?thesis by blast
qed

text \<open>A file counts as settled only when its previous sample had the same identity and was taken
  at least the settling time ago; the sample it leaves is always the one just taken.\<close>

theorem stability_needs_two_samples:
  assumes "stability_sample S previous p settle w = (Inr (settled, latest), w')" and "0 < settle"
  shows "\<exists>i now. latest = Some (i, now) \<and>
    (settled \<longleftrightarrow> (\<exists>t. previous = Some (i, t) \<and> t + settle \<le> now))"
proof -
  from assms(1) obtain i now where "latest = Some (i, now)" and "settled = sample_stable previous i now settle"
    unfolding stability_sample_def by (auto simp: and_then_Inr)
  moreover have "sample_stable previous i now settle \<longleftrightarrow> (\<exists>t. previous = Some (i, t) \<and> t + settle \<le> now)"
    using assms(2) by (auto simp: sample_stable_def split: option.splits)
  ultimately show ?thesis by blast
qed

theorem stability_needs_two_samples_witness:
  "\<exists>i now. Some (letter_identity, 7000000000) = Some (i, now :: int) \<and>
    (True \<longleftrightarrow> (\<exists>t. Some (letter_identity, 5000000000) = Some (i, t) \<and> t + 1000000000 \<le> now))"
proof (rule stability_needs_two_samples)
  show "stability_sample sim_os (Some (letter_identity, 5000000000)) ''/in/a'' 1000000000 small_tree
      = (Inr (True, Some (letter_identity, 7000000000)), small_tree\<lparr>sim_clock := 8000000000\<rparr>)"
    by (simp add: on_tree cong: and_then_step)
qed simp

text \<open>C36. An accepted relative path is neither empty nor absolute nor longer than 4096 bytes and all
  its components are plain names; joined to any folder it only descends from that folder.\<close>

theorem validate_relative_descends:
  assumes "validate_relative p = Inr ()"
  shows "p \<noteq> [] \<and> length p \<le> 4096 \<and> \<not> is_absolute p \<and>
    (\<exists>ns. components p = map Normal ns \<and> list_all entry_name ns \<and>
      (\<forall>base. components (path_join base p) = components base @ map Normal ns))"
proof -
  from assms have p: "p \<noteq> []" "length p \<le> 4096" "\<not> is_absolute p" "list_all is_normal (components p)"
    by (auto simp: validate_relative_def split: if_splits)
  have "\<exists>ns. cs = map Normal ns" if "list_all is_normal cs" for cs
    using that
  proof (induction cs)
    case (Cons c cs)
    then obtain ns where "cs = map Normal ns" by auto
    with Cons.prems show ?case by (cases c) (auto intro: exI [of _ "_ # ns"])
  qed simp
  with p(4) obtain ns where ns: "components p = map Normal ns" by blast
  have names: "list_all entry_name ns"
    unfolding list_all_iff using components_normal [of _ p] by (auto simp: ns)
  have "CurDir \<notin> set (components p)" by (auto simp: ns)
  from components_path_join [OF p(3,1) this] ns have "components (path_join base p) = components base @ map Normal ns" for base
    by simp
  with p ns names show ?thesis by blast
qed

theorem validate_relative_descends_witness:
  "\<exists>ns. components ''docs/2024'' = map Normal ns \<and>
    (\<forall>base. components (path_join base ''docs/2024'') = components base @ map Normal ns)"
proof -
  have "validate_relative ''docs/2024'' = Inr ()" by (simp add: run)
  from validate_relative_descends [OF this] show ?thesis by blast
qed

end
