(* ===== verification/Agent.thy ===== *)
theory Agent
  imports Fs_Primitives
begin

text \<open>
  The crate \<open>sortinghat-agent\<close>: the optional classifier process. The request it is sent carries
  no file content and no file name; its answer is accepted only when it is well-formed, answers
  this very request and names a destination the request allowed. \<open>serde_json\<close> is a parameter.
\<close>

definition MAX_METADATA_BYTES :: nat where "MAX_METADATA_BYTES = 16384"
definition MAX_OUTPUT_BYTES :: nat where "MAX_OUTPUT_BYTES = 16384"

record agent_request =
  aq_schema_version :: u8
  aq_correlation_id :: uuid
  aq_filename_extension :: "string option"
  aq_verified_mime :: "string option"
  aq_size_bucket :: string
  aq_source_root_id :: uuid
  aq_allowed_destination_ids :: "uuid list"

record agent_response =
  ar_schema_version :: u8
  ar_correlation_id :: uuid
  ar_destination_id :: "uuid option"
  ar_reason :: string

datatype agent_error = AgentDisabled | RequestTooLarge | Process errno | AgentMalformed
  | UnregisteredDestination | AgentTimeout | ContentDenied

record adapter =
  ad_executable :: "string option"
  ad_fixed_args :: "string list"

record agent_json =
  json_of_request :: "agent_request \<Rightarrow> bytes option"
  json_to_response :: "bytes \<Rightarrow> agent_response option"

definition disabled :: adapter where
  "disabled = \<lparr>ad_executable = None, ad_fixed_args = []\<rparr>"

definition local_adapter :: "string \<Rightarrow> string list \<Rightarrow> adapter" where
  "local_adapter executable fixed_args = \<lparr>ad_executable = Some executable, ad_fixed_args = fixed_args\<rparr>"

section \<open>Waiting for the child\<close>

datatype poll_result = ChildExited | ChildPollError errno | DeadlinePassed

text \<open>
  The waiting loop, cut after the given number of polls. Between two polls the code sleeps 25 ms
  and the deadline is 30 s after the start, so \<open>poll_fuel\<close> polls reach the deadline; the lemma
  \<open>poll_loop_fuel\<close> below shows that more polls change nothing.
\<close>

primrec poll_loop :: "nat \<Rightarrow> polls \<Rightarrow> poll_result" where
  "poll_loop 0 ps = DeadlinePassed"
| "poll_loop (Suc k) ps = (case ps of
     Exited \<Rightarrow> ChildExited
   | PollError e \<Rightarrow> ChildPollError e
   | Running elapsed rest \<Rightarrow> if elapsed \<ge> 30000 then DeadlinePassed else poll_loop k rest)"

definition poll_fuel :: nat where "poll_fuel = 1202"

definition check_response :: "agent_request \<Rightarrow> agent_response \<Rightarrow> agent_error + agent_response" where
  "check_response request response =
    (if ar_schema_version response \<noteq> 1
        \<or> ar_correlation_id response \<noteq> aq_correlation_id request
        \<or> length (ar_reason response) > 2048 then Inl AgentMalformed
     else (case ar_destination_id response of
         Some i \<Rightarrow> if i \<notin> set (aq_allowed_destination_ids request)
           then Inl UnregisteredDestination else Inr response
       | None \<Rightarrow> Inr response))"

definition classify :: "agent_json \<Rightarrow> 'w os \<Rightarrow> adapter \<Rightarrow> agent_request \<Rightarrow> ('w, agent_error, agent_response) io" where
  "classify J S a request =
    and_then (lift_res (ok_or AgentDisabled (ad_executable a))) (\<lambda>executable.
    and_then (lift_res (ok_or AgentMalformed (json_of_request J request))) (\<lambda>body.
    and_then (fail_if (length body > MAX_METADATA_BYTES) RequestTooLarge) (\<lambda>_.
    and_then (map_err Process (os_spawn S executable (ad_fixed_args a))) (\<lambda>_.
    and_then (map_err Process (os_child_write S body)) (\<lambda>_.
    and_then (total (os_child_polls S)) (\<lambda>ps.
    and_then (case poll_loop poll_fuel ps of
        ChildExited \<Rightarrow> ok ()
      | ChildPollError e \<Rightarrow> err (Process e)
      | DeadlinePassed \<Rightarrow>
          and_then (try_result (os_child_kill S)) (\<lambda>_.
          and_then (try_result (os_child_wait S)) (\<lambda>_. err AgentTimeout))) (\<lambda>_.
    and_then (map_err Process (os_child_output S)) (\<lambda>output.
    and_then (fail_if (\<not> fst output \<or> length (snd output) > MAX_OUTPUT_BYTES) AgentMalformed) (\<lambda>_.
    and_then (lift_res (ok_or AgentMalformed (json_to_response J (snd output)))) (\<lambda>response.
    lift_res (check_response request response)))))))))))"

definition classify_content :: "adapter \<Rightarrow> bytes \<Rightarrow> agent_error + agent_response" where
  "classify_content a content = Inl ContentDenied"

section \<open>The loop ends by the deadline\<close>

text \<open>Each poll of a running child happens at least 25 ms after the one before, as \<open>thread::sleep\<close> promises.\<close>

coinductive paced :: "int \<Rightarrow> polls \<Rightarrow> bool" where
  paced_exited: "paced t Exited"
| paced_error: "paced t (PollError e)"
| paced_running: "t' \<ge> t + 25 \<Longrightarrow> paced t' ps \<Longrightarrow> paced t (Running t' ps)"

inductive_simps paced_Running: "paced t (Running t' ps)"

lemma poll_loop_more:
  "paced t ps \<Longrightarrow> t < 30000 \<Longrightarrow> int k * 25 + t \<ge> 30025 \<Longrightarrow> poll_loop (k + n) ps = poll_loop k ps"
proof (induction k arbitrary: t ps)
  case (Suc k)
  show ?case
  proof (cases ps)
    case (Running t' rest)
    with Suc.prems have "paced t' rest" "int k * 25 + t' \<ge> 30025" by (auto simp: paced_Running)
    with Suc.IH Running show ?thesis by simp
  qed simp_all
qed simp

lemma poll_loop_fuel:
  assumes "paced (- 25) ps"
  shows "poll_loop (poll_fuel + n) ps = poll_loop poll_fuel ps"
  by (rule poll_loop_more [OF assms]) (simp_all add: poll_fuel_def)

section \<open>What an accepted answer is\<close>

lemma check_response_ok:
  "check_response q a = Inr r \<Longrightarrow> r = a \<and> ar_schema_version a = 1 \<and>
     ar_correlation_id a = aq_correlation_id q \<and> length (ar_reason a) \<le> 2048 \<and>
     (\<forall>i. ar_destination_id a = Some i \<longrightarrow> i \<in> set (aq_allowed_destination_ids q))"
  by (auto simp: check_response_def split: if_splits option.splits)

lemma classify_ok:
  assumes "classify J S a q w = (Inr r, w')"
  shows "ad_executable a \<noteq> None" and "ar_schema_version r = 1"
    and "ar_correlation_id r = aq_correlation_id q" and "length (ar_reason r) \<le> 2048"
    and "\<forall>i. ar_destination_id r = Some i \<longrightarrow> i \<in> set (aq_allowed_destination_ids q)"
proof -
  from assms obtain x where "ad_executable a \<noteq> None" and "check_response q x = Inr r"
    unfolding classify_def by (auto simp: and_then_Inr)
  from check_response_ok [OF this(2)] this(1)
  show "ad_executable a \<noteq> None" "ar_schema_version r = 1" "ar_correlation_id r = aq_correlation_id q"
    "length (ar_reason r) \<le> 2048" "\<forall>i. ar_destination_id r = Some i \<longrightarrow> i \<in> set (aq_allowed_destination_ids q)"
    by auto
qed

lemma classify_disabled: "classify J S disabled q w = (Inl AgentDisabled, w)"
  by (simp add: classify_def disabled_def and_then_def)

context posix
begin

lemma quiet_classify [os_frame]: "quiet view (classify J S a q)"
  unfolding classify_def
  by (intro os_frame quiet_calls) (auto split: poll_result.split intro!: os_frame quiet_calls)

end

end
