(* ===== verification/Service_State.thy ===== *)
theory Service_State
  imports Core_Rules Journal Agent
begin

text \<open>
  The state of the review service (\<open>crates/sortinghat-service/src/lib.rs\<close>) and the small functions
  on it: the persistent state and its file, the journal it owns, the stability samples, and how
  the layers below are run from it. \<open>serde_json\<close> on the state is a parameter.
\<close>

section \<open>Limits\<close>

definition MAX_ROOTS :: nat where "MAX_ROOTS = 16"
definition MAX_PROPOSALS :: nat where "MAX_PROPOSALS = 1000"
definition MAX_WALK_DIRECTORIES :: nat where "MAX_WALK_DIRECTORIES = 25000"
definition MAX_WALK_FILES :: nat where "MAX_WALK_FILES = 100000"
definition MAX_WALK_DEPTH :: nat where "MAX_WALK_DEPTH = 32"
definition MAX_STATE_BYTES :: nat where "MAX_STATE_BYTES = 8388608"
definition MAX_JOURNAL_BYTES :: u64 where "MAX_JOURNAL_BYTES = 67108864"
definition MAX_TERMINAL_JOURNAL :: u64 where "MAX_TERMINAL_JOURNAL = 10000"
definition MAX_JOURNAL_AGE_SECONDS :: u64 where "MAX_JOURNAL_AGE_SECONDS = 2592000"

section \<open>Data\<close>

datatype service_error = SFs fs_error | SJournal journal_error | SIo errno | MalformedState | SLimit
  | SNotFound | SRevisionConflict | DestinationRequired | SCollision | SUnsafePath

record root =
  rt_id :: uuid
  rt_path :: string
  rt_watched :: bool
  rt_destination :: bool

record choice =
  ch_root_id :: uuid
  ch_directory :: string

record proposal =
  p_id :: uuid
  p_revision :: u64
  p_source_root_id :: uuid
  p_source_relative :: string
  p_source_display :: string
  p_destination :: "choice option"
  p_destination_name :: "string option"
  p_destination_display :: "string option"
  p_reason :: string
  p_provenance :: string
  p_warning :: "string option"
  p_status :: string
  p_size :: u64
  p_device :: u64
  p_inode :: u64
  p_modified_ns :: int

record agent_settings =
  ag_enabled :: bool
  ag_executable :: "string option"
  ag_fixed_args :: "string list"
  ag_metadata_only :: bool

definition default_agent :: agent_settings where
  "default_agent = \<lparr>ag_enabled = False, ag_executable = None, ag_fixed_args = [], ag_metadata_only = True\<rparr>"

record persistent =
  ps_schema_version :: u8
  ps_paused :: bool
  ps_roots :: "root list"
  ps_rules :: "rule list"
  ps_proposals :: "proposal list"
  ps_agent :: agent_settings

definition fresh_state :: persistent where
  "fresh_state = \<lparr>ps_schema_version = 1, ps_paused = False, ps_roots = [], ps_rules = [], ps_proposals = [],
     ps_agent = default_agent\<rparr>"

text \<open>\<open>serde_json\<close> on the persistent state, and the agent's JSON.\<close>

record codec = agent_json +
  json_of_state :: "persistent \<Rightarrow> bytes option"
  json_to_state :: "bytes \<Rightarrow> persistent option"

text \<open>
  \<open>Service\<close>: the persistent state, the samples of \<open>HashMap<String, StabilityTracker>\<close> (an absent
  key is the default tracker), and behind the journal its table and the world.
\<close>

record 'w service =
  sv_state :: persistent
  sv_stability :: "string \<Rightarrow> tracker"
  sv_rows :: "row list"
  sv_db_path :: string
  sv_world :: 'w

section \<open>Running the layers below\<close>

definition in_os :: "('e \<Rightarrow> service_error) \<Rightarrow> ('w, 'e, 'a) io \<Rightarrow> ('w service, service_error, 'a) io" where
  "in_os f m s = (case m (sv_world s) of (r, w) \<Rightarrow> (map_res_err f r, s\<lparr>sv_world := w\<rparr>))"

definition in_journal :: "('w journal, journal_error, 'a) io \<Rightarrow> ('w service, service_error, 'a) io" where
  "in_journal m s = (case m \<lparr>j_rows = sv_rows s, j_path = sv_db_path s, j_world = sv_world s\<rparr> of
     (r, j) \<Rightarrow> (map_res_err SJournal r, s\<lparr>sv_rows := j_rows j, sv_world := j_world j\<rparr>))"

definition state_of :: "(persistent \<Rightarrow> 'a) \<Rightarrow> ('w service, 'e, 'a) io" where
  "state_of f = gets (\<lambda>s. f (sv_state s))"

definition set_state :: "(persistent \<Rightarrow> persistent) \<Rightarrow> ('w service, 'e, unit) io" where
  "set_state f = modify (\<lambda>s. s\<lparr>sv_state := f (sv_state s)\<rparr>)"

definition update_proposal :: "nat \<Rightarrow> (proposal \<Rightarrow> proposal) \<Rightarrow> persistent \<Rightarrow> persistent" where
  "update_proposal i f st = st\<lparr>ps_proposals := (ps_proposals st)[i := f (ps_proposals st ! i)]\<rparr>"

section \<open>Paths and their encodings\<close>

definition encode_relative :: "libs \<Rightarrow> string \<Rightarrow> string" where
  "encode_relative L path = lib_b64_encode L path"

definition decode_relative :: "libs \<Rightarrow> string \<Rightarrow> service_error + string" where
  "decode_relative L value =
    res_then (ok_or MalformedState (lib_b64_decode L value)) (\<lambda>path.
    res_then (map_res_err (\<lambda>_. SUnsafePath) (validate_relative path)) (\<lambda>_. Inr path))"

definition display_path :: "string \<Rightarrow> string" where
  "display_path path = take 4096 (concat (map escape_default (decode_lossy (bytes_of path))))"

definition proposal_identity :: "proposal \<Rightarrow> identity" where
  "proposal_identity p = \<lparr>id_device = p_device p, id_inode = p_inode p, id_size = p_size p,
     id_modified_ns = p_modified_ns p\<rparr>"

definition is_partial :: "string \<Rightarrow> bool" where
  "is_partial path =
    (let name = (case file_name path of None \<Rightarrow> [] | Some n \<Rightarrow> to_ascii_lowercase (to_string_lossy n)) in
     list_ex (ends_with name) [''.part'', ''.partial'', ''.crdownload'', ''.download'', ''.tmp''])"

definition size_bucket :: "u64 \<Rightarrow> string" where
  "size_bucket n = (if n < 1048576 then ''under_1_mib''
     else if n < 104857600 then ''1_to_100_mib''
     else if n < 1073741824 then ''100_mib_to_1_gib''
     else ''1_to_4_gib'')"

definition facts_for :: "string \<Rightarrow> uuid \<Rightarrow> bool \<Rightarrow> file_facts" where
  "facts_for relative rid is_complete =
    \<lparr>extension = (case path_extension relative of None \<Rightarrow> None
       | Some e \<Rightarrow> map_option to_ascii_lowercase (to_str e)),
     verified_mime = None,
     filename = (case file_name relative of None \<Rightarrow> [] | Some n \<Rightarrow> to_string_lossy n),
     source_root_id = rid,
     source_directory = (case parent relative of None \<Rightarrow> ''.'' | Some d \<Rightarrow> to_string_lossy d),
     completed = is_complete\<rparr>"

definition mime_of_prefix :: "bytes \<Rightarrow> string option" where
  "mime_of_prefix b =
    (if starts_with b ''%PDF-'' then Some ''application/pdf''
     else if starts_with b [CHR 0x89, CHR ''P'', CHR ''N'', CHR ''G'', CHR 0x0D, CHR 0x0A, CHR 0x1A, CHR 0x0A]
       then Some ''image/png''
     else if starts_with b [CHR 0xFF, CHR 0xD8, CHR 0xFF] then Some ''image/jpeg''
     else if starts_with b [CHR ''P'', CHR ''K'', CHR 0x03, CHR 0x04] then Some ''application/zip''
     else None)"

definition sniff_mime :: "'w os \<Rightarrow> string \<Rightarrow> ('w, 'e, string option) io" where
  "sniff_mime S path =
    and_then (try_result (and_then (os_open_file S path) (\<lambda>fd. os_read_once S fd 16))) (\<lambda>r.
    ok (case r of Inl _ \<Rightarrow> None | Inr b \<Rightarrow> mime_of_prefix b))"

definition move_warning :: "'w os \<Rightarrow> string \<Rightarrow> string \<Rightarrow> ('w, service_error, string) io" where
  "move_warning S source destination =
    and_then (map_err SFs (identity_read S source)) (\<lambda>i.
    and_then (lift_res (ok_or SUnsafePath (parent destination))) (\<lambda>p.
    and_then (map_err SIo (os_stat S p)) (\<lambda>m.
    ok (if id_device i = st_dev m
      then ''Same-filesystem atomic move; undo is available if neither path changes''
      else ''Cross-filesystem verified copy; undo may fail if the original path becomes occupied''))))"

section \<open>Looking things up\<close>

definition find_root :: "(root \<Rightarrow> bool) \<Rightarrow> persistent \<Rightarrow> service_error + root" where
  "find_root p st = ok_or SUnsafePath (List.find p (ps_roots st))"

definition show_proposal :: "persistent \<Rightarrow> uuid \<Rightarrow> service_error + proposal" where
  "show_proposal st i = ok_or SNotFound (List.find (\<lambda>p. p_id p = i) (ps_proposals st))"

definition proposal_index :: "persistent \<Rightarrow> uuid \<Rightarrow> u64 \<Rightarrow> service_error + nat" where
  "proposal_index st i revision =
    res_then (ok_or SNotFound (position (\<lambda>p. p_id p = i) (ps_proposals st))) (\<lambda>index.
    if p_revision (ps_proposals st ! index) \<noteq> revision then Inl SRevisionConflict else Inr index)"

definition source_path :: "libs \<Rightarrow> persistent \<Rightarrow> nat \<Rightarrow> service_error + string" where
  "source_path L st index =
    (let p = ps_proposals st ! index in
     res_then (find_root (\<lambda>r. rt_id r = p_source_root_id p) st) (\<lambda>root.
     res_then (decode_relative L (p_source_relative p)) (\<lambda>relative.
     Inr (path_join (rt_path root) relative))))"

definition destination_path :: "libs \<Rightarrow> persistent \<Rightarrow> nat \<Rightarrow> service_error + string" where
  "destination_path L st index =
    (let p = ps_proposals st ! index in
     res_then (decode_relative L (p_source_relative p)) (\<lambda>relative.
     res_then (ok_or DestinationRequired (p_destination p)) (\<lambda>c.
     res_then (find_root (\<lambda>r. rt_id r = ch_root_id c \<and> rt_destination r) st) (\<lambda>root.
     res_then (ok_or SUnsafePath (case p_destination_name p of Some n \<Rightarrow> Some n | None \<Rightarrow> file_name relative)) (\<lambda>name.
     Inr (path_join (path_join (rt_path root) (ch_directory c)) name))))))"

definition destination_path_for :: "persistent \<Rightarrow> choice \<Rightarrow> string \<Rightarrow> string option" where
  "destination_path_for st c relative =
    (case List.find (\<lambda>r. rt_id r = ch_root_id c \<and> rt_destination r) (ps_roots st) of
       None \<Rightarrow> None
     | Some root \<Rightarrow> map_option (\<lambda>n. path_join (path_join (rt_path root) (ch_directory c)) n) (file_name relative))"

definition destination_display :: "persistent \<Rightarrow> choice \<Rightarrow> string \<Rightarrow> string option" where
  "destination_display st c relative = map_option display_path (destination_path_for st c relative)"

lemma proposal_index_ok:
  "proposal_index st i n = Inr k \<Longrightarrow> k < length (ps_proposals st) \<and> p_id (ps_proposals st ! k) = i \<and>
     p_revision (ps_proposals st ! k) = n \<and> (\<forall>j < k. p_id (ps_proposals st ! j) \<noteq> i)"
  by (auto simp: proposal_index_def res_then_Inr_iff dest: position_Some split: if_splits)

section \<open>Pruning and saving\<close>

definition terminal_status :: "string \<Rightarrow> bool" where
  "terminal_status s \<longleftrightarrow> s = ''completed'' \<or> s = ''ignored'' \<or> s = ''undone''"

text \<open>\<open>retain\<close> with its counter.\<close>

fun drop_terminal :: "nat \<Rightarrow> proposal list \<Rightarrow> proposal list" where
  "drop_terminal remove [] = []"
| "drop_terminal remove (p # ps) =
     (if terminal_status (p_status p) \<and> remove > 0 then drop_terminal (remove - 1) ps
      else p # drop_terminal remove ps)"

definition prune_terminal_proposals :: "persistent \<Rightarrow> persistent" where
  "prune_terminal_proposals st =
    (let terminal = length (filter (\<lambda>p. terminal_status (p_status p)) (ps_proposals st)) in
     st\<lparr>ps_proposals := drop_terminal (terminal - 10000) (ps_proposals st)\<rparr>)"

definition save :: "codec \<Rightarrow> 'w os \<Rightarrow> ('w service, service_error, unit) io" where
  "save C S =
    and_then (state_of id) (\<lambda>st.
    and_then (lift_res (ok_or MalformedState (json_of_state C st))) (\<lambda>body.
    and_then (fail_if (length body > MAX_STATE_BYTES) SLimit) (\<lambda>_.
    and_then (in_os SIo (os_next_open S)) (\<lambda>_.
    and_then (in_os SIo (os_next_write S body)) (\<lambda>_.
    and_then (in_os SIo (os_next_sync S)) (\<lambda>_.
    and_then (in_os SIo (os_next_rename S)) (\<lambda>_.
    in_os SIo (os_state_dir_sync S))))))))"

definition enforce_journal_retention :: "'w os \<Rightarrow> ('w service, service_error, unit) io" where
  "enforce_journal_retention S =
    and_then (in_journal (enforce_retention S MAX_TERMINAL_JOURNAL MAX_JOURNAL_AGE_SECONDS MAX_JOURNAL_BYTES))
      (\<lambda>_. ok ())"

end
