(* ===== verification/Service_Move.thy ===== *)
theory Service_Move
  imports Service_State
begin

text \<open>
  \<open>Service::approve\<close> and \<open>Service::undo\<close>, the only operations that move a user's file. Each
  first checks the proposal, opens descriptors on the folders and looks for a name collision;
  it then records its intent in the journal, moves the file, records the progress between the
  steps and finally updates the proposal and saves.
\<close>

section \<open>Descriptors\<close>

text \<open>The folder of a relative path: the root itself, or the folder beneath it.\<close>

definition open_source_parent :: "'w os \<Rightarrow> string \<Rightarrow> obj \<Rightarrow> string \<Rightarrow> ('w, fs_error, obj) io" where
  "open_source_parent S root_path root_fd relative =
    (case parent relative of
       Some p \<Rightarrow> if p \<noteq> [] then open_beneath S root_fd p O_DIRECTORY else open_root S root_path
     | None \<Rightarrow> open_root S root_path)"

definition open_folder :: "'w os \<Rightarrow> string \<Rightarrow> obj \<Rightarrow> string \<Rightarrow> ('w, fs_error, obj) io" where
  "open_folder S root_path root_fd folder =
    (if folder = ''.'' then open_root S root_path
     else open_beneath S root_fd folder O_DIRECTORY)"

section \<open>Approve\<close>

record prepared =
  pr_index :: nat
  pr_verified_fd :: obj
  pr_source_parent :: obj
  pr_source_name :: string
  pr_folder_fd :: obj
  pr_destination :: string
  pr_expected :: identity

definition check_folder :: "'w os \<Rightarrow> string \<Rightarrow> ('w service, service_error, unit) io" where
  "check_folder S folder =
    and_then (in_os SIo (os_lstat S folder)) (\<lambda>m.
    fail_if (st_type m \<noteq> FDirectory) SUnsafePath)"

text \<open>Everything up to the check for a collision.\<close>

definition approve_prepare :: "libs \<Rightarrow> 'w os \<Rightarrow> uuid \<Rightarrow> u64 \<Rightarrow> ('w service, service_error, prepared) io" where
  "approve_prepare L S pid revision =
    and_then (state_of (\<lambda>x. x)) (\<lambda>st.
    and_then (lift_res (proposal_index st pid revision)) (\<lambda>index.
    let p = ps_proposals st ! index in
    and_then (lift_res (ok_or DestinationRequired (p_destination p))) (\<lambda>c.
    and_then (lift_res (find_root (\<lambda>r. rt_id r = ch_root_id c \<and> rt_destination r) st)) (\<lambda>droot.
    and_then (lift_res (find_root (\<lambda>r. rt_id r = p_source_root_id p \<and> rt_watched r) st)) (\<lambda>sroot.
    and_then (lift_res (decode_relative L (p_source_relative p))) (\<lambda>relative.
    and_then (in_os SFs (open_root S (rt_path sroot))) (\<lambda>root_fd.
    and_then (in_os SFs (open_beneath S root_fd relative O_RDONLY)) (\<lambda>verified_fd.
    and_then (in_os SFs (open_source_parent S (rt_path sroot) root_fd relative)) (\<lambda>source_parent.
    and_then (lift_res (ok_or SUnsafePath (file_name relative))) (\<lambda>source_name.
    and_then (check_folder S (path_join (rt_path droot) (ch_directory c))) (\<lambda>_.
    and_then (in_os SFs (open_root S (rt_path droot))) (\<lambda>droot_fd.
    and_then (in_os SFs (open_folder S (rt_path droot) droot_fd (ch_directory c))) (\<lambda>folder_fd.
    let destination = path_join (path_join (rt_path droot) (ch_directory c))
          (case p_destination_name p of Some n \<Rightarrow> n | None \<Rightarrow> source_name) in
    and_then (in_os SFs (destination_exists_case_folded L S destination)) (\<lambda>taken.
    and_then (fail_if taken SCollision) (\<lambda>_.
    ok \<lparr>pr_index = index, pr_verified_fd = verified_fd, pr_source_parent = source_parent,
      pr_source_name = source_name, pr_folder_fd = folder_fd, pr_destination = destination,
      pr_expected = proposal_identity p\<rparr>)))))))))))))))"

definition staging_name :: "libs \<Rightarrow> uuid \<Rightarrow> string" where
  "staging_name L pid = ''.sortinghat-'' @ lib_uuid_text L pid @ ''.stage''"

text \<open>The same-filesystem branch and the cross-filesystem branch.\<close>

definition approve_rename ::
  "libs \<Rightarrow> 'w os \<Rightarrow> uuid \<Rightarrow> prepared \<Rightarrow> string \<Rightarrow> u64 \<Rightarrow> ('w service, service_error, entry) io" where
  "approve_rename L S pid q name revision =
    and_then (in_os SFs (same_filesystem_move_at S (pr_source_parent q) (pr_source_name q)
        (pr_folder_fd q) name (pr_expected q))) (\<lambda>_.
    in_journal (transition L S pid revision Published))"

definition approve_copy ::
  "libs \<Rightarrow> 'w os \<Rightarrow> uuid \<Rightarrow> prepared \<Rightarrow> string \<Rightarrow> u64 \<Rightarrow> ('w service, service_error, entry) io" where
  "approve_copy L S pid q name revision =
    and_then (in_journal (transition L S pid revision Copying)) (\<lambda>e1.
    and_then (in_os SFs (verified_stage_copy_at L S (pr_verified_fd q) (pr_folder_fd q)
        (staging_name L pid) (pr_expected q))) (\<lambda>digest.
    and_then (in_journal (set_sha256 L S pid digest)) (\<lambda>_.
    and_then (in_os SFs (publish_stage_at S (pr_folder_fd q) (staging_name L pid) name)) (\<lambda>_.
    and_then (in_os SFs (verify_at L S (pr_folder_fd q) name digest)) (\<lambda>_.
    and_then (in_journal (transition L S pid (e_revision e1) Published)) (\<lambda>e2.
    and_then (in_os SFs (retire_source_at L S (pr_source_parent q) (pr_source_name q) (pr_expected q) digest)) (\<lambda>_.
    ok e2)))))))"

definition approve_move ::
  "libs \<Rightarrow> 'w os \<Rightarrow> uuid \<Rightarrow> prepared \<Rightarrow> u64 \<Rightarrow> ('w service, service_error, entry) io" where
  "approve_move L S pid q revision =
    and_then (lift_res (ok_or SUnsafePath (file_name (pr_destination q)))) (\<lambda>name.
    and_then (in_os SFs (device_fd S (pr_source_parent q))) (\<lambda>a.
    and_then (in_os SFs (device_fd S (pr_folder_fd q))) (\<lambda>b.
    if a = b then approve_rename L S pid q name revision else approve_copy L S pid q name revision)))"

text \<open>The end shared by \<open>approve\<close>, \<open>undo\<close> and \<open>ignore\<close>.\<close>

definition conclude :: "codec \<Rightarrow> 'w os \<Rightarrow> nat \<Rightarrow> u64 \<Rightarrow> string \<Rightarrow> ('w service, service_error, proposal) io" where
  "conclude C S index revision status =
    and_then (set_state (update_proposal index (\<lambda>p. p\<lparr>p_revision := revision, p_status := status\<rparr>))) (\<lambda>_.
    and_then (state_of (\<lambda>st. ps_proposals st ! index)) (\<lambda>result.
    and_then (set_state prune_terminal_proposals) (\<lambda>_.
    and_then (enforce_journal_retention S) (\<lambda>_.
    and_then (save C S) (\<lambda>_.
    ok result)))))"

text \<open>From the recorded intent to the end.\<close>

definition approve_prepared :: "libs \<Rightarrow> codec \<Rightarrow> 'w os \<Rightarrow> uuid \<Rightarrow> u64 \<Rightarrow> prepared \<Rightarrow> ('w service, service_error, proposal) io" where
  "approve_prepared L C S pid revision q =
    and_then (in_journal (transition L S pid revision Approved)) (\<lambda>e.
    and_then (set_state (update_proposal (pr_index q) (\<lambda>p. p\<lparr>p_revision := e_revision e\<rparr>))) (\<lambda>_.
    and_then (approve_move L S pid q (e_revision e)) (\<lambda>e.
    and_then (in_journal (transition L S pid (e_revision e) SourceRemoved)) (\<lambda>e.
    and_then (in_journal (transition L S pid (e_revision e) Completed)) (\<lambda>e.
    conclude C S (pr_index q) (e_revision e) ''completed'')))))"

definition approve :: "libs \<Rightarrow> codec \<Rightarrow> 'w os \<Rightarrow> uuid \<Rightarrow> u64 \<Rightarrow> ('w service, service_error, proposal) io" where
  "approve L C S pid revision =
    and_then (approve_prepare L S pid revision) (approve_prepared L C S pid revision)"

section \<open>Undo\<close>

text \<open>\<open>Path::exists\<close>: whether \<open>metadata\<close> succeeds.\<close>

definition path_exists :: "'w os \<Rightarrow> string \<Rightarrow> ('w, 'e, bool) io" where
  "path_exists S path = and_then (try_result (os_stat S path)) (\<lambda>r. ok (case r of Inl _ \<Rightarrow> False | Inr _ \<Rightarrow> True))"

record undo_plan =
  un_index :: nat
  un_source_parent :: obj
  un_source_name :: "string option"
  un_folder_fd :: obj
  un_destination :: string
  un_expected :: identity

definition undo_prepare :: "libs \<Rightarrow> 'w os \<Rightarrow> uuid \<Rightarrow> u64 \<Rightarrow> ('w service, service_error, undo_plan) io" where
  "undo_prepare L S pid revision =
    and_then (state_of (\<lambda>x. x)) (\<lambda>st.
    and_then (lift_res (proposal_index st pid revision)) (\<lambda>index.
    let p = ps_proposals st ! index in
    and_then (fail_if (p_status p \<noteq> ''completed'') SRevisionConflict) (\<lambda>_.
    and_then (lift_res (source_path L st index)) (\<lambda>source.
    and_then (lift_res (destination_path L st index)) (\<lambda>destination.
    and_then (in_os SFs (path_exists S source)) (\<lambda>occupied.
    and_then (fail_if occupied SCollision) (\<lambda>_.
    and_then (in_os SFs (destination_exists_case_folded L S source)) (\<lambda>taken.
    and_then (fail_if taken SCollision) (\<lambda>_.
    and_then (lift_res (decode_relative L (p_source_relative p))) (\<lambda>relative.
    and_then (lift_res (find_root (\<lambda>r. rt_id r = p_source_root_id p) st)) (\<lambda>sroot.
    and_then (lift_res (ok_or DestinationRequired (p_destination p))) (\<lambda>c.
    and_then (lift_res (find_root (\<lambda>r. rt_id r = ch_root_id c) st)) (\<lambda>droot.
    and_then (in_os SFs (open_root S (rt_path sroot))) (\<lambda>sroot_fd.
    and_then (in_os SFs (open_source_parent S (rt_path sroot) sroot_fd relative)) (\<lambda>source_parent.
    and_then (in_os SFs (open_root S (rt_path droot))) (\<lambda>droot_fd.
    and_then (in_os SFs (open_folder S (rt_path droot) droot_fd (ch_directory c))) (\<lambda>folder_fd.
    and_then (in_os SFs (device_fd S source_parent)) (\<lambda>a.
    and_then (in_os SFs (device_fd S folder_fd)) (\<lambda>b.
    and_then (fail_if (a \<noteq> b) (SFs (FsIo XDEV))) (\<lambda>_.
    ok \<lparr>un_index = index, un_source_parent = source_parent, un_source_name = file_name relative,
      un_folder_fd = folder_fd, un_destination = destination, un_expected = proposal_identity p\<rparr>))))))))))))))))))))"

definition undo_prepared :: "libs \<Rightarrow> codec \<Rightarrow> 'w os \<Rightarrow> uuid \<Rightarrow> u64 \<Rightarrow> undo_plan \<Rightarrow> ('w service, service_error, proposal) io" where
  "undo_prepared L C S pid revision q =
    and_then (in_journal (transition L S pid revision Undoing)) (\<lambda>e.
    and_then (lift_res (ok_or SUnsafePath (file_name (un_destination q)))) (\<lambda>destination_name.
    and_then (lift_res (ok_or SUnsafePath (un_source_name q))) (\<lambda>source_name.
    and_then (in_os SFs (same_filesystem_move_at S (un_folder_fd q) destination_name
        (un_source_parent q) source_name (un_expected q))) (\<lambda>_.
    and_then (in_journal (transition L S pid (e_revision e) Undone)) (\<lambda>e.
    conclude C S (un_index q) (e_revision e) ''undone'')))))"

definition undo :: "libs \<Rightarrow> codec \<Rightarrow> 'w os \<Rightarrow> uuid \<Rightarrow> u64 \<Rightarrow> ('w service, service_error, proposal) io" where
  "undo L C S pid revision =
    and_then (undo_prepare L S pid revision) (undo_prepared L C S pid revision)"

lemma approve_run:
  "approve_prepare L S pid n s = (Inr q, s1) \<Longrightarrow> approve L C S pid n s = approve_prepared L C S pid n q s1"
  by (simp add: approve_def and_then_def)

lemma undo_run:
  "undo_prepare L S pid n s = (Inr q, s1) \<Longrightarrow> undo L C S pid n s = undo_prepared L C S pid n q s1"
  by (simp add: undo_def and_then_def)

end
