(* ===== verification/Service_Laws.thy ===== *)
theory Service_Laws
  imports Service_Move Fs_Laws Journal_History
begin

text \<open>
  How the guarantees of the layers below carry over to the service: what its operations leave
  of the files, and what they leave of the journal.
\<close>

section \<open>Frames\<close>

definition files_of :: "('w \<Rightarrow> fsview) \<Rightarrow> 'w service \<Rightarrow> fsview" where
  "files_of view s = view (sv_world s)"

definition entries_in :: "libs \<Rightarrow> 'w service \<Rightarrow> entries" where
  "entries_in L s = entries_of L (sv_rows s)"

definition journal_of :: "'w service \<Rightarrow> 'w journal" where
  "journal_of s = \<lparr>j_rows = sv_rows s, j_path = sv_db_path s, j_world = sv_world s\<rparr>"

lemma journal_of_rows [simp]: "j_rows (journal_of s) = sv_rows s" "j_world (journal_of s) = sv_world s"
  by (simp_all add: journal_of_def)

lemma in_os_run:
  "in_os f m s = (r, s') \<Longrightarrow> \<exists>q w. m (sv_world s) = (q, w) \<and> r = map_res_err f q \<and> s' = s\<lparr>sv_world := w\<rparr>"
  by (auto simp: in_os_def split: prod.splits)

lemma in_os_Inr: "in_os f m s = (Inr x, s') \<longleftrightarrow> (\<exists>w. m (sv_world s) = (Inr x, w) \<and> s' = s\<lparr>sv_world := w\<rparr>)"
  by (auto simp: in_os_def split: prod.splits)

lemma in_os_Inl: "in_os f m s = (Inl e, s') \<longleftrightarrow> (\<exists>d w. m (sv_world s) = (Inl d, w) \<and> e = f d \<and> s' = s\<lparr>sv_world := w\<rparr>)"
  by (auto simp: in_os_def split: prod.splits)

lemma in_journal_run:
  "in_journal m s = (r, s') \<Longrightarrow> \<exists>q j. m (journal_of s) = (q, j) \<and> r = map_res_err SJournal q \<and>
     s' = s\<lparr>sv_rows := j_rows j, sv_world := j_world j\<rparr>"
  by (auto simp: in_journal_def journal_of_def split: prod.splits)

lemma quiet_in_os: "quiet view m \<Longrightarrow> quiet (files_of view) (in_os f m)"
  by (rule quietI) (auto simp: files_of_def dest!: in_os_run dest: quietD)

lemma quiet_in_journal: "quiet (\<lambda>j. view (j_world j)) m \<Longrightarrow> quiet (files_of view) (in_journal m)"
  by (rule quietI) (auto simp: files_of_def dest!: in_journal_run dest: quietD)

lemma quiet_state [os_frame]:
  "quiet (files_of view) (state_of g)" "quiet (files_of view) (set_state h)"
  "quiet (files_of view) (gets k)"
  by (auto intro!: quietI simp: files_of_def state_of_def set_state_def)

lemma effect_in_os: "effect view v m Q E \<Longrightarrow> effect (files_of view) v (in_os f m) Q E"
proof (rule effectI)
  fix s x s' assume e: "effect view v m Q E" and s: "files_of view s = v" and "in_os f m s = (Inr x, s')"
  then obtain w where m: "m (sv_world s) = (Inr x, w)" and s': "s' = s\<lparr>sv_world := w\<rparr>" by (auto simp: in_os_Inr)
  have "view (sv_world s) = v" using s by (simp add: files_of_def)
  from effect_okD [OF e this m] show "Q x (files_of view s')" by (simp add: files_of_def s')
next
  fix s x s' assume e: "effect view v m Q E" and s: "files_of view s = v" and "in_os f m s = (Inl x, s')"
  then obtain w d where m: "m (sv_world s) = (Inl d, w)" and s': "s' = s\<lparr>sv_world := w\<rparr>" by (auto simp: in_os_Inl)
  have "view (sv_world s) = v" using s by (simp add: files_of_def)
  from effect_errD [OF e this m] show "E (files_of view s')" by (simp add: files_of_def s')
qed

text \<open>What a save may change of the view: the state file and its successor only.\<close>

definition same_files :: "fsview \<Rightarrow> fsview \<Rightarrow> bool" where
  "same_files v v' \<longleftrightarrow> v_entry v' = v_entry v \<and> v_file v' = v_file v \<and> v_dirpath v' = v_dirpath v"

lemma same_files_refl [simp]: "same_files v v"
  by (simp add: same_files_def)

lemma same_files_trans: "same_files u v \<Longrightarrow> same_files v w \<Longrightarrow> same_files u w"
  by (simp add: same_files_def)

definition files_only :: "('w \<Rightarrow> fsview) \<Rightarrow> ('w, 'e, 'a) io \<Rightarrow> bool" where
  "files_only view m \<longleftrightarrow> (\<forall>w r w'. m w = (r, w') \<longrightarrow> same_files (view w) (view w'))"

lemma files_onlyI: "(\<And>w r w'. m w = (r, w') \<Longrightarrow> same_files (view w) (view w')) \<Longrightarrow> files_only view m"
  unfolding files_only_def by blast

lemma files_onlyD: "files_only view m \<Longrightarrow> m w = (r, w') \<Longrightarrow> same_files (view w) (view w')"
  unfolding files_only_def by blast

lemma files_only_quiet: "quiet view m \<Longrightarrow> files_only view m"
  by (rule files_onlyI) (simp add: quietD)

lemma files_only_then: "files_only view m \<Longrightarrow> (\<And>x. files_only view (k x)) \<Longrightarrow> files_only view (and_then m k)"
  unfolding files_only_def and_then_def
  by (fastforce split: prod.splits sum.splits intro: same_files_trans)

lemma files_only_if: "files_only view m \<Longrightarrow> files_only view m' \<Longrightarrow> files_only view (if c then m else m')"
  by simp

lemma files_only_option:
  "files_only view m \<Longrightarrow> (\<And>x. files_only view (k x)) \<Longrightarrow> files_only view (case t of None \<Rightarrow> m | Some x \<Rightarrow> k x)"
  by (cases t) auto

lemma files_only_pure:
  "files_only view (ok x)" "files_only view (err e)" "files_only view (lift_res r)" "files_only view (fail_if c e')"
  by (rule files_only_quiet, rule quiet_pure)+

lemma files_only_state:
  "files_only (files_of view) (state_of g)" "files_only (files_of view) (set_state h)"
  by (rule files_only_quiet, rule quiet_state)+

lemma files_only_in_os: "files_only view m \<Longrightarrow> files_only (files_of view) (in_os f m)"
  by (rule files_onlyI) (auto simp: files_of_def dest!: in_os_run dest: files_onlyD)

context posix
begin

lemma quiet_sql [os_frame]: "quiet (\<lambda>j. view (j_world j)) (sql S stmt)"
proof (rule quietI)
  fix j r j' assume m: "sql S stmt j = (r, j')"
  obtain e w where db: "os_db S (j_world j) = (e, w)" by fastforce
  obtain now w' where ep: "os_epoch S w = (now, w')" by fastforce
  have "j_world j' = w \<or> j_world j' = w'"
    using m db ep by (auto simp: sql_def split: option.splits)
  with db_view [OF db] epoch_view [OF ep] show "view (j_world j') = view (j_world j)" by auto
qed

lemma quiet_in_world: "quiet view m \<Longrightarrow> quiet (\<lambda>j. view (j_world j)) (in_world m)"
  by (rule quietI) (auto simp: in_world_def split: prod.splits dest: quietD)

lemma quiet_journal_bytes: "quiet view (journal_bytes S ps t)"
proof (induction ps arbitrary: t)
  case (Cons p ps)
  show ?case unfolding journal_bytes.simps
    by (intro quiet_and_then quiet_try_result quiet_calls)
       (auto split: sum.split errno.split option.split intro!: Cons.IH quiet_pure)
qed (simp add: quiet_pure)

lemma quiet_journal [os_frame]:
  "quiet (\<lambda>j. view (j_world j)) (get_entry L S u)" "quiet (\<lambda>j. view (j_world j)) (transition L S u n t)"
  "quiet (\<lambda>j. view (j_world j)) (create L S e)" "quiet (\<lambda>j. view (j_world j)) (revise_proposal L S u n b)"
  "quiet (\<lambda>j. view (j_world j)) (set_sha256 L S u h)" "quiet (\<lambda>j. view (j_world j)) (prune_terminal S k)"
  "quiet (\<lambda>j. view (j_world j)) (enforce_retention S k age lim)"
proof -
  show get: "quiet (\<lambda>j. view (j_world j)) (get_entry L S u)"
    unfolding get_entry_def by (intro os_frame quiet_sql)
  show prune: "quiet (\<lambda>j. view (j_world j)) (prune_terminal S k)"
    unfolding prune_terminal_def by (intro os_frame quiet_sql)
  show "quiet (\<lambda>j. view (j_world j)) (transition L S u n t)" "quiet (\<lambda>j. view (j_world j)) (create L S e)"
    "quiet (\<lambda>j. view (j_world j)) (revise_proposal L S u n b)" "quiet (\<lambda>j. view (j_world j)) (set_sha256 L S u h)"
    unfolding transition_def create_def revise_proposal_def set_sha256_def active_count_def
    by (intro os_frame quiet_sql get)+
  show "quiet (\<lambda>j. view (j_world j)) (enforce_retention S k age lim)"
    unfolding enforce_retention_def by (intro os_frame quiet_sql prune quiet_in_world quiet_journal_bytes)
qed

lemma quiet_collect: "quiet (\<lambda>j. view (j_world j)) (collect_entries L S ts)"
proof (induction ts)
  case Nil
  show ?case unfolding collect_entries.simps by (rule quiet_pure)
next
  case (Cons t ts)
  then show ?case unfolding collect_entries.simps by (intro os_frame quiet_journal)
qed

lemma quiet_nonterminal [os_frame]: "quiet (\<lambda>j. view (j_world j)) (nonterminal_entries L S)"
  unfolding nonterminal_entries_def by (intro os_frame quiet_sql quiet_collect)

lemma quiet_retention [os_frame]: "quiet (files_of view) (enforce_journal_retention S)"
  unfolding enforce_journal_retention_def by (intro os_frame quiet_in_journal quiet_journal)

text \<open>A save touches the state file and its successor, nothing else.\<close>

lemma next_files_only:
  "files_only view (os_next_open S)" "files_only view (os_next_write S b)" "files_only view (os_next_rename S)"
proof -
  show "files_only view (os_next_open S)"
    by (rule files_onlyI) (auto simp: same_files_def dest!: next_open_changes)
  show "files_only view (os_next_write S b)"
  proof (rule files_onlyI)
    fix w r w' assume m: "os_next_write S b w = (r, w')"
    show "same_files (view w) (view w')"
    proof (cases r)
      case (Inl e)
      with next_write_err m show ?thesis by (fastforce simp: same_files_def)
    next
      case (Inr u)
      with next_write_ok m show ?thesis by (simp add: same_files_def)
    qed
  qed
  show "files_only view (os_next_rename S)"
  proof (rule files_onlyI)
    fix w r w' assume m: "os_next_rename S w = (r, w')"
    show "same_files (view w) (view w')"
    proof (cases r)
      case (Inl e)
      with next_rename_err m show ?thesis by (fastforce simp: same_files_def)
    next
      case (Inr u)
      with next_rename_ok m show ?thesis by (simp add: same_files_def)
    qed
  qed
qed

lemma files_only_save: "files_only (files_of view) (save C S)"
  unfolding save_def
  by (intro files_only_then files_only_pure files_only_state files_only_in_os next_files_only
      files_only_quiet [OF quiet_calls(18)] files_only_quiet [OF quiet_calls(19)])

lemma files_only_conclude: "files_only (files_of view) (conclude C S i n st)"
  unfolding conclude_def
  by (intro files_only_then files_only_pure files_only_state files_only_save
      files_only_quiet [OF quiet_retention])

end

end
