(* ===== verification/Approve_Laws.thy ===== *)
theory Approve_Laws
  imports Service_Laws
begin

text \<open>
  What \<open>approve\<close> leaves of the files, at every point it can stop.
\<close>

section \<open>Preparation\<close>

context posix
begin

lemma quiet_folders [os_frame]:
  "quiet view (open_source_parent S p d r)" "quiet view (open_folder S p d r)"
  "quiet view (path_exists S p)"
  unfolding open_source_parent_def open_folder_def path_exists_def
  by (auto split: option.split intro!: os_frame quiet_calls quiet_reading)

lemma quiet_check_folder [os_frame]: "quiet (files_of view) (check_folder S p)"
  unfolding check_folder_def by (intro os_frame quiet_in_os quiet_calls)

lemma quiet_approve_prepare: "quiet (files_of view) (approve_prepare L S pid n)"
  unfolding approve_prepare_def Let_def
  by (intro quiet_and_then quiet_pure quiet_state quiet_in_os quiet_reading quiet_folders quiet_check_folder)

lemma quiet_undo_prepare: "quiet (files_of view) (undo_prepare L S pid n)"
  unfolding undo_prepare_def Let_def
  by (intro quiet_and_then quiet_pure quiet_state quiet_in_os quiet_reading quiet_folders quiet_check_folder)

end

text \<open>
  What a successful preparation has established: the proposal, its identity, and a plain source
  name; and, in the world it ends in, that no entry of the destination's directory has the
  destination's name.
\<close>

lemma check_folder_frame: "check_folder S p s = (r, s') \<Longrightarrow> \<exists>w. s' = s\<lparr>sv_world := w\<rparr>"
  by (cases r) (auto simp: check_folder_def and_then_Inr and_then_Inl in_os_Inr in_os_Inl)

lemma approve_prepare_ok:
  assumes "approve_prepare L S pid n s = (Inr q, s')"
  shows "pr_index q < length (ps_proposals (sv_state s))"
    and "p_id (ps_proposals (sv_state s) ! pr_index q) = pid"
    and "p_revision (ps_proposals (sv_state s) ! pr_index q) = n"
    and "pr_expected q = proposal_identity (ps_proposals (sv_state s) ! pr_index q)"
    and "entry_name (pr_source_name q)"
    and "\<exists>w. s' = s\<lparr>sv_world := w\<rparr>"
proof -
  from assms have "proposal_index (sv_state s) pid n = Inr (pr_index q) \<and> entry_name (pr_source_name q) \<and>
    pr_expected q = proposal_identity (ps_proposals (sv_state s) ! pr_index q) \<and> (\<exists>w. s' = s\<lparr>sv_world := w\<rparr>)"
    unfolding approve_prepare_def Let_def
    by (auto simp: and_then_Inr state_of_def in_os_Inr dest!: check_folder_frame dest: file_name_entry_name)
  with proposal_index_ok [of "sv_state s" pid n "pr_index q"]
  show "pr_index q < length (ps_proposals (sv_state s))" "p_id (ps_proposals (sv_state s) ! pr_index q) = pid"
    "p_revision (ps_proposals (sv_state s) ! pr_index q) = n"
    "pr_expected q = proposal_identity (ps_proposals (sv_state s) ! pr_index q)"
    "entry_name (pr_source_name q)" "\<exists>w. s' = s\<lparr>sv_world := w\<rparr>" by auto
qed

section \<open>Content\<close>

text \<open>
  Between \<open>v\<close> and \<open>u\<close> no entry but the source's has changed, and the source's content is still
  under its name or, with the same digest, under the destination's.
\<close>

definition kept :: "libs \<Rightarrow> prepared \<Rightarrow> string \<Rightarrow> fsview \<Rightarrow> fsview \<Rightarrow> bool" where
  "kept L q name v u \<longleftrightarrow> untouched {(pr_source_parent q, pr_source_name q)} v u \<and>
     (\<forall>x f. v_entry v (pr_source_parent q) (pr_source_name q) = Some x \<longrightarrow> v_file v x = Some f \<longrightarrow>
        v_entry u (pr_source_parent q) (pr_source_name q) = Some x \<and> data_at u x = Some (f_data f) \<or>
        (\<exists>y g. v_entry u (pr_folder_fd q) name = Some y \<and> v_file u y = Some g \<and>
           lib_sha256 L (f_data g) = lib_sha256 L (f_data f)))"

lemma kept_untouched: "untouched {} v u \<Longrightarrow> kept L q name v u"
  unfolding kept_def
proof (intro conjI allI impI)
  assume u: "untouched {} v u"
  then show "untouched {(pr_source_parent q, pr_source_name q)} v u" by (rule untouched_mono) simp
  fix x f assume "v_entry v (pr_source_parent q) (pr_source_name q) = Some x" and "v_file v x = Some f"
  with u have "v_entry u (pr_source_parent q) (pr_source_name q) = Some x" "data_at u x = Some (f_data f)"
    by (auto simp: untouched_def data_at_def)
  then show "v_entry u (pr_source_parent q) (pr_source_name q) = Some x \<and> data_at u x = Some (f_data f) \<or>
        (\<exists>y g. v_entry u (pr_folder_fd q) name = Some y \<and> v_file u y = Some g \<and>
           lib_sha256 L (f_data g) = lib_sha256 L (f_data f))" by blast
qed

lemma kept_refl [simp]: "kept L q name v v"
  by (rule kept_untouched) simp

lemma kept_moved:
  assumes "moved (pr_source_parent q) (pr_source_name q) (pr_folder_fd q) name x v u"
  shows "kept L q name v u"
  unfolding kept_def
proof (intro conjI allI impI)
  show "untouched {(pr_source_parent q, pr_source_name q)} v u" using moved_untouched [OF assms] .
  fix y f assume y: "v_entry v (pr_source_parent q) (pr_source_name q) = Some y" and f: "v_file v y = Some f"
  have "y = x" using y assms by (simp add: moved_def)
  with f moved_facts(1,3) [OF assms]
  show "v_entry u (pr_source_parent q) (pr_source_name q) = Some y \<and> data_at u y = Some (f_data f) \<or>
        (\<exists>y g. v_entry u (pr_folder_fd q) name = Some y \<and> v_file u y = Some g \<and>
           lib_sha256 L (f_data g) = lib_sha256 L (f_data f))" by auto
qed

section \<open>The cross-filesystem branch\<close>

text \<open>The phases of the verified copy, as the files show them.\<close>

datatype copy_phase = Before | Partial | Staged string | Shown string | Gone string

inductive copying :: "libs \<Rightarrow> prepared \<Rightarrow> string \<Rightarrow> string \<Rightarrow> fsview \<Rightarrow> copy_phase \<Rightarrow> fsview \<Rightarrow> bool"
  for L q sn name v where
  copy_before: "copying L q sn name v Before v"
| copy_partial: "staged (pr_folder_fd q) sn y f v u \<Longrightarrow> copying L q sn name v Partial u"
| copy_staged: "staged (pr_folder_fd q) sn y f v u \<Longrightarrow> lib_sha256 L (f_data f) = h \<Longrightarrow>
    (\<And>g. v_file v (object_of (pr_expected q)) = Some g \<Longrightarrow>
      pr_expected q = identity_of (object_of (pr_expected q)) g \<and> h = lib_sha256 L (f_data g)) \<Longrightarrow>
    copying L q sn name v (Staged h) u"
| copy_shown: "copying L q sn name v (Staged h) u \<Longrightarrow> v_entry u (pr_folder_fd q) sn = Some y \<Longrightarrow>
    moved (pr_folder_fd q) sn (pr_folder_fd q) name y u u' \<Longrightarrow> copying L q sn name v (Shown h) u'"
| copy_gone: "copying L q sn name v (Shown h) u \<Longrightarrow>
    retired_checked L (pr_source_parent q) (pr_source_name q) (pr_expected q) h u u' \<Longrightarrow>
    copying L q sn name v (Gone h) u'"

inductive_cases copying_stagedE: "copying L q sn name v (Staged h) u"
inductive_cases copying_shownE: "copying L q sn name v (Shown h) u"
inductive_cases copying_goneE: "copying L q sn name v (Gone h) u"

text \<open>Once shown, the destination holds a new file with the digest of the source.\<close>

lemma copying_shown:
  assumes "copying L q sn name v (Shown h) u"
  obtains y f where "v_entry u (pr_folder_fd q) name = Some y" and "v_file u y = Some f"
    and "lib_sha256 L (f_data f) = h" and "v_file v y = None" and "untouched {} v u"
    and "\<And>z g. v_file v z = Some g \<Longrightarrow> v_file u z = Some g"
    and "\<And>g. v_file v (object_of (pr_expected q)) = Some g \<Longrightarrow> h = lib_sha256 L (f_data g)"
    and "v_entry v (pr_folder_fd q) name = None"
    and "\<And>e m z. v_entry u e m = Some z \<Longrightarrow> z \<noteq> y \<Longrightarrow> v_entry v e m = Some z"
proof -
  from assms obtain u1 z where st: "copying L q sn name v (Staged h) u1"
    and z: "v_entry u1 (pr_folder_fd q) sn = Some z" and m: "moved (pr_folder_fd q) sn (pr_folder_fd q) name z u1 u"
    by (rule copying_shownE)
  from st obtain y f where s: "staged (pr_folder_fd q) sn y f v u1" and h: "lib_sha256 L (f_data f) = h"
    and src: "\<And>g. v_file v (object_of (pr_expected q)) = Some g \<Longrightarrow> h = lib_sha256 L (f_data g)"
    by (rule copying_stagedE) blast
  note sf = staged_facts [OF s] and mf = moved_facts [OF m]
  have zy: "z = y" using z sf(1) by simp
  have "untouched {(pr_folder_fd q, sn)} v u"
    using untouched_trans [OF untouched_mono [OF staged_untouched [OF s]] moved_untouched [OF m]] by simp
  then have un: "untouched {} v u" using untouched_absent sf(4) by blast
  have "v_entry u1 (pr_folder_fd q) name = None" using m by (simp add: moved_def)
  then have "v_entry v (pr_folder_fd q) name = None"
    using s by (cases "name = sn") (auto simp: staged_def)
  moreover have "v_entry v e m = Some z'" if "v_entry u e m = Some z'" "z' \<noteq> y" for e m z'
    using that m s zy by (auto simp: moved_def staged_def split: if_splits)
  ultimately show thesis
    using that [of y f] mf(1,3) sf(2,3) zy h src un s by (simp add: staged_def)
qed

lemma copying_kept: "copying L q sn name v ph u \<Longrightarrow> kept L q name v u"
proof (induction rule: copying.induct)
  case (copy_partial y f u)
  then show ?case by (intro kept_untouched staged_untouched)
next
  case (copy_staged y f u h)
  then show ?case by (intro kept_untouched) (rule staged_untouched)
next
  case (copy_shown h u y u')
  then have "copying L q sn name v (Shown h) u'" by (intro copying.copy_shown)
  then show ?case by (rule copying_shown) (rule kept_untouched)
next
  case (copy_gone h u u')
  let ?d = "pr_source_parent q" and ?n = "pr_source_name q" and ?x = "object_of (pr_expected q)"
  obtain y f where y: "v_entry u (pr_folder_fd q) name = Some y" "v_file u y = Some f" "lib_sha256 L (f_data f) = h"
      "v_file v y = None" "untouched {} v u" and keep: "\<And>z g. v_file v z = Some g \<Longrightarrow> v_file u z = Some g"
    and src: "\<And>g. v_file v ?x = Some g \<Longrightarrow> h = lib_sha256 L (f_data g)"
    by (rule copying_shown [OF copy_gone.hyps(1)]) blast
  have rc: "retired_checked L ?d ?n (pr_expected q) h u u'" by (rule copy_gone.hyps(2))
  have r: "retired ?d ?n ?x u u'" using rc by (simp add: retired_checked_def)
  show ?case unfolding kept_def
    proof (intro conjI allI impI)
      show "untouched {(?d, ?n)} v u'"
        using untouched_trans [OF untouched_mono [OF y(5)]] r by (simp add: retired_def)
      fix x0 f0 assume x0: "v_entry v ?d ?n = Some x0" "v_file v x0 = Some f0"
      have "v_entry u ?d ?n = Some x0" using x0(1) y(5) by (simp add: untouched_def)
      moreover have "v_entry u ?d ?n = Some ?x" using r by (simp add: retired_def)
      ultimately have "x0 = ?x" by simp
      then have "y \<noteq> ?x" and h: "h = lib_sha256 L (f_data f0)" using x0(2) y(4) src by auto
      moreover have "(pr_folder_fd q, name) \<noteq> (?d, ?n)"
        using y(1) \<open>v_entry u ?d ?n = Some ?x\<close> \<open>y \<noteq> ?x\<close> by auto
      ultimately have "v_entry u' (pr_folder_fd q) name = Some y" "v_file u' y = Some f"
        using r y(1,2) by (simp_all add: retired_def)
      then show "v_entry u' ?d ?n = Some x0 \<and> data_at u' x0 = Some (f_data f0) \<or>
        (\<exists>y g. v_entry u' (pr_folder_fd q) name = Some y \<and> v_file u' y = Some g \<and>
           lib_sha256 L (f_data g) = lib_sha256 L (f_data f0))"
        using y(3) h by blast
  qed
qed (rule kept_refl)

section \<open>The branches and the whole\<close>

lemma staging_name_entry: "libs_ok L \<Longrightarrow> entry_name (staging_name L pid)"
  by (auto simp: staging_name_def entry_name_def dest: libs_ok.uuid_no_slash)

lemma copying_trivial: "copying L q sn name v Partial u \<Longrightarrow> \<exists>ph. copying L q sn name v ph u"
  by blast

text \<open>The two ways the move can have gone, the second at any of its phases.\<close>

definition moving :: "libs \<Rightarrow> uuid \<Rightarrow> prepared \<Rightarrow> fsview \<Rightarrow> fsview \<Rightarrow> bool" where
  "moving L pid q v u \<longleftrightarrow> u = v \<or> (\<exists>name. file_name (pr_destination q) = Some name \<and>
     (moved (pr_source_parent q) (pr_source_name q) (pr_folder_fd q) name (object_of (pr_expected q)) v u \<or>
      (\<exists>ph. copying L q (staging_name L pid) name v ph u)))"

definition arrived :: "libs \<Rightarrow> uuid \<Rightarrow> prepared \<Rightarrow> fsview \<Rightarrow> fsview \<Rightarrow> bool" where
  "arrived L pid q v u \<longleftrightarrow> (\<exists>name. file_name (pr_destination q) = Some name \<and>
     (moved (pr_source_parent q) (pr_source_name q) (pr_folder_fd q) name (object_of (pr_expected q)) v u \<or>
      (\<exists>h. copying L q (staging_name L pid) name v (Gone h) u)))"

text \<open>What holds of the files, and still does when only the state file was written since.\<close>

definition after_files :: "(fsview \<Rightarrow> bool) \<Rightarrow> fsview \<Rightarrow> bool" where
  "after_files P u \<longleftrightarrow> (\<exists>u0. P u0 \<and> same_files u0 u)"

lemma arrived_moving: "arrived L pid q v u \<Longrightarrow> moving L pid q v u"
  unfolding arrived_def moving_def by blast

lemma moving_refl [simp]: "moving L pid q v v"
  by (simp add: moving_def)

lemma moving_kept:
  "moving L pid q v u \<Longrightarrow> u = v \<or> (\<exists>name. file_name (pr_destination q) = Some name \<and> kept L q name v u)"
  unfolding moving_def using kept_moved copying_kept by blast

lemma arrived_facts:
  assumes "arrived L pid q v u" and f: "v_file v (object_of (pr_expected q)) = Some f"
  shows "\<exists>name y g. file_name (pr_destination q) = Some name \<and> v_entry v (pr_folder_fd q) name = None \<and>
    v_entry u (pr_folder_fd q) name = Some y \<and> v_file u y = Some g \<and>
    lib_sha256 L (f_data g) = lib_sha256 L (f_data f) \<and>
    v_entry v (pr_source_parent q) (pr_source_name q) = Some (object_of (pr_expected q)) \<and>
    v_entry u (pr_source_parent q) (pr_source_name q) = None"
proof -
  let ?d = "pr_source_parent q" and ?n = "pr_source_name q" and ?x = "object_of (pr_expected q)"
  obtain name where name: "file_name (pr_destination q) = Some name"
    and c: "moved ?d ?n (pr_folder_fd q) name ?x v u \<or> (\<exists>h. copying L q (staging_name L pid) name v (Gone h) u)"
    using assms(1) unfolding arrived_def by blast
  from c show ?thesis
  proof
    assume m: "moved ?d ?n (pr_folder_fd q) name ?x v u"
    then have "v_entry v (pr_folder_fd q) name = None" "v_entry v ?d ?n = Some ?x" by (simp_all add: moved_def)
    with name moved_facts(1-3) [OF m] f show ?thesis by auto
  next
    assume "\<exists>h. copying L q (staging_name L pid) name v (Gone h) u"
    then obtain h u1 where sh: "copying L q (staging_name L pid) name v (Shown h) u1"
      and rc: "retired_checked L ?d ?n (pr_expected q) h u1 u" by (auto elim: copying_goneE)
    obtain y g where y: "v_entry u1 (pr_folder_fd q) name = Some y" "v_file u1 y = Some g" "lib_sha256 L (f_data g) = h"
      "v_file v y = None" "untouched {} v u1" "v_entry v (pr_folder_fd q) name = None"
      and src: "\<And>g. v_file v ?x = Some g \<Longrightarrow> h = lib_sha256 L (f_data g)"
      and entries: "\<And>e m z. v_entry u1 e m = Some z \<Longrightarrow> z \<noteq> y \<Longrightarrow> v_entry v e m = Some z"
      by (rule copying_shown [OF sh]) blast
    have r: "retired ?d ?n ?x u1 u" using rc by (simp add: retired_checked_def)
    have "y \<noteq> ?x" using y(4) f by auto
    moreover have e1: "v_entry u1 ?d ?n = Some ?x" using r by (simp add: retired_def)
    ultimately have ne: "(pr_folder_fd q, name) \<noteq> (?d, ?n)" using y(1) by auto
    have "v_entry u (pr_folder_fd q) name = Some y" "v_file u y = Some g" "v_entry u ?d ?n = None"
      using r y(1,2) ne \<open>y \<noteq> ?x\<close> by (simp_all add: retired_def)
    moreover have "v_entry v ?d ?n = Some ?x" using entries [OF e1] \<open>y \<noteq> ?x\<close> by simp
    ultimately show ?thesis using name y(3,6) src [OF f] by auto
  qed
qed

lemma after_filesI: "P u \<Longrightarrow> after_files P u"
  unfolding after_files_def using same_files_refl by blast

context posix
begin

lemma approve_rename_effect:
  assumes "entry_name (pr_source_name q)" and "entry_name name"
  shows "effect (files_of view) v (approve_rename L S pid q name n)
    (\<lambda>_. moved (pr_source_parent q) (pr_source_name q) (pr_folder_fd q) name (object_of (pr_expected q)) v)
    (\<lambda>u. u = v \<or> moved (pr_source_parent q) (pr_source_name q) (pr_folder_fd q) name (object_of (pr_expected q)) v u)"
  unfolding approve_rename_def
  by (rule effect_then [OF effect_in_os [OF move_at_effect [OF assms]]],
      rule effect_last [OF quiet_in_journal [OF quiet_journal(2)]]) simp_all

text \<open>The copy in three pieces: staging, publishing, and retiring the source.\<close>

lemma approve_stage_effect:
  assumes sn: "entry_name sn"
  shows "effect (files_of view) v (in_os SFs (verified_stage_copy_at L S (pr_verified_fd q) (pr_folder_fd q) sn (pr_expected q)))
    (\<lambda>h u. copying L q sn name v (Staged h) u) (\<lambda>u. \<exists>ph. copying L q sn name v ph u)"
proof (rule effect_weaken [OF effect_in_os [OF stage_copy_effect [OF sn]]])
  fix h u assume a: "object_of (pr_expected q) = pr_verified_fd q \<and>
     (\<exists>x f. staged (pr_folder_fd q) sn x f v u \<and> lib_sha256 L (f_data f) = h) \<and>
     (\<forall>g. v_file v (pr_verified_fd q) = Some g \<longrightarrow>
        pr_expected q = identity_of (pr_verified_fd q) g \<and> h = lib_sha256 L (f_data g))"
  then obtain x f where "staged (pr_folder_fd q) sn x f v u" "lib_sha256 L (f_data f) = h" by blast
  then show "copying L q sn name v (Staged h) u" by (rule copy_staged) (use a in simp)
next
  fix u assume "u = v \<or> (\<exists>x. staging (pr_folder_fd q) sn x v u)"
  then show "\<exists>ph. copying L q sn name v ph u" using copy_before copy_partial unfolding staging_def by blast
qed

lemma approve_publish_effect:
  assumes sn: "entry_name sn" and n: "entry_name name" and st: "copying L q sn name v (Staged h) u"
  shows "effect (files_of view) u (in_os SFs (publish_stage_at S (pr_folder_fd q) sn name))
    (\<lambda>_. copying L q sn name v (Shown h)) (\<lambda>u. \<exists>ph. copying L q sn name v ph u)"
proof -
  from st obtain y f where "staged (pr_folder_fd q) sn y f v u" by (rule copying_stagedE)
  then have y: "v_entry u (pr_folder_fd q) sn = Some y" by (rule staged_facts)
  show ?thesis
    by (rule effect_weaken [OF effect_in_os [OF publish_effect [OF sn n y]]])
       (use copy_shown [OF st y] st in blast)+
qed

lemma approve_retire_effect:
  assumes "entry_name (pr_source_name q)" and st: "copying L q sn name v (Shown h) u"
  shows "effect (files_of view) u (in_os SFs (retire_source_at L S (pr_source_parent q) (pr_source_name q) (pr_expected q) h))
    (\<lambda>_ u. \<exists>h. copying L q sn name v (Gone h) u) (\<lambda>u. \<exists>ph. copying L q sn name v ph u)"
  by (rule effect_weaken [OF effect_in_os [OF retire_effect [OF assms(1)]]]) (use copy_gone [OF st] st in blast)+

lemma approve_copy_effect:
  assumes sn: "entry_name (staging_name L pid)" and "entry_name (pr_source_name q)" and "entry_name name"
  shows "effect (files_of view) v (approve_copy L S pid q name n)
    (\<lambda>_ u. \<exists>h. copying L q (staging_name L pid) name v (Gone h) u)
    (\<lambda>u. \<exists>ph. copying L q (staging_name L pid) name v ph u)"
  (is "effect ?w v _ ?Q ?E")
  unfolding approve_copy_def
proof (rule effect_quiet [OF quiet_in_journal [OF quiet_journal(2)]],
    use copy_before in blast, rule effect_then [OF approve_stage_effect [OF sn]])
  fix s0 e1 s0' h u1
  let ?sn = "staging_name L pid"
  assume st: "copying L q ?sn name v (Staged h) u1"
  then have E1: "?E u1" by blast
  show "effect ?w u1 (and_then (in_journal (set_sha256 L S pid h)) (\<lambda>_.
    and_then (in_os SFs (publish_stage_at S (pr_folder_fd q) ?sn name)) (\<lambda>_.
    and_then (in_os SFs (verify_at L S (pr_folder_fd q) name h)) (\<lambda>_.
    and_then (in_journal (transition L S pid (e_revision e1) Published)) (\<lambda>e2.
    and_then (in_os SFs (retire_source_at L S (pr_source_parent q) (pr_source_name q) (pr_expected q) h)) (\<lambda>_.
    ok e2)))))) ?Q ?E"
  proof (rule effect_quiet [OF quiet_in_journal [OF quiet_journal(5)]], rule E1,
      rule effect_then [OF approve_publish_effect [OF sn assms(3) st]], goal_cases)
    case (1 _ _ _ _ u2)
    then have sh: "copying L q ?sn name v (Shown h) u2" by simp
    then have E2: "?E u2" by blast
    show ?case
    proof (rule effect_quiet [OF quiet_in_os [OF quiet_reading(8)]], rule E2,
        rule effect_quiet [OF quiet_in_journal [OF quiet_journal(2)]], rule E2,
        rule effect_then [OF approve_retire_effect [OF assms(2) sh]])
      show "effect ?w u (ok e2) ?Q ?E" if "\<exists>h. copying L q ?sn name v (Gone h) u" for e2 u
        by (rule effect_last [OF quiet_pure(1)]) (use that in blast)+
    qed
  qed
qed

lemma approve_move_effect:
  assumes "libs_ok L" and "entry_name (pr_source_name q)"
  shows "effect (files_of view) v (approve_move L S pid q n) (\<lambda>_. arrived L pid q v) (moving L pid q v)"
  unfolding approve_move_def
proof (rule effect_quiet [OF quiet_pure(3)], simp)
  fix s name s' assume "(lift_res (ok_or SUnsafePath (file_name (pr_destination q))) :: ('a service, service_error, string) io) s
      = (Inr name, s')"
  then have name: "file_name (pr_destination q) = Some name" by simp
  then have en: "entry_name name" by (rule file_name_entry_name)
  show "effect (files_of view) v
     (and_then (in_os SFs (device_fd S (pr_source_parent q))) (\<lambda>a.
      and_then (in_os SFs (device_fd S (pr_folder_fd q))) (\<lambda>b.
      if a = b then approve_rename L S pid q name n else approve_copy L S pid q name n)))
     (\<lambda>_. arrived L pid q v) (moving L pid q v)"
  proof (rule effect_quiet [OF quiet_in_os [OF quiet_reading(6)]], simp,
      rule effect_quiet [OF quiet_in_os [OF quiet_reading(6)]], simp, rule effect_if)
    show "effect (files_of view) v (approve_rename L S pid q name n) (\<lambda>_. arrived L pid q v) (moving L pid q v)"
      by (rule effect_weaken [OF approve_rename_effect [OF assms(2) en]])
         (use name in \<open>auto simp: arrived_def moving_def\<close>)
    show "effect (files_of view) v (approve_copy L S pid q name n) (\<lambda>_. arrived L pid q v) (moving L pid q v)"
      by (rule effect_weaken [OF approve_copy_effect [OF staging_name_entry [OF assms(1)] assms(2) en]])
         (use name in \<open>auto simp: arrived_def moving_def\<close>)
  qed
qed

text \<open>
  The whole of \<open>approve\<close>, from the state the preparation ended in: before the move nothing, in
  it one of its phases, after it the arrived file and nothing but the state file.
\<close>

lemma effect_files_only:
  assumes "files_only w m" and "P u"
  shows "effect w u m (\<lambda>_. after_files P) (after_files P)"
proof -
  have "after_files P (w s')" if "w s = u" "m s = (r, s')" for s r s'
    unfolding after_files_def using files_onlyD [OF assms(1) that(2)] assms(2) that(1) by blast
  then show ?thesis by (intro effectI)
qed

lemma approve_effect:
  assumes "libs_ok L" and q: "approve_prepare L S pid n s = (Inr q, s1)"
    and m: "approve L C S pid n s = (r, s')"
  shows "case r of Inr p \<Rightarrow> after_files (arrived L pid q (files_of view s)) (files_of view s')
     | Inl e \<Rightarrow> after_files (moving L pid q (files_of view s)) (files_of view s')"
proof -
  let ?v = "files_of view s"
  have s1: "files_of view s1 = ?v" using quietD [OF quiet_approve_prepare q] .
  have en: "entry_name (pr_source_name q)" by (rule approve_prepare_ok(5) [OF q])
  have eff: "effect (files_of view) ?v (approve_prepared L C S pid n q)
      (\<lambda>_. after_files (arrived L pid q ?v)) (after_files (moving L pid q ?v))"
    unfolding approve_prepared_def
  proof (rule effect_quiet [OF quiet_in_journal [OF quiet_journal(2)]], rule after_filesI, simp,
      rule effect_quiet [OF quiet_state(2)], rule after_filesI, simp, rule effect_then [where R = "\<lambda>_. arrived L pid q ?v"])
    fix e :: entry
    show "effect (files_of view) ?v (approve_move L S pid q (e_revision e)) (\<lambda>_. arrived L pid q ?v) (after_files (moving L pid q ?v))"
      by (rule effect_weaken [OF approve_move_effect [OF assms(1) en]]) (auto intro: after_filesI)
  next
    fix e2 :: entry and u assume a: "arrived L pid q ?v u"
    then have ma: "after_files (moving L pid q ?v) u" by (intro after_filesI arrived_moving)
    show "effect (files_of view) u (and_then (in_journal (transition L S pid (e_revision e2) SourceRemoved)) (\<lambda>e.
        and_then (in_journal (transition L S pid (e_revision e) Completed)) (\<lambda>e.
        conclude C S (pr_index q) (e_revision e) ''completed'')))
        (\<lambda>_. after_files (arrived L pid q ?v)) (after_files (moving L pid q ?v))"
    proof (rule effect_quiet [OF quiet_in_journal [OF quiet_journal(2)]], rule ma,
        rule effect_quiet [OF quiet_in_journal [OF quiet_journal(2)]], rule ma)
      fix e :: entry
      show "effect (files_of view) u (conclude C S (pr_index q) (e_revision e) ''completed'')
          (\<lambda>_. after_files (arrived L pid q ?v)) (after_files (moving L pid q ?v))"
        by (rule effect_weaken [OF effect_files_only [where P = "arrived L pid q ?v", OF files_only_conclude a]])
           (auto simp: after_files_def dest: arrived_moving)
    qed
  qed
  have run: "approve_prepared L C S pid n q s1 = (r, s')" using m approve_run [OF q] by simp
  show ?thesis using effectD [OF eff s1 run] .
qed

lemma approve_unprepared:
  assumes "approve_prepare L S pid n s = (Inl e, s1)"
  shows "approve L C S pid n s = (Inl e, s1)"
  using assms by (simp add: approve_def and_then_def)

end

end
