(* ===== verification/Move_Laws.thy ===== *)
theory Move_Laws
  imports Approve_Laws
begin

text \<open>
  What \<open>undo\<close> leaves of the files, and what \<open>approve\<close> and \<open>undo\<close> leave in the journal: the
  intent is recorded before the first change to a file, and stays.
\<close>

section \<open>Undo\<close>

lemma undo_prepare_ok:
  assumes "undo_prepare L S pid n s = (Inr q, s')"
  shows "un_index q < length (ps_proposals (sv_state s))"
    and "p_id (ps_proposals (sv_state s) ! un_index q) = pid"
    and "p_revision (ps_proposals (sv_state s) ! un_index q) = n"
    and "p_status (ps_proposals (sv_state s) ! un_index q) = ''completed''"
    and "un_expected q = proposal_identity (ps_proposals (sv_state s) ! un_index q)"
    and "\<exists>w. s' = s\<lparr>sv_world := w\<rparr>"
proof -
  from assms have "proposal_index (sv_state s) pid n = Inr (un_index q) \<and>
    p_status (ps_proposals (sv_state s) ! un_index q) = ''completed'' \<and>
    un_expected q = proposal_identity (ps_proposals (sv_state s) ! un_index q) \<and> (\<exists>w. s' = s\<lparr>sv_world := w\<rparr>)"
    unfolding undo_prepare_def Let_def
    by (auto simp: and_then_Inr state_of_def in_os_Inr)
  with proposal_index_ok [of "sv_state s" pid n "un_index q"]
  show "un_index q < length (ps_proposals (sv_state s))" "p_id (ps_proposals (sv_state s) ! un_index q) = pid"
    "p_revision (ps_proposals (sv_state s) ! un_index q) = n"
    "p_status (ps_proposals (sv_state s) ! un_index q) = ''completed''"
    "un_expected q = proposal_identity (ps_proposals (sv_state s) ! un_index q)"
    "\<exists>w. s' = s\<lparr>sv_world := w\<rparr>" by auto
qed

text \<open>The file goes back to the free name it came from.\<close>

definition returned :: "undo_plan \<Rightarrow> fsview \<Rightarrow> fsview \<Rightarrow> bool" where
  "returned q v u \<longleftrightarrow> (\<exists>name back. file_name (un_destination q) = Some name \<and> un_source_name q = Some back \<and>
     moved (un_folder_fd q) name (un_source_parent q) back (object_of (un_expected q)) v u)"

definition plain_plan :: "undo_plan \<Rightarrow> bool" where
  "plain_plan q \<longleftrightarrow> (\<forall>n. un_source_name q = Some n \<longrightarrow> entry_name n)"

lemma undo_prepare_plain: "undo_prepare L S pid n s = (Inr q, s') \<Longrightarrow> plain_plan q"
  unfolding undo_prepare_def Let_def plain_plan_def
  by (auto simp: and_then_Inr dest: file_name_entry_name)

context posix
begin

lemma undo_effect:
  assumes q: "undo_prepare L S pid n s = (Inr q, s1)" and m: "undo L C S pid n s = (r, s')"
  shows "case r of Inr p \<Rightarrow> after_files (returned q (files_of view s)) (files_of view s')
     | Inl e \<Rightarrow> after_files (\<lambda>u. u = files_of view s \<or> returned q (files_of view s) u) (files_of view s')"
proof -
  let ?v = "files_of view s"
  let ?P = "\<lambda>u. u = ?v \<or> returned q ?v u"
  have s1: "files_of view s1 = ?v" using quietD [OF quiet_undo_prepare q] .
  have eff: "effect (files_of view) ?v (undo_prepared L C S pid n q) (\<lambda>_. after_files (returned q ?v)) (after_files ?P)"
    unfolding undo_prepared_def
  proof (rule effect_quiet [OF quiet_in_journal [OF quiet_journal(2)]], rule after_filesI, simp,
      rule effect_quiet [OF quiet_pure(3)], rule after_filesI, simp,
      rule effect_quiet [OF quiet_pure(3)], rule after_filesI, simp, rule effect_then [where R = "\<lambda>_. returned q ?v"])
    fix a name a' b origin b'
    assume "(lift_res (ok_or SUnsafePath (file_name (un_destination q))) :: ('a service, service_error, string) io) a = (Inr name, a')"
      and "(lift_res (ok_or SUnsafePath (un_source_name q)) :: ('a service, service_error, string) io) b = (Inr origin, b')"
    then have nb: "file_name (un_destination q) = Some name" "un_source_name q = Some origin" by simp_all
    have en: "entry_name name" "entry_name origin"
      using file_name_entry_name nb undo_prepare_plain [OF q] by (auto simp: plain_plan_def)
    show "effect (files_of view) ?v (in_os SFs (same_filesystem_move_at S (un_folder_fd q) name (un_source_parent q) origin (un_expected q)))
        (\<lambda>_. returned q ?v) (after_files ?P)"
      by (rule effect_weaken [OF effect_in_os [OF move_at_effect [OF en]]])
         (use nb in \<open>auto simp: returned_def intro!: after_filesI\<close>)
  next
    fix u and e :: entry assume a: "returned q ?v u"
    then have P: "after_files ?P u" by (intro after_filesI) simp
    show "effect (files_of view) u (and_then (in_journal (transition L S pid (e_revision e) Undone)) (\<lambda>e.
        conclude C S (un_index q) (e_revision e) ''undone''))
        (\<lambda>_. after_files (returned q ?v)) (after_files ?P)"
    proof (rule effect_quiet [OF quiet_in_journal [OF quiet_journal(2)]], rule P)
      fix e :: entry
      show "effect (files_of view) u (conclude C S (un_index q) (e_revision e) ''undone'')
          (\<lambda>_. after_files (returned q ?v)) (after_files ?P)"
        by (rule effect_weaken [OF effect_files_only [where P = "returned q ?v", OF files_only_conclude a]])
           (auto simp: after_files_def)
    qed
  qed
  have run: "undo_prepared L C S pid n q s1 = (r, s')" using m undo_run [OF q] by simp
  show ?thesis using effectD [OF eff s1 run] .
qed

end

section \<open>The journal seen from the service\<close>

lemma in_journal_outcome:
  assumes "implements L spec m" and "rows_ok L (sv_rows s)" and "in_journal m s = (r, s')"
  shows "\<exists>q. r = map_res_err SJournal q \<and> rows_ok L (sv_rows s') \<and> sv_state s' = sv_state s \<and>
    (case spec (entries_in L s) of
        Inl e \<Rightarrow> entries_in L s' = entries_in L s \<and> (q = Inl e \<or> (\<exists>d. q = Inl (Database d)))
      | Inr (x, B) \<Rightarrow> (q = Inr x \<and> entries_in L s' = B) \<or>
          (\<exists>d. q = Inl (Database d)) \<and> (entries_in L s' = entries_in L s \<or> entries_in L s' = B))"
proof -
  from in_journal_run [OF assms(3)] obtain q j where m: "m (journal_of s) = (q, j)"
    and r: "r = map_res_err SJournal q" and s': "s' = s\<lparr>sv_rows := j_rows j, sv_world := j_world j\<rparr>" by blast
  from implementsD [OF assms(1) _ m] assms(2) have "outcome L (spec (entries_in L s)) (journal_of s) q j"
    by (simp add: entries_in_def)
  then show ?thesis unfolding outcome_def r s' by (intro exI [of _ q]) (simp add: entries_in_def journal_of_def cong: sum.case_cong)
qed

text \<open>
  The entry of \<open>pid\<close>, where the journal still has it, is in a state of \<open>Y\<close>: the states an approval
  takes it through, or those of an undo.
\<close>

definition recorded :: "libs \<Rightarrow> jstate set \<Rightarrow> uuid \<Rightarrow> 'w service \<Rightarrow> bool" where
  "recorded L Y pid s \<longleftrightarrow> rows_ok L (sv_rows s) \<and> (\<forall>e. entries_in L s pid = Some e \<longrightarrow> e_state e \<in> Y)"

text \<open>A transition to \<open>t\<close> does not leave the states \<open>Y\<close>.\<close>

definition admits :: "jstate set \<Rightarrow> jstate \<Rightarrow> bool" where
  "admits Y t \<longleftrightarrow> (\<forall>s \<in> Y. allowed s t \<longrightarrow> t \<in> Y)"

definition approve_states :: "jstate set" where
  "approve_states = {Approved, Copying, Published, SourceRemoved, Completed}"

definition undo_states :: "jstate set" where
  "undo_states = {Undoing, Undone}"

lemma admits_self: "t \<in> Y \<Longrightarrow> admits Y t"
  by (simp add: admits_def)

lemma own_states:
  "Approved \<in> approve_states" "Copying \<in> approve_states" "Published \<in> approve_states"
  "SourceRemoved \<in> approve_states" "Completed \<in> approve_states" "Undoing \<in> undo_states" "Undone \<in> undo_states"
  by (simp_all add: approve_states_def undo_states_def)

lemma admits_flagged: "admits (insert NeedsAttention Y) NeedsAttention"
  by (simp add: admits_def)

lemma admits_completed: "admits (insert NeedsAttention approve_states) Completed" "admits (insert NeedsAttention undo_states) Completed"
  by (simp_all add: admits_def approve_states_def undo_states_def allowed_def)

lemma spec_transition_Inr:
  "spec_transition u n t A = Inr (x, B) \<Longrightarrow> \<exists>e. A u = Some e \<and> e_revision e = n \<and> allowed (e_state e) t \<and>
     uint n + 1 < 2 ^ 63 \<and> x = e\<lparr>e_state := t, e_revision := n + 1\<rparr> \<and> B = A(e_id e \<mapsto> x)"
  by (auto simp: spec_transition_def advance_def split: option.splits if_splits)

lemma entries_in_id: "entries_in L s u = Some e \<Longrightarrow> e_id e = u"
  unfolding entries_in_def by (rule entries_of_id)

context libs_ok
begin

lemma transition_ok:
  assumes "rows_ok L (sv_rows s)" and "in_journal (transition L S u n t) s = (Inr x, s')"
  shows "rows_ok L (sv_rows s')" and "sv_state s' = sv_state s"
    and "\<exists>e. entries_in L s u = Some e \<and> e_revision e = n \<and> allowed (e_state e) t \<and>
      x = e\<lparr>e_state := t, e_revision := n + 1\<rparr> \<and> uint n + 1 < 2 ^ 63"
    and "entries_in L s' = (entries_in L s)(u \<mapsto> x)"
proof -
  have "\<exists>B. spec_transition u n t (entries_in L s) = Inr (x, B) \<and> entries_in L s' = B \<and>
      rows_ok L (sv_rows s') \<and> sv_state s' = sv_state s"
    using in_journal_outcome [OF transition_implements assms]
    by (cases "spec_transition u n t (entries_in L s)") auto
  then obtain B where
    sp: "spec_transition u n t (entries_in L s) = Inr (x, B)" and B: "entries_in L s' = B"
    and ok: "rows_ok L (sv_rows s')" "sv_state s' = sv_state s"
    by blast
  from spec_transition_Inr [OF sp] entries_in_id show
    "\<exists>e. entries_in L s u = Some e \<and> e_revision e = n \<and> allowed (e_state e) t \<and>
      x = e\<lparr>e_state := t, e_revision := n + 1\<rparr> \<and> uint n + 1 < 2 ^ 63"
    "entries_in L s' = (entries_in L s)(u \<mapsto> x)" unfolding B by fastforce+
  show "rows_ok L (sv_rows s')" "sv_state s' = sv_state s" by (fact ok)+
qed

lemma transition_err:
  assumes "rows_ok L (sv_rows s)" and "in_journal (transition L S u n t) s = (Inl y, s')"
  shows "rows_ok L (sv_rows s')" and "sv_state s' = sv_state s"
    and "entries_in L s' = entries_in L s \<or> (\<exists>e. entries_in L s u = Some e \<and> allowed (e_state e) t \<and>
      entries_in L s' = (entries_in L s)(u \<mapsto> e\<lparr>e_state := t, e_revision := n + 1\<rparr>))"
proof -
  from in_journal_outcome [OF transition_implements assms] show
    "rows_ok L (sv_rows s')" "sv_state s' = sv_state s" by auto
  from in_journal_outcome [OF transition_implements assms]
  have "entries_in L s' = entries_in L s \<or> (\<exists>x B. spec_transition u n t (entries_in L s) = Inr (x, B) \<and> entries_in L s' = B)"
    by (cases "spec_transition u n t (entries_in L s)") auto
  then show "entries_in L s' = entries_in L s \<or> (\<exists>e. entries_in L s u = Some e \<and> allowed (e_state e) t \<and>
      entries_in L s' = (entries_in L s)(u \<mapsto> e\<lparr>e_state := t, e_revision := n + 1\<rparr>))"
    using spec_transition_Inr entries_in_id by fastforce
qed

lemma keeps_recorded_transition:
  assumes "admits Y t"
  shows "keeps (recorded L Y pid) (in_journal (transition L S u n t))"
proof (rule keepsI)
  fix s r s' assume i: "recorded L Y pid s" and m: "in_journal (transition L S u n t) s = (r, s')"
  then have ok: "rows_ok L (sv_rows s)" by (simp add: recorded_def)
  show "recorded L Y pid s'"
  proof (cases r)
    case (Inl y)
    note f = transition_err [OF ok m [unfolded Inl]]
    from f(3) i f(1) assms show ?thesis by (auto simp: recorded_def admits_def split: if_splits)
  next
    case (Inr x)
    note f = transition_ok [OF ok m [unfolded Inr]]
    from f(3,4) i f(1) assms show ?thesis by (auto simp: recorded_def admits_def split: if_splits)
  qed
qed

lemma keeps_recorded_digest: "keeps (recorded L Y pid) (in_journal (set_sha256 L S u h))"
proof (rule keepsI)
  fix s r s' assume i: "recorded L Y pid s" and m: "in_journal (set_sha256 L S u h) s = (r, s')"
  then have ok: "rows_ok L (sv_rows s)" by (simp add: recorded_def)
  from in_journal_outcome [OF set_sha256_implements ok m] i show "recorded L Y pid s'"
    by (auto simp: recorded_def spec_set_sha256_def split: if_splits option.splits sum.splits)
qed

lemma retention_entries:
  assumes ok: "rows_ok L (sv_rows s)" and m: "in_journal (enforce_retention S k age lim) s = (r, s')"
  shows "rows_ok L (sv_rows s')" and "sv_state s' = sv_state s"
    and "entries_in L s' u = entries_in L s u \<or>
      entries_in L s' u = None \<and> (\<exists>e. entries_in L s u = Some e \<and> terminal (e_state e))"
    and "nonterminal_rows (sv_rows s') = nonterminal_rows (sv_rows s)"
proof -
  from in_journal_run [OF m] obtain q j where e: "enforce_retention S k age lim (journal_of s) = (q, j)"
    and s': "s' = s\<lparr>sv_rows := j_rows j, sv_world := j_world j\<rparr>" by blast
  have t: "trimmed (sv_rows s) (j_rows j)" using retention_trimmed [OF _ e] ok by simp
  show "rows_ok L (sv_rows s')" using trimmed_rows_ok [OF t ok] by (simp add: s')
  show "sv_state s' = sv_state s" by (simp add: s')
  show "nonterminal_rows (sv_rows s') = nonterminal_rows (sv_rows s)" using trimmed_nonterminal [OF t] by (simp add: s')
  have "entries_of L (j_rows j) u = entries_of L (sv_rows s) u \<or>
    entries_of L (j_rows j) u = None \<and> (\<exists>e. entries_of L (sv_rows s) u = Some e \<and> terminal (e_state e))"
    using trimmed_entries [OF ok t] .
  then show "entries_in L s' u = entries_in L s u \<or>
      entries_in L s' u = None \<and> (\<exists>e. entries_in L s u = Some e \<and> terminal (e_state e))"
    by (simp add: entries_in_def s')
qed

lemma keeps_recorded_retention: "keeps (recorded L Y pid) (enforce_journal_retention S)"
proof -
  have "keeps (recorded L Y pid) (in_journal (enforce_retention S k age lim))" for k age lim
  proof (rule keepsI)
    fix s r s' assume i: "recorded L Y pid s" and m: "in_journal (enforce_retention S k age lim) s = (r, s')"
    then have ok: "rows_ok L (sv_rows s)" by (simp add: recorded_def)
    from retention_entries(3) [OF ok m, of pid] retention_entries(1) [OF ok m] i show "recorded L Y pid s'"
      by (auto simp: recorded_def)
  qed
  then show ?thesis unfolding enforce_journal_retention_def by (intro keeps_and_then keeps_pure)
qed

lemma keeps_recorded_rest:
  "keeps (recorded L Y pid) (in_os f m)" "keeps (recorded L Y pid) (set_state g)" "keeps (recorded L Y pid) (state_of h)"
  by (auto intro!: keepsI keeps_modify simp: recorded_def entries_in_def set_state_def state_of_def dest!: in_os_run)

lemmas keeps_recorded = keeps_recorded_transition keeps_recorded_digest keeps_recorded_retention keeps_recorded_rest

lemma keeps_recorded_conclude: "keeps (recorded L Y pid) (conclude C S i n t)"
  unfolding conclude_def save_def by (intro keeps_and_then keeps_pure keeps_recorded)

lemma keeps_recorded_move: "Published \<in> Y \<Longrightarrow> Copying \<in> Y \<Longrightarrow> keeps (recorded L Y pid) (approve_move L S u q n)"
  unfolding approve_move_def approve_rename_def approve_copy_def
  by (intro keeps_and_then keeps_pure keeps_recorded) (auto intro!: keeps_and_then keeps_pure keeps_recorded admits_self)

end

section \<open>Intent before effect\<close>

text \<open>The first transition either leaves the files as they are or has recorded the intent.\<close>

lemma recorded_first:
  assumes "libs_ok L" and q: "quiet (files_of view) (in_journal (transition L S pid n t))"
    and k: "\<And>e. keeps (recorded L Y pid) (k e)" and t: "t \<in> Y" and ok: "rows_ok L (sv_rows s)"
    and m: "and_then (in_journal (transition L S pid n t)) k s = (r, s')"
  shows "files_of view s' = files_of view s \<or>
    (\<exists>e. entries_in L s pid = Some e \<and> e_revision e = n \<and> allowed (e_state e) t) \<and> recorded L Y pid s'"
proof -
  obtain x s1 where x: "in_journal (transition L S pid n t) s = (x, s1)" by fastforce
  show ?thesis
  proof (cases x)
    case (Inl y)
    with m x have "s' = s1" by (simp add: and_then_def)
    then show ?thesis using quietD [OF q x] by simp
  next
    case (Inr e)
    note f = libs_ok.transition_ok [OF assms(1) ok x [unfolded Inr]]
    have "recorded L Y pid s1" using f(1,3,4) t by (auto simp: recorded_def)
    moreover have "k e s1 = (r, s')" using m x Inr by (simp add: and_then_def)
    ultimately show ?thesis using keepsD [OF k] f(3) by blast
  qed
qed

context posix
begin

lemma approve_recorded:
  assumes "libs_ok L" and ok: "rows_ok L (sv_rows s)" and m: "approve L C S pid n s = (r, s')"
  shows "files_of view s' = files_of view s \<or>
    (\<exists>e. entries_in L s pid = Some e \<and> e_revision e = n \<and> allowed (e_state e) Approved) \<and> recorded L approve_states pid s'"
proof (cases "approve_prepare L S pid n s")
  case (Pair x s1)
  show ?thesis
  proof (cases x)
    case (Inl e)
    with Pair m have "s' = s1" by (simp add: approve_unprepared)
    then show ?thesis using quietD [OF quiet_approve_prepare Pair] by simp
  next
    case (Inr q)
    have s1: "files_of view s1 = files_of view s" "sv_rows s1 = sv_rows s"
      using quietD [OF quiet_approve_prepare Pair] approve_prepare_ok(6) [OF Pair [unfolded Inr]] by auto
    have run: "approve_prepared L C S pid n q s1 = (r, s')" using m approve_run [OF Pair [unfolded Inr]] by simp
    note kr = libs_ok.keeps_recorded [OF assms(1)] libs_ok.keeps_recorded_conclude [OF assms(1)]
      libs_ok.keeps_recorded_move [OF assms(1)] admits_self own_states
    have "files_of view s' = files_of view s1 \<or>
      (\<exists>e. entries_in L s1 pid = Some e \<and> e_revision e = n \<and> allowed (e_state e) Approved) \<and> recorded L approve_states pid s'"
      by (rule recorded_first [OF assms(1) quiet_in_journal [OF quiet_journal(2)] _ _ _ run [unfolded approve_prepared_def]])
         (intro keeps_and_then kr | simp add: s1 ok)+
    with s1 show ?thesis by (simp add: entries_in_def)
  qed
qed

lemma undo_unprepared: "undo_prepare L S pid n s = (Inl e, s1) \<Longrightarrow> undo L C S pid n s = (Inl e, s1)"
  by (simp add: undo_def and_then_def)

lemma undo_recorded:
  assumes "libs_ok L" and ok: "rows_ok L (sv_rows s)" and m: "undo L C S pid n s = (r, s')"
  shows "files_of view s' = files_of view s \<or>
    (\<exists>e. entries_in L s pid = Some e \<and> e_revision e = n \<and> allowed (e_state e) Undoing) \<and> recorded L undo_states pid s'"
proof (cases "undo_prepare L S pid n s")
  case (Pair x s1)
  show ?thesis
  proof (cases x)
    case (Inl e)
    with Pair m have "s' = s1" by (simp add: undo_unprepared)
    then show ?thesis using quietD [OF quiet_undo_prepare Pair] by simp
  next
    case (Inr q)
    have s1: "files_of view s1 = files_of view s" "sv_rows s1 = sv_rows s"
      using quietD [OF quiet_undo_prepare Pair] undo_prepare_ok(6) [OF Pair [unfolded Inr]] by auto
    have run: "undo_prepared L C S pid n q s1 = (r, s')" using m undo_run [OF Pair [unfolded Inr]] by simp
    note kr = libs_ok.keeps_recorded [OF assms(1)] libs_ok.keeps_recorded_conclude [OF assms(1)] keeps_pure admits_self own_states
    have "files_of view s' = files_of view s1 \<or>
      (\<exists>e. entries_in L s1 pid = Some e \<and> e_revision e = n \<and> allowed (e_state e) Undoing) \<and> recorded L undo_states pid s'"
      by (rule recorded_first [OF assms(1) quiet_in_journal [OF quiet_journal(2)] _ _ _ run [unfolded undo_prepared_def]])
         (intro keeps_and_then kr | simp add: s1 ok)+
    with s1 show ?thesis by (simp add: entries_in_def)
  qed
qed

end

end
