(* ===== verification/Service_Review.thy ===== *)
theory Service_Review
  imports Service_Move
begin

text \<open>
  The remaining requests of the review service: pausing, the agent's settings, the roots, and
  the changes to a proposal that move no file: choosing a destination, renaming, ignoring, and
  turning a proposal into a rule.
\<close>

section \<open>Settings\<close>

definition set_paused :: "codec \<Rightarrow> 'w os \<Rightarrow> bool \<Rightarrow> ('w service, service_error, unit) io" where
  "set_paused C S paused =
    and_then (set_state (\<lambda>st. st\<lparr>ps_paused := paused\<rparr>)) (\<lambda>_. save C S)"

definition configure_metadata_agent ::
  "codec \<Rightarrow> 'w os \<Rightarrow> string \<Rightarrow> string list \<Rightarrow> ('w service, service_error, agent_settings) io" where
  "configure_metadata_agent C S executable fixed_args =
    and_then (fail_if (executable = [] \<or> length executable > 4096 \<or> length fixed_args > 16
        \<or> list_ex (\<lambda>a. length a > 1024) fixed_args) SLimit) (\<lambda>_.
    and_then (set_state (\<lambda>st. st\<lparr>ps_agent := \<lparr>ag_enabled = True, ag_executable = Some executable,
        ag_fixed_args = fixed_args, ag_metadata_only = True\<rparr>\<rparr>)) (\<lambda>_.
    and_then (save C S) (\<lambda>_. state_of ps_agent)))"

definition disable_agent :: "codec \<Rightarrow> 'w os \<Rightarrow> ('w service, service_error, agent_settings) io" where
  "disable_agent C S =
    and_then (set_state (\<lambda>st. st\<lparr>ps_agent := (ps_agent st)\<lparr>ag_enabled := False\<rparr>\<rparr>)) (\<lambda>_.
    and_then (save C S) (\<lambda>_. state_of ps_agent))"

section \<open>Roots\<close>

definition add_root :: "codec \<Rightarrow> 'w os \<Rightarrow> string \<Rightarrow> bool \<Rightarrow> bool \<Rightarrow> ('w service, service_error, root) io" where
  "add_root C S path watched destination =
    and_then (state_of ps_roots) (\<lambda>roots.
    and_then (fail_if (length roots \<ge> MAX_ROOTS \<or> \<not> watched \<and> \<not> destination) SLimit) (\<lambda>_.
    and_then (check_folder S path) (\<lambda>_.
    and_then (in_os SIo (os_canonicalize S path)) (\<lambda>canonical.
    and_then (lift_res (ok_or SUnsafePath (to_str canonical))) (\<lambda>display.
    and_then (fail_if (list_ex (\<lambda>r. rt_path r = display) roots) SCollision) (\<lambda>_.
    and_then (in_os SFs (open_root S canonical)) (\<lambda>_.
    and_then (in_os SIo (total (os_new_uuid S))) (\<lambda>rid.
    let root = \<lparr>rt_id = rid, rt_path = display, rt_watched = watched, rt_destination = destination\<rparr> in
    and_then (set_state (\<lambda>st. st\<lparr>ps_roots := ps_roots st @ [root]\<rparr>)) (\<lambda>_.
    and_then (save C S) (\<lambda>_.
    ok root))))))))))"

definition remove_root :: "codec \<Rightarrow> 'w os \<Rightarrow> uuid \<Rightarrow> ('w service, service_error, unit) io" where
  "remove_root C S rid =
    and_then (state_of (\<lambda>x. x)) (\<lambda>st.
    and_then (fail_if (list_ex (\<lambda>p. p_source_root_id p = rid \<and> p_status p = ''proposed'') (ps_proposals st))
        SCollision) (\<lambda>_.
    and_then (set_state (\<lambda>st. st\<lparr>ps_roots := filter (\<lambda>r. rt_id r \<noteq> rid) (ps_roots st)\<rparr>)) (\<lambda>_.
    and_then (state_of ps_roots) (\<lambda>after.
    and_then (fail_if (length after = length (ps_roots st)) SNotFound) (\<lambda>_.
    save C S)))))"

section \<open>Destinations and names\<close>

definition choose_destination ::
  "libs \<Rightarrow> codec \<Rightarrow> 'w os \<Rightarrow> uuid \<Rightarrow> u64 \<Rightarrow> uuid \<Rightarrow> string \<Rightarrow> ('w service, service_error, proposal) io" where
  "choose_destination L C S pid revision rid folder_name =
    and_then (lift_res (map_res_err (\<lambda>_. SUnsafePath) (validate_relative_directory folder_name))) (\<lambda>_.
    and_then (state_of (\<lambda>x. x)) (\<lambda>st.
    and_then (lift_res (find_root (\<lambda>r. rt_id r = rid \<and> rt_destination r) st)) (\<lambda>root.
    let folder = path_join (rt_path root) folder_name in
    and_then (check_folder S folder) (\<lambda>_.
    and_then (lift_res (proposal_index st pid revision)) (\<lambda>index.
    and_then (lift_res (decode_relative L (p_source_relative (ps_proposals st ! index)))) (\<lambda>relative.
    and_then (lift_res (ok_or SUnsafePath (file_name relative))) (\<lambda>source_name.
    let destination = path_join folder source_name in
    and_then (lift_res (source_path L st index)) (\<lambda>source.
    and_then (try_result (in_os id (move_warning S source destination))) (\<lambda>warning.
    and_then (in_journal (revise_proposal L S pid revision destination)) (\<lambda>e.
    and_then (set_state (update_proposal index (\<lambda>p. p\<lparr>p_revision := e_revision e,
        p_destination := Some \<lparr>ch_root_id = rid, ch_directory = folder_name\<rparr>,
        p_destination_name := map_option to_string_lossy (file_name destination),
        p_destination_display := Some (display_path destination),
        p_warning := res_ok warning\<rparr>))) (\<lambda>_.
    and_then (state_of (\<lambda>st. ps_proposals st ! index)) (\<lambda>result.
    and_then (save C S) (\<lambda>_.
    ok result)))))))))))))"

definition longest_root :: "string \<Rightarrow> persistent \<Rightarrow> root option" where
  "longest_root canonical st =
    (case sort_key (\<lambda>r. - int (length (rt_path r)))
        (filter (\<lambda>r. rt_destination r \<and> path_starts_with canonical (rt_path r)) (ps_roots st)) of
       [] \<Rightarrow> None | r # _ \<Rightarrow> Some r)"

definition choose_destination_path ::
  "libs \<Rightarrow> codec \<Rightarrow> 'w os \<Rightarrow> uuid \<Rightarrow> u64 \<Rightarrow> string \<Rightarrow> ('w service, service_error, proposal) io" where
  "choose_destination_path L C S pid revision folder =
    and_then (check_folder S folder) (\<lambda>_.
    and_then (in_os SIo (os_canonicalize S folder)) (\<lambda>canonical.
    and_then (state_of (longest_root canonical)) (\<lambda>found.
    and_then (case found of Some r \<Rightarrow> ok r | None \<Rightarrow> add_root C S canonical False True) (\<lambda>root.
    and_then (lift_res (ok_or SUnsafePath (strip_prefix canonical (rt_path root)))) (\<lambda>relative.
    and_then (lift_res (if relative = [] then Inr ''.'' else ok_or SUnsafePath (to_str relative))) (\<lambda>folder_name.
    choose_destination L C S pid revision (rt_id root) folder_name))))))"

definition rename_proposal ::
  "libs \<Rightarrow> codec \<Rightarrow> 'w os \<Rightarrow> uuid \<Rightarrow> u64 \<Rightarrow> string \<Rightarrow> ('w service, service_error, proposal) io" where
  "rename_proposal L C S pid revision name =
    and_then (fail_if (length name > 255 \<or> length (components name) \<noteq> 1
        \<or> \<not> (case components name of c # _ \<Rightarrow> is_normal c | [] \<Rightarrow> False)) SUnsafePath) (\<lambda>_.
    and_then (state_of (\<lambda>x. x)) (\<lambda>st.
    and_then (lift_res (proposal_index st pid revision)) (\<lambda>index.
    and_then (lift_res (ok_or DestinationRequired (p_destination (ps_proposals st ! index)))) (\<lambda>c.
    and_then (lift_res (find_root (\<lambda>r. rt_id r = ch_root_id c \<and> rt_destination r) st)) (\<lambda>root.
    let destination = path_join (path_join (rt_path root) (ch_directory c)) name in
    and_then (in_journal (revise_proposal L S pid revision destination)) (\<lambda>e.
    and_then (set_state (update_proposal index (\<lambda>p. p\<lparr>p_revision := e_revision e,
        p_destination_name := Some name, p_destination_display := Some (display_path destination)\<rparr>))) (\<lambda>_.
    and_then (state_of (\<lambda>st. ps_proposals st ! index)) (\<lambda>result.
    and_then (save C S) (\<lambda>_.
    ok result)))))))))"

definition ignore :: "libs \<Rightarrow> codec \<Rightarrow> 'w os \<Rightarrow> uuid \<Rightarrow> u64 \<Rightarrow> ('w service, service_error, proposal) io" where
  "ignore L C S pid revision =
    and_then (state_of (\<lambda>x. x)) (\<lambda>st.
    and_then (lift_res (proposal_index st pid revision)) (\<lambda>index.
    and_then (in_journal (transition L S pid revision Ignored)) (\<lambda>e.
    conclude C S index (e_revision e) ''ignored'')))"

definition create_rule_from_proposal ::
  "libs \<Rightarrow> codec \<Rightarrow> 'w os \<Rightarrow> uuid \<Rightarrow> int \<Rightarrow> ('w service, service_error, rule) io" where
  "create_rule_from_proposal L C S pid prio =
    and_then (state_of (\<lambda>x. x)) (\<lambda>st.
    and_then (fail_if (length (ps_rules st) \<ge> MAX_RULES) SLimit) (\<lambda>_.
    and_then (lift_res (show_proposal st pid)) (\<lambda>p.
    and_then (lift_res (ok_or DestinationRequired (p_destination p))) (\<lambda>c.
    and_then (lift_res (decode_relative L (p_source_relative p))) (\<lambda>source.
    and_then (lift_res (ok_or SUnsafePath (case path_extension source of None \<Rightarrow> None | Some e \<Rightarrow> to_str e))) (\<lambda>ext.
    and_then (in_os SIo (total (os_new_uuid S))) (\<lambda>rid.
    let r = \<lparr>rule_id = rid, priority = prio, predicates = [Extension (to_ascii_lowercase ext)],
          destination_root_id = ch_root_id c, destination_directory = ch_directory c\<rparr> in
    and_then (lift_res (map_res_err (\<lambda>_. MalformedState)
        (evaluate_rules (lib_glob L) [r] (facts_for source (p_source_root_id p) True)))) (\<lambda>_.
    and_then (set_state (\<lambda>st. st\<lparr>ps_rules := ps_rules st @ [r]\<rparr>)) (\<lambda>_.
    and_then (save C S) (\<lambda>_.
    ok r))))))))))"

end
