(* ===== verification/Service_Queue.thy ===== *)
theory Service_Queue
  imports Service_State
begin

text \<open>
  \<open>Service::scan_once\<close>: the bounded walk of the watched roots and \<open>consider\<close>, which turns a
  stable, unknown file into a proposal by the rules or, when they abstain or tie and it is
  enabled, by the agent.
\<close>

section \<open>The bounded walk\<close>

text \<open>One directory: its entries in order, pushing folders and collecting files.\<close>

fun walk_dir :: "string \<Rightarrow> nat \<Rightarrow> (errno + string \<times> (errno + ftype)) list \<Rightarrow> (string \<times> nat) list \<Rightarrow> string list
    \<Rightarrow> service_error + (string \<times> nat) list \<times> string list" where
  "walk_dir relative depth [] pending result = Inr (pending, result)"
| "walk_dir relative depth (Inl e # es) pending result = Inl (SIo e)"
| "walk_dir relative depth (Inr (n, Inl e) # es) pending result = Inl (SIo e)"
| "walk_dir relative depth (Inr (n, Inr t) # es) pending result =
    (case t of
       FSymlink \<Rightarrow> walk_dir relative depth es pending result
     | FDirectory \<Rightarrow> walk_dir relative depth es ((path_join relative n, depth + 1) # pending) result
     | FRegular \<Rightarrow> if length result \<ge> MAX_WALK_FILES then Inl SLimit
         else walk_dir relative depth es pending (result @ [path_join relative n])
     | FOther \<Rightarrow> walk_dir relative depth es pending result)"

text \<open>The work list, its top at the head; it ends because the number of folders visited is bounded.\<close>

function walk :: "'w os \<Rightarrow> string \<Rightarrow> (string \<times> nat) list \<Rightarrow> nat \<Rightarrow> string list \<Rightarrow> ('w, service_error, string list) io" where
  "walk S root [] directories result w = ok result w"
| "walk S root ((relative, depth) # pending) directories result w =
    (if directories + 1 > MAX_WALK_DIRECTORIES \<or> depth > MAX_WALK_DEPTH then err SLimit w
     else and_then (map_err SIo (os_read_dir S (path_join root relative))) (\<lambda>entries.
       and_then (lift_res (walk_dir relative depth entries pending result)) (\<lambda>r.
       walk S root (fst r) (directories + 1) (snd r))) w)"
  by pat_completeness auto
termination
  by (relation "measure (\<lambda>(S, root, pending, directories, result, w). MAX_WALK_DIRECTORIES - directories)") auto

definition bounded_files :: "'w os \<Rightarrow> string \<Rightarrow> ('w, service_error, string list) io" where
  "bounded_files S root = walk S root [([], 0)] 0 []"

section \<open>The agent or the fallback\<close>

type_synonym suggestion = "choice option \<times> string \<times> string \<times> string option"

definition agent_request_for :: "persistent \<Rightarrow> file_facts \<Rightarrow> u64 \<Rightarrow> uuid \<Rightarrow> agent_request" where
  "agent_request_for st facts len correlation =
    \<lparr>aq_schema_version = 1, aq_correlation_id = correlation,
     aq_filename_extension = extension facts, aq_verified_mime = verified_mime facts,
     aq_size_bucket = size_bucket len, aq_source_root_id = source_root_id facts,
     aq_allowed_destination_ids = map rt_id (filter rt_destination (ps_roots st))\<rparr>"

fun suggestion_of :: "agent_error + agent_response \<Rightarrow> string \<Rightarrow> string \<Rightarrow> suggestion" where
  "suggestion_of (Inr a) reason fallback =
    (case ar_destination_id a of
       Some rid \<Rightarrow> (Some \<lparr>ch_root_id = rid, ch_directory = ''.''\<rparr>, ar_reason a, ''agent_metadata'',
         Some ''Agent result is a proposal and still requires approval'')
     | None \<Rightarrow> (None, ar_reason a, ''agent_abstain'', Some ''Agent abstained; choose a destination''))"
| "suggestion_of (Inl e) reason fallback =
    (None, reason, fallback, Some ''Agent unavailable or invalid; choose a destination'')"

definition agent_or_fallback ::
  "codec \<Rightarrow> 'w os \<Rightarrow> file_facts \<Rightarrow> u64 \<Rightarrow> string \<Rightarrow> string \<Rightarrow> ('w service, service_error, suggestion) io" where
  "agent_or_fallback C S facts len reason fallback =
    and_then (state_of (\<lambda>x. x)) (\<lambda>st.
    if \<not> ag_enabled (ps_agent st) then
      ok (None, reason, fallback, Some ''No deterministic decision; metadata agent is disabled'')
    else (case ag_executable (ps_agent st) of
      None \<Rightarrow> ok (None, reason, fallback, Some ''Agent is enabled but unavailable; choose a destination'')
    | Some executable \<Rightarrow>
        if filter rt_destination (ps_roots st) = [] then
          ok (None, reason, fallback, Some ''Agent has no registered destination to select'')
        else and_then (in_os SIo (total (os_new_uuid S))) (\<lambda>correlation.
          and_then (in_os SIo (try_result (classify (agent_json.truncate C) S
              (local_adapter executable (ag_fixed_args (ps_agent st)))
              (agent_request_for st facts len correlation)))) (\<lambda>r.
          ok (suggestion_of r reason fallback)))))"

section \<open>Considering one file\<close>

definition known_source :: "persistent \<Rightarrow> uuid \<Rightarrow> string \<Rightarrow> bool" where
  "known_source st rid encoded = list_ex (\<lambda>p. p_source_root_id p = rid \<and> p_source_relative p = encoded
     \<and> p_status p = ''proposed'') (ps_proposals st)"

definition known_identity :: "persistent \<Rightarrow> identity \<Rightarrow> bool" where
  "known_identity st i = list_ex (\<lambda>p. p_device p = id_device i \<and> p_inode p = id_inode i
     \<and> p_size p = id_size i \<and> p_modified_ns p = id_modified_ns i) (ps_proposals st)"

definition sample_file :: "'w os \<Rightarrow> string \<Rightarrow> string \<Rightarrow> ('w service, service_error, bool) io" where
  "sample_file S key path =
    and_then (gets (\<lambda>s. sv_stability s key)) (\<lambda>t.
    and_then (in_os SFs (stability_sample S t path 1000000000)) (\<lambda>r.
    and_then (modify (\<lambda>s. s\<lparr>sv_stability := (sv_stability s)(key := snd r)\<rparr>)) (\<lambda>_.
    ok (fst r))))"

definition suggest :: "libs \<Rightarrow> codec \<Rightarrow> 'w os \<Rightarrow> file_facts \<Rightarrow> u64 \<Rightarrow> ('w service, service_error, suggestion) io" where
  "suggest L C S facts len =
    and_then (state_of ps_rules) (\<lambda>rules.
    and_then (lift_res (map_res_err (\<lambda>_. MalformedState) (evaluate_rules (lib_glob L) rules facts))) (\<lambda>d.
    case d of
      Decided dest ids reason \<Rightarrow>
        ok (Some \<lparr>ch_root_id = root_id dest, ch_directory = directory dest\<rparr>, reason,
          ''rule:'' @ lib_uuid_text L (hd ids), None)
    | Tie _ _ reason \<Rightarrow> agent_or_fallback C S facts len reason ''deterministic_tie''
    | Abstain reason \<Rightarrow> agent_or_fallback C S facts len reason ''deterministic_abstain''))"

definition new_proposal ::
  "libs \<Rightarrow> persistent \<Rightarrow> root \<Rightarrow> string \<Rightarrow> identity \<Rightarrow> suggestion \<Rightarrow> string option \<Rightarrow> uuid \<Rightarrow> proposal" where
  "new_proposal L st root relative i sg warning pid =
    \<lparr>p_id = pid, p_revision = 1, p_source_root_id = rt_id root,
     p_source_relative = encode_relative L relative,
     p_source_display = display_path (path_join (rt_path root) relative),
     p_destination = fst sg,
     p_destination_name = map_option to_string_lossy (file_name relative),
     p_destination_display = (case fst sg of None \<Rightarrow> None | Some c \<Rightarrow> destination_display st c relative),
     p_reason = fst (snd sg), p_provenance = fst (snd (snd sg)), p_warning = warning,
     p_status = ''proposed'', p_size = id_size i, p_device = id_device i, p_inode = id_inode i,
     p_modified_ns = id_modified_ns i\<rparr>"

definition proposed_path :: "persistent \<Rightarrow> choice option \<Rightarrow> string \<Rightarrow> string option" where
  "proposed_path st c relative = (case c of None \<Rightarrow> None | Some c \<Rightarrow> destination_path_for st c relative)"

definition consider_file :: "libs \<Rightarrow> codec \<Rightarrow> 'w os \<Rightarrow> root \<Rightarrow> string \<Rightarrow> ('w service, service_error, bool) io" where
  "consider_file L C S root relative =
    (if is_partial relative then ok False
     else and_then (state_of (\<lambda>x. x)) (\<lambda>st.
       let encoded = encode_relative L relative; absolute = path_join (rt_path root) relative in
       if known_source st (rt_id root) encoded then ok False
       else and_then (sample_file S (lib_uuid_text L (rt_id root) @ '':'' @ encoded) absolute) (\<lambda>stable.
       if \<not> stable then ok False
       else and_then (in_os SFs (identity_read S absolute)) (\<lambda>i.
       if known_identity st i then ok False
       else and_then (in_os SIo (sniff_mime S absolute)) (\<lambda>mime.
       and_then (suggest L C S ((facts_for relative (rt_id root) True)\<lparr>verified_mime := mime\<rparr>) (id_size i)) (\<lambda>sg.
       and_then (case proposed_path st (fst sg) relative of
           None \<Rightarrow> ok (snd (snd (snd sg)))
         | Some dst \<Rightarrow> and_then (try_result (in_os id (move_warning S absolute dst))) (\<lambda>r. ok (res_ok r))) (\<lambda>warning.
       and_then (in_os SIo (total (os_new_uuid S))) (\<lambda>pid.
       and_then (in_journal (create L S \<lparr>e_id = pid, e_revision = 1, e_state = Proposed,
           e_source_token = absolute,
           e_destination_token = (case proposed_path st (fst sg) relative of None \<Rightarrow> [] | Some dst \<Rightarrow> dst),
           e_size = id_size i, e_sha256 = None\<rparr>)) (\<lambda>_.
       and_then (set_state (\<lambda>st. st\<lparr>ps_proposals := ps_proposals st @
           [new_proposal L st root relative i sg warning pid]\<rparr>)) (\<lambda>_.
       ok True))))))))))"

section \<open>A scan\<close>

definition waiting :: "persistent \<Rightarrow> nat" where
  "waiting st = length (filter (\<lambda>p. p_status p = ''proposed'') (ps_proposals st))"

definition pause_at_limit :: "codec \<Rightarrow> 'w os \<Rightarrow> ('w service, service_error, unit) io" where
  "pause_at_limit C S =
    and_then (state_of waiting) (\<lambda>n.
    if n \<ge> MAX_PROPOSALS then
      and_then (set_state (\<lambda>st. st\<lparr>ps_paused := True\<rparr>)) (\<lambda>_.
      and_then (save C S) (\<lambda>_. err SLimit))
    else ok ())"

fun scan_files :: "libs \<Rightarrow> codec \<Rightarrow> 'w os \<Rightarrow> root \<Rightarrow> string list \<Rightarrow> nat \<Rightarrow> ('w service, service_error, nat) io" where
  "scan_files L C S root [] created = ok created"
| "scan_files L C S root (relative # rest) created =
    and_then (pause_at_limit C S) (\<lambda>_.
    and_then (consider_file L C S root relative) (\<lambda>new.
    scan_files L C S root rest (if new then created + 1 else created)))"

fun scan_roots :: "libs \<Rightarrow> codec \<Rightarrow> 'w os \<Rightarrow> root list \<Rightarrow> nat \<Rightarrow> ('w service, service_error, nat) io" where
  "scan_roots L C S [] created = ok created"
| "scan_roots L C S (root # roots) created =
    and_then (in_os id (bounded_files S (rt_path root))) (\<lambda>files.
    and_then (scan_files L C S root files created) (\<lambda>created'.
    scan_roots L C S roots created'))"

definition scan_once :: "libs \<Rightarrow> codec \<Rightarrow> 'w os \<Rightarrow> ('w service, service_error, nat) io" where
  "scan_once L C S =
    and_then (state_of ps_paused) (\<lambda>paused.
    if paused then ok 0
    else and_then (pause_at_limit C S) (\<lambda>_.
      and_then (state_of (\<lambda>st. filter rt_watched (ps_roots st))) (\<lambda>roots.
      and_then (scan_roots L C S roots 0) (\<lambda>created.
      and_then (if created > 0 then save C S else ok ()) (\<lambda>_.
      ok created)))))"

end
