(* ===== verification/Service_Recovery.thy ===== *)
theory Service_Recovery
  imports Service_State
begin

text \<open>
  \<open>Service::open\<close>: loading the state, opening the journal, and the recovery of operations a
  stopped process left in the journal. Recovery only reads the user's files: it completes an
  operation whose destination it can verify and marks every other one for attention.
\<close>

section \<open>Evidence\<close>

definition verify_recovery_destination ::
  "libs \<Rightarrow> 'w os \<Rightarrow> string \<Rightarrow> proposal \<Rightarrow> string option \<Rightarrow> ('w, 'e, bool) io" where
  "verify_recovery_destination L S destination p expected_sha256 =
    and_then (try_result (identity_read S destination)) (\<lambda>r. case r of
      Inl _ \<Rightarrow> ok False
    | Inr i \<Rightarrow> if id_size i \<noteq> p_size p then ok False
        else (case expected_sha256 of
          Some h \<Rightarrow> and_then (try_result (sha256 L S destination)) (\<lambda>r. ok (res_ok r = Some h))
        | None \<Rightarrow> ok (i = proposal_identity p)))"

definition recovery_warning :: "libs \<Rightarrow> 'w os \<Rightarrow> entry \<Rightarrow> proposal \<Rightarrow> ('w, 'e, string) io" where
  "recovery_warning L S e p =
    and_then (try_result (identity_read S (e_source_token e))) (\<lambda>r.
    and_then (verify_recovery_destination L S (e_destination_token e) p (e_sha256 e)) (\<lambda>verified.
    ok (case (res_ok r = Some (proposal_identity p), verified) of
       (True, True) \<Rightarrow> ''Interrupted operation left verified source and destination copies; no copy was removed''
     | (True, False) \<Rightarrow> ''Interrupted operation retained the verified source; destination is absent or unverified''
     | (False, True) \<Rightarrow> ''Interrupted operation has a verified destination but source identity is unresolved''
     | (False, False) \<Rightarrow> ''Interrupted operation requires manual identity review; recovery did not guess'')))"

section \<open>Recovery\<close>

definition source_is_absent :: "'w os \<Rightarrow> string \<Rightarrow> ('w, 'e, bool) io" where
  "source_is_absent S source = and_then (try_result (os_lstat S source)) (\<lambda>r. ok (r = Inl NOENT))"

definition evidence :: "libs \<Rightarrow> 'w os \<Rightarrow> entry \<Rightarrow> ('w service, service_error, bool) io" where
  "evidence L S e =
    and_then (in_os SIo (source_is_absent S (e_source_token e))) (\<lambda>source_absent.
    and_then (state_of (\<lambda>st. List.find (\<lambda>p. p_id p = e_id e) (ps_proposals st))) (\<lambda>found.
    and_then (case found of None \<Rightarrow> ok False
      | Some p \<Rightarrow> in_os SIo (verify_recovery_destination L S (e_destination_token e) p (e_sha256 e))) (\<lambda>verified.
    ok (source_absent \<and> verified))))"

text \<open>\<open>iter_mut().find\<close> and the assignments: the first proposal with the id is changed.\<close>

fun update_first :: "uuid \<Rightarrow> (proposal \<Rightarrow> proposal) \<Rightarrow> proposal list \<Rightarrow> proposal list" where
  "update_first i f [] = []"
| "update_first i f (p # ps) = (if p_id p = i then f p # ps else p # update_first i f ps)"

definition complete_entry :: "libs \<Rightarrow> 'w os \<Rightarrow> entry \<Rightarrow> ('w service, service_error, unit) io" where
  "complete_entry L S e =
    and_then (in_journal (transition L S (e_id e) (e_revision e) Completed)) (\<lambda>c.
    set_state (\<lambda>st. st\<lparr>ps_proposals := update_first (e_id e) (\<lambda>p. p\<lparr>p_revision := e_revision c,
      p_status := ''completed'',
      p_warning := Some ''Restart verified destination evidence and completed the journal''\<rparr>) (ps_proposals st)\<rparr>))"

definition flag_entry :: "libs \<Rightarrow> 'w os \<Rightarrow> entry \<Rightarrow> ('w service, service_error, unit) io" where
  "flag_entry L S e =
    and_then (in_journal (transition L S (e_id e) (e_revision e) NeedsAttention)) (\<lambda>c.
    and_then (state_of (\<lambda>st. List.find (\<lambda>p. p_id p = e_id e) (ps_proposals st))) (\<lambda>found.
    case found of None \<Rightarrow> ok ()
    | Some p \<Rightarrow>
        and_then (in_os SIo (recovery_warning L S e
            (p\<lparr>p_revision := e_revision c, p_status := ''needs_attention''\<rparr>))) (\<lambda>warning.
        set_state (\<lambda>st. st\<lparr>ps_proposals := update_first (e_id e) (\<lambda>p. p\<lparr>p_revision := e_revision c,
          p_status := ''needs_attention'', p_warning := Some warning\<rparr>) (ps_proposals st)\<rparr>))))"

definition interrupted :: "jstate \<Rightarrow> bool" where
  "interrupted s \<longleftrightarrow> s \<in> {Approved, Copying, Published, SourceRemoved, Undoing}"

definition recover_entry :: "libs \<Rightarrow> 'w os \<Rightarrow> entry \<Rightarrow> ('w service, service_error, unit) io" where
  "recover_entry L S e =
    and_then (if e_state e = SourceRemoved then evidence L S e else ok False) (\<lambda>proved.
    if proved then complete_entry L S e
    else if interrupted (e_state e) then flag_entry L S e
    else ok ())"

fun recover_entries :: "libs \<Rightarrow> 'w os \<Rightarrow> entry list \<Rightarrow> ('w service, service_error, unit) io" where
  "recover_entries L S [] = ok ()"
| "recover_entries L S (e # es) = and_then (recover_entry L S e) (\<lambda>_. recover_entries L S es)"

definition recover_without_guessing :: "libs \<Rightarrow> codec \<Rightarrow> 'w os \<Rightarrow> ('w service, service_error, unit) io" where
  "recover_without_guessing L C S =
    and_then (in_journal (nonterminal_entries L S)) (\<lambda>es.
    and_then (recover_entries L S es) (\<lambda>_.
    save C S))"

section \<open>Opening\<close>

definition load_state :: "codec \<Rightarrow> 'w os \<Rightarrow> ('w, service_error, persistent) io" where
  "load_state C S =
    and_then (total (os_state_exists S)) (\<lambda>present.
    if present then
      and_then (map_err SIo (os_state_open S)) (\<lambda>_.
      and_then (map_err SIo (os_state_len S)) (\<lambda>len.
      and_then (fail_if (len > word_of_nat MAX_STATE_BYTES) MalformedState) (\<lambda>_.
      and_then (map_err SIo (os_state_read S (MAX_STATE_BYTES + 1))) (\<lambda>b.
      and_then (lift_res (ok_or MalformedState (json_to_state C b))) (\<lambda>st.
      and_then (fail_if (ps_schema_version st \<noteq> 1) MalformedState) (\<lambda>_.
      ok st))))))
    else ok fresh_state)"

text \<open>
  \<open>Journal::open\<close>: the connection, two pragmas and the schema, each of which can fail; none
  changes a row of an existing table.
\<close>

definition journal_open :: "'w os \<Rightarrow> ('w journal, journal_error, unit) io" where
  "journal_open S =
    and_then (sql S (stmt_select (\<lambda>_. ()))) (\<lambda>_.
    and_then (sql S (stmt_select (\<lambda>_. ()))) (\<lambda>_.
    and_then (sql S (stmt_select (\<lambda>_. ()))) (\<lambda>_.
    sql S (stmt_select (\<lambda>_. ())))))"

text \<open>
  The service starts from what is on disk: the argument's table, path and world. Its process
  state is whatever the last process left, and is overwritten.
\<close>

definition open_service :: "libs \<Rightarrow> codec \<Rightarrow> 'w os \<Rightarrow> ('w service, service_error, unit) io" where
  "open_service L C S =
    and_then (in_os SIo (os_state_mkdir S)) (\<lambda>_.
    and_then (in_os id (load_state C S)) (\<lambda>st.
    and_then (in_journal (journal_open S)) (\<lambda>_.
    and_then (modify (\<lambda>s. s\<lparr>sv_state := st, sv_stability := \<lambda>_. None\<rparr>)) (\<lambda>_.
    and_then (enforce_journal_retention S) (\<lambda>_.
    and_then (set_state prune_terminal_proposals) (\<lambda>_.
    recover_without_guessing L C S))))))"

end
