(* ===== verification/Ipc.thy ===== *)
theory Ipc
  imports Service_Review Service_Queue Service_Recovery
begin

text \<open>
  The protocol between the command line and the daemon (\<open>crates/sortinghat-cli/src/lib.rs\<close>): one
  JSON line each way over a Unix socket. \<open>serde_json\<close> is a record of partial functions, the
  socket a record of calls on the world; both are parameters.
\<close>

definition MAX_IPC_BYTES :: nat where "MAX_IPC_BYTES = 65536"

record request =
  rq_schema_version :: u8
  rq_correlation_id :: uuid
  rq_action :: string
  rq_proposal_id :: "uuid option"
  rq_revision :: "u64 option"
  rq_argument :: "string option"

text \<open>The field \<open>data: serde_json::Value\<close>, by the value the daemon builds it from.\<close>

datatype payload = Null
  | StatusData bool nat
  | PausedData bool
  | CreatedData nat
  | RootsData "root list"
  | RootData root
  | QueueData "proposal list"
  | ProposalData proposal
  | RulesData "rule list"
  | RuleData rule
  | AgentData agent_settings

record response =
  rs_schema_version :: u8
  rs_correlation_id :: uuid
  rs_ok :: bool
  rs_state :: string
  rs_message :: string
  rs_data :: payload

datatype protocol_error = ProtocolIo errno | InvalidResponse | CorrelationMismatch | InvalidRequest

text \<open>The arguments the daemon decodes, and \<open>serde_json\<close>.\<close>

record root_add =
  ra_path :: string
  ra_watched :: bool
  ra_destination :: bool

record destination_arg =
  da_root_id :: uuid
  da_directory :: string

record agent_arg =
  aa_executable :: string
  aa_fixed_args :: "string list"

record ipc_json =
  json_of_ipc_request :: "request \<Rightarrow> bytes option"
  json_to_ipc_request :: "bytes \<Rightarrow> request option"
  json_of_ipc_response :: "response \<Rightarrow> bytes option"
  json_to_ipc_response :: "bytes \<Rightarrow> response option"
  json_of_root_add :: "root_add \<Rightarrow> string option"
    \<comment> \<open>\<open>json!\<close> with a path; \<open>None\<close> is its panic on a path that is not UTF-8\<close>
  json_to_root_add :: "string \<Rightarrow> root_add option"
  json_of_destination :: "destination_arg \<Rightarrow> string"
  json_to_destination :: "string \<Rightarrow> destination_arg option"
  json_of_agent :: "agent_arg \<Rightarrow> string"
  json_to_agent :: "string \<Rightarrow> agent_arg option"
  json_i128 :: "int \<Rightarrow> bool" \<comment> \<open>\<open>json!\<close> has a value for this \<open>i128\<close>; it panics where it has none\<close>

record 'w net =
  nt_connect :: "string \<Rightarrow> ('w, errno, unit) io"
  nt_try_clone :: "('w, errno, unit) io"
  nt_send :: "bytes \<Rightarrow> ('w, errno, unit) io"
  nt_receive :: "nat \<Rightarrow> ('w, errno, bytes) io" \<comment> \<open>\<open>take(k).read_until(newline)\<close>\<close>
  nt_peer_uid :: "('w, errno, u32) io"
  nt_own_uid :: "'w \<Rightarrow> u32 \<times> 'w"
  nt_accept :: "('w, errno, bool) io" \<comment> \<open>\<open>False\<close> is \<open>WouldBlock\<close>\<close>
  nt_elapsed :: "'w \<Rightarrow> nat \<times> 'w" \<comment> \<open>milliseconds since \<open>last_scan\<close>\<close>
  nt_restart_clock :: "'w \<Rightarrow> 'w" \<comment> \<open>\<open>last_scan = Instant::now()\<close>\<close>
  nt_sleep :: "'w \<Rightarrow> 'w"
  nt_create_dirs :: "string \<Rightarrow> ('w, errno, unit) io" \<comment> \<open>\<open>create_dir_all\<close>\<close>
  nt_exists :: "string \<Rightarrow> 'w \<Rightarrow> bool \<times> 'w"
  nt_remove :: "string \<Rightarrow> ('w, errno, unit) io"
  nt_bind :: "string \<Rightarrow> ('w, errno, unit) io"
  nt_set_mode :: "string \<Rightarrow> u32 \<Rightarrow> ('w, errno, unit) io"
  nt_nonblocking :: "('w, errno, unit) io"

section \<open>Requests\<close>

definition action_byte :: "char \<Rightarrow> bool" where
  "action_byte c \<longleftrightarrow> is_ascii_lowercase c \<or> c = CHR ''_''"

definition validate_request :: "request \<Rightarrow> protocol_error + unit" where
  "validate_request request =
    (if rq_schema_version request \<noteq> 1
        \<or> rq_correlation_id request = 0
        \<or> rq_action request = []
        \<or> length (rq_action request) > 64
        \<or> \<not> list_all action_byte (rq_action request)
        \<or> (case rq_argument request of None \<Rightarrow> False | Some v \<Rightarrow> length v > 16384)
     then Inl InvalidRequest else Inr ())"

definition call :: "ipc_json \<Rightarrow> 'w net \<Rightarrow> string \<Rightarrow> request \<Rightarrow> ('w, protocol_error, response) io" where
  "call J N socket request =
    and_then (lift_res (validate_request request)) (\<lambda>_.
    and_then (lift_res (ok_or InvalidResponse (json_of_ipc_request J request))) (\<lambda>body.
    and_then (fail_if (length body \<ge> MAX_IPC_BYTES) InvalidResponse) (\<lambda>_.
    and_then (map_err ProtocolIo (nt_connect N socket)) (\<lambda>_.
    and_then (map_err ProtocolIo (nt_send N body)) (\<lambda>_.
    and_then (map_err ProtocolIo (nt_send N [CHR 0x0A])) (\<lambda>_.
    and_then (map_err ProtocolIo (nt_receive N (MAX_IPC_BYTES + 1))) (\<lambda>line.
    and_then (fail_if (length line > MAX_IPC_BYTES) InvalidResponse) (\<lambda>_.
    and_then (lift_res (ok_or InvalidResponse (json_to_ipc_response J line))) (\<lambda>response.
    and_then (fail_if (rs_schema_version response \<noteq> 1) InvalidResponse) (\<lambda>_.
    and_then (fail_if (rs_correlation_id response \<noteq> rq_correlation_id request) CorrelationMismatch) (\<lambda>_.
    ok response)))))))))))"

section \<open>Messages\<close>

text \<open>The \<open>Display\<close> texts of the error types; those of \<open>io::Error\<close> and of SQLite are parameters.\<close>

record error_texts =
  text_of_errno :: "errno \<Rightarrow> string"
  text_of_db :: "db_error \<Rightarrow> string"

fun fs_error_text :: "error_texts \<Rightarrow> fs_error \<Rightarrow> string" where
  "fs_error_text T FsUnsafePath = ''unsafe path''"
| "fs_error_text T UnsafeSource = ''source is not a single-link regular file''"
| "fs_error_text T Oversized = ''file exceeds inspection limit''"
| "fs_error_text T FsCollision = ''destination exists''"
| "fs_error_text T (FsIo e) = ''filesystem error: '' @ text_of_errno T e"
| "fs_error_text T IdentityChanged = ''source identity changed''"
| "fs_error_text T VerificationFailed = ''verification failed''"

fun journal_error_text :: "error_texts \<Rightarrow> journal_error \<Rightarrow> string" where
  "journal_error_text T (Database e) = ''database: '' @ text_of_db T e"
| "journal_error_text T JLimit = ''active journal limit reached''"
| "journal_error_text T JNotFound = ''entry not found''"
| "journal_error_text T JRevisionConflict = ''revision conflict''"
| "journal_error_text T InvalidTransition = ''invalid state transition''"
| "journal_error_text T CorruptState = ''corrupt state''"
| "journal_error_text T Range = ''numeric value out of range''"

fun service_error_text :: "error_texts \<Rightarrow> service_error \<Rightarrow> string" where
  "service_error_text T (SFs e) = ''filesystem: '' @ fs_error_text T e"
| "service_error_text T (SJournal e) = ''journal: '' @ journal_error_text T e"
| "service_error_text T (SIo e) = ''I/O: '' @ text_of_errno T e"
| "service_error_text T MalformedState = ''state is malformed or too large''"
| "service_error_text T SLimit = ''configured limit reached''"
| "service_error_text T SNotFound = ''item not found''"
| "service_error_text T SRevisionConflict = ''revision conflict''"
| "service_error_text T DestinationRequired = ''operation requires a destination''"
| "service_error_text T SCollision = ''destination collision''"
| "service_error_text T SUnsafePath = ''unsafe or unregistered path''"

fun protocol_error_text :: "error_texts \<Rightarrow> protocol_error \<Rightarrow> string" where
  "protocol_error_text T (ProtocolIo e) = ''I/O: '' @ text_of_errno T e"
| "protocol_error_text T InvalidResponse = ''invalid or oversized response''"
| "protocol_error_text T CorrelationMismatch = ''correlation mismatch''"
| "protocol_error_text T InvalidRequest = ''invalid request''"

section \<open>What a completed call has checked\<close>

lemma validate_request_ok:
  "validate_request r = Inr () \<longleftrightarrow> rq_schema_version r = 1 \<and> rq_correlation_id r \<noteq> 0 \<and>
     rq_action r \<noteq> [] \<and> length (rq_action r) \<le> 64 \<and> list_all action_byte (rq_action r) \<and>
     (\<forall>v. rq_argument r = Some v \<longrightarrow> length v \<le> 16384)"
  by (auto simp: validate_request_def split: option.splits)

lemma call_ok:
  assumes "call J N socket q w = (Inr a, w')"
  shows "validate_request q = Inr ()" and "rs_schema_version a = 1"
    and "rs_correlation_id a = rq_correlation_id q"
  using assms unfolding call_def by (auto simp: and_then_Inr)

end
