(* ===== verification/Service_Frame.thy ===== *)
theory Service_Frame
  imports Move_Laws Ipc
begin

text \<open>
  The operations that move no file, all at once: a property of the service that survives changes
  of its memory, quiet system calls, a save and the journal's commands is kept by every
  operation but \<open>approve\<close> and \<open>undo\<close>; one that survives any change of the world is kept by
  those too. The first contract is met by the user's files, both by the journal's table.
\<close>

named_theorems keep "computations that keep a property of the service"

section \<open>Journal commands as steps of the service\<close>

definition after_command :: "libs \<Rightarrow> 'w os \<Rightarrow> command \<Rightarrow> 'w service \<Rightarrow> 'w service" where
  "after_command L S c s = (let j = run_command L S c (journal_of s) in
     s\<lparr>sv_rows := j_rows j, sv_world := j_world j\<rparr>)"

lemma in_journal_command:
  assumes "\<And>j. snd (m j) = run_command L S c j" and "in_journal m s = (r, s')"
  shows "s' = after_command L S c s"
proof -
  from in_journal_run [OF assms(2)] obtain q j where "m (journal_of s) = (q, j)"
    and "s' = s\<lparr>sv_rows := j_rows j, sv_world := j_world j\<rparr>" by blast
  with assms(1) [of "journal_of s"] show ?thesis by (simp add: after_command_def Let_def)
qed

lemma create_command: "e_sha256 e = None \<Longrightarrow> snd (create L S e j) = run_command L S (Create e) j"
proof -
  assume "e_sha256 e = None"
  then have "e\<lparr>e_sha256 := None\<rparr> = e" by simp
  then show ?thesis by simp
qed

lemma keeps_option: "keeps P m \<Longrightarrow> (\<And>x. keeps P (k x)) \<Longrightarrow> keeps P (case t of None \<Rightarrow> m | Some x \<Rightarrow> k x)"
  by (cases t) auto

lemma keeps_sum: "(\<And>e. keeps P (m e)) \<Longrightarrow> (\<And>x. keeps P (k x)) \<Longrightarrow> keeps P (case t of Inl e \<Rightarrow> m e | Inr x \<Rightarrow> k x)"
  by (cases t) auto

lemma keeps_if: "keeps P m \<Longrightarrow> keeps P m' \<Longrightarrow> keeps P (if c then m else m')"
  by simp

lemma keeps_quiet: "quiet v m \<Longrightarrow> (\<And>s s'. P s \<Longrightarrow> v s' = v s \<Longrightarrow> P s') \<Longrightarrow> keeps P m"
  by (rule keepsI) (auto dest: quietD)

lemmas keeps_rules = keeps_and_then keeps_pure keeps_option keeps_sum keeps_if keeps_try_result

section \<open>Reading the journal\<close>

lemma sql_select_keeps: "keeps (\<lambda>j. j_rows j = R) (sql S (stmt_select f))"
proof (rule keepsI)
  fix s r s' assume "j_rows s = R" and "sql S (stmt_select f) s = (r, s')"
  then show "j_rows s' = R" by (cases r) (auto dest: sql_select sql_rows_err)
qed

lemma reading_keeps_rows:
  "keeps (\<lambda>j. j_rows j = R) (get_entry L S u)" "keeps (\<lambda>j. j_rows j = R) (nonterminal_entries L S)"
  "keeps (\<lambda>j. j_rows j = R) (journal_open S)"
proof -
  show get: "keeps (\<lambda>j. j_rows j = R) (get_entry L S u)" for u
    unfolding get_entry_def by (intro keeps_rules sql_select_keeps)
  have "keeps (\<lambda>j. j_rows j = R) (collect_entries L S ts)" for ts
  proof (induction ts)
    case Nil
    show ?case unfolding collect_entries.simps by (rule keeps_pure)
  next
    case (Cons t ts)
    show ?case unfolding collect_entries.simps by (intro keeps_rules get Cons)
  qed
  then show "keeps (\<lambda>j. j_rows j = R) (nonterminal_entries L S)"
    unfolding nonterminal_entries_def by (intro keeps_rules sql_select_keeps)
  show "keeps (\<lambda>j. j_rows j = R) (journal_open S)"
    unfolding journal_open_def by (intro keeps_rules sql_select_keeps)
qed

lemma walk_view:
  "(\<And>p. quiet view (os_read_dir S p)) \<Longrightarrow> walk S root pending n res w = (r, w') \<Longrightarrow> view w' = view w"
proof (induction S root pending n res w arbitrary: r w' rule: walk.induct)
  case (2 S root rel depth pending n res w)
  show ?case
  proof (cases "n + 1 > MAX_WALK_DIRECTORIES \<or> depth > MAX_WALK_DEPTH")
    case False
    obtain q w1 where d: "os_read_dir S (path_join root rel) w = (q, w1)" by fastforce
    have w1: "view w1 = view w" using quietD [OF "2.prems"(1) d] .
    show ?thesis
    proof (cases q)
      case (Inl e)
      with False "2.prems"(2) d w1 show ?thesis by (auto simp: and_then_def map_err_def)
    next
      case (Inr es)
      with False "2.prems"(2) d w1 show ?thesis
        using "2.IH" [OF False, of es w1 _ w1] "2.prems"(1)
        by (auto simp: and_then_def map_err_def split: sum.splits)
    qed
  qed (use "2.prems" in \<open>auto split: if_splits\<close>)
qed simp

context posix
begin

lemma quiet_journal_open: "quiet (\<lambda>j. view (j_world j)) (journal_open S)"
  unfolding journal_open_def by (intro os_frame quiet_sql)

lemma quiet_walk: "quiet view (walk S root pending n res)"
  by (rule quietI, rule walk_view) (rule quiet_calls)

lemma quiet_recovering:
  "quiet view (verify_recovery_destination L S p q h)" "quiet view (recovery_warning L S e q)"
  "quiet view (source_is_absent S p)" "quiet view (sniff_mime S p)" "quiet view (move_warning S p p')"
  "quiet view (bounded_files S p)" "quiet view (load_state C S)"
proof -
  show v: "quiet view (verify_recovery_destination L S p q h)" for p q h
    unfolding verify_recovery_destination_def
    by (intro quiet_and_then quiet_try_result quiet_reading) (auto split: sum.split option.split intro!: os_frame quiet_reading)
  show "quiet view (recovery_warning L S e q)"
    unfolding recovery_warning_def by (intro os_frame quiet_reading v)
  show "quiet view (source_is_absent S p)" "quiet view (sniff_mime S p)"
    unfolding source_is_absent_def sniff_mime_def by (intro os_frame quiet_calls)+
  show "quiet view (move_warning S p p')"
    unfolding move_warning_def by (intro os_frame quiet_calls quiet_reading)
  show "quiet view (bounded_files S p)" unfolding bounded_files_def by (rule quiet_walk)
  show "quiet view (load_state C S)"
    unfolding load_state_def by (intro quiet_and_then quiet_map_err quiet_calls) (auto intro!: os_frame quiet_calls)
qed

end

section \<open>The contract and its clients\<close>

locale service_frame = posix S view for S :: "'w os" and view :: "'w \<Rightarrow> fsview" +
  fixes L :: libs and C :: codec and P :: "'w service \<Rightarrow> bool"
  assumes P_world: "P s \<Longrightarrow> view w = view (sv_world s) \<Longrightarrow> P (s\<lparr>sv_world := w\<rparr>)"
    and P_state: "P s \<Longrightarrow> P (s\<lparr>sv_state := st\<rparr>)"
    and P_stability: "P s \<Longrightarrow> P (s\<lparr>sv_stability := sb\<rparr>)"
    and P_command: "P s \<Longrightarrow> P (after_command L S c s)"
    and P_save: "keeps P (save C S)"
begin

lemma keep_in_os [keep]: "quiet view m \<Longrightarrow> keeps P (in_os f m)"
  by (rule keepsI) (auto dest!: in_os_run dest: quietD intro: P_world)

lemma keep_in_journal_quiet: "(\<And>R. keeps (\<lambda>j. j_rows j = R) m) \<Longrightarrow> quiet (\<lambda>j. view (j_world j)) m \<Longrightarrow> keeps P (in_journal m)"
proof (rule keepsI)
  fix s r s' assume rows: "\<And>R. keeps (\<lambda>j. j_rows j = R) m" and q: "quiet (\<lambda>j. view (j_world j)) m"
    and p: "P s" and "in_journal m s = (r, s')"
  then obtain x j where m: "m (journal_of s) = (x, j)" and s': "s' = s\<lparr>sv_rows := j_rows j, sv_world := j_world j\<rparr>"
    by (blast dest: in_journal_run)
  have "j_rows j = sv_rows s" using keepsD [OF rows _ m, of "sv_rows s"] by simp
  then have "s' = s\<lparr>sv_world := j_world j\<rparr>" using s' by simp
  moreover have "view (j_world j) = view (sv_world s)" using quietD [OF q m] by simp
  ultimately show "P s'" using P_world [OF p] by simp
qed

lemma keep_journal [keep]:
  "keeps P (in_journal (transition L S u n t))" "keeps P (in_journal (revise_proposal L S u n b))"
  "keeps P (in_journal (set_sha256 L S u h))" "keeps P (in_journal (enforce_retention S k age lim))"
  "e_sha256 e = None \<Longrightarrow> keeps P (in_journal (create L S e))"
  "keeps P (in_journal (nonterminal_entries L S))" "keeps P (in_journal (journal_open S))"
proof -
  have command: "keeps P (in_journal m)" if "\<And>j. snd (m j) = run_command L S c j" for m :: "('w journal, journal_error, 'a) io" and c
  proof (rule keepsI)
    fix s r s' assume "P s" and "in_journal m s = (r, s')"
    with in_journal_command [OF that] P_command show "P s'" by metis
  qed
  show "keeps P (in_journal (transition L S u n t))" by (rule command [of _ "Transition u n t"]) simp
  show "keeps P (in_journal (revise_proposal L S u n b))" by (rule command [of _ "Revise u n b"]) simp
  show "keeps P (in_journal (set_sha256 L S u h))" by (rule command [of _ "Digest u h"]) simp
  show "keeps P (in_journal (enforce_retention S k age lim))" by (rule command [of _ "Retain k age lim"]) simp
  show "keeps P (in_journal (create L S e))" if "e_sha256 e = None"
    by (rule command [of _ "Create e"]) (rule create_command [OF that])
  show "keeps P (in_journal (nonterminal_entries L S))" "keeps P (in_journal (journal_open S))"
    by (intro keep_in_journal_quiet reading_keeps_rows quiet_nonterminal quiet_journal_open)+
qed

lemma keep_memory [keep]: "keeps P (set_state f)" "keeps P (state_of g)" "keeps P (gets k)"
    "keeps P (modify (\<lambda>s. s\<lparr>sv_stability := h s\<rparr>))"
    "keeps P (modify (\<lambda>s. s\<lparr>sv_state := st, sv_stability := sb\<rparr>))"
proof -
  show "keeps P (set_state f)" unfolding set_state_def by (rule keeps_modify) (rule P_state)
  show "keeps P (state_of g)" unfolding state_of_def by simp
  show "keeps P (gets k)" by simp
  show "keeps P (modify (\<lambda>s. s\<lparr>sv_stability := h s\<rparr>))" by (rule keeps_modify) (rule P_stability)
  show "keeps P (modify (\<lambda>s. s\<lparr>sv_state := st, sv_stability := sb\<rparr>))"
    using P_stability [OF P_state] by (auto intro: keeps_modify)
qed

lemma keep_ends [keep]: "keeps P (enforce_journal_retention S)" "keeps P (conclude C S i n t)"
proof -
  show r: "keeps P (enforce_journal_retention S)"
    unfolding enforce_journal_retention_def by (intro keeps_rules keep)
  show "keeps P (conclude C S i n t)"
    unfolding conclude_def by (intro keeps_rules keep P_save r)
qed

lemma keep_check_folder [keep]: "keeps P (check_folder S p)"
  unfolding check_folder_def by (intro keeps_rules keep quiet_calls)

lemma keep_settings [keep]:
  "keeps P (set_paused C S b)" "keeps P (configure_metadata_agent C S x args)" "keeps P (disable_agent C S)"
  unfolding set_paused_def configure_metadata_agent_def disable_agent_def by (intro keeps_rules keep P_save)+

lemma keep_roots [keep]: "keeps P (add_root C S p a b)" "keeps P (remove_root C S i)"
  unfolding add_root_def remove_root_def Let_def
  by (intro keeps_rules keep P_save quiet_calls quiet_reading)+

lemma keep_review [keep]:
  "keeps P (choose_destination L C S i n d p)" "keeps P (rename_proposal L C S i n p)"
  "keeps P (ignore L C S i n)" "keeps P (create_rule_from_proposal L C S i k)"
  unfolding choose_destination_def rename_proposal_def ignore_def create_rule_from_proposal_def Let_def
  by (intro keeps_rules keep P_save quiet_calls quiet_reading quiet_recovering)+

lemma keep_choose_path [keep]: "keeps P (choose_destination_path L C S i n p)"
  unfolding choose_destination_path_def by (intro keeps_rules keep quiet_calls)

lemma keep_suggest [keep]: "keeps P (agent_or_fallback C S facts len reason fallback)" "keeps P (suggest L C S facts len)"
proof -
  show a: "keeps P (agent_or_fallback C S facts len reason fallback)" for reason fallback
    unfolding agent_or_fallback_def Let_def
    by (intro keeps_rules keep quiet_try_result quiet_classify quiet_calls)
  show "keeps P (suggest L C S facts len)"
    unfolding suggest_def by (intro keeps_and_then keep keeps_pure) (auto split: rule_decision.split intro!: keeps_pure a)
qed

lemma keep_consider [keep]: "keeps P (consider_file L C S root relative)"
  unfolding consider_file_def sample_file_def Let_def
  by (intro keeps_rules keep quiet_calls quiet_reading quiet_recovering) simp_all

lemma keep_pause [keep]: "keeps P (pause_at_limit C S)"
  unfolding pause_at_limit_def by (intro keeps_rules keep P_save)

lemma keep_scan [keep]: "keeps P (scan_once L C S)"
proof -
  have files: "keeps P (scan_files L C S root fs k)" for root fs k
    by (induction fs arbitrary: k) (simp_all only: scan_files.simps, (intro keeps_rules keep, assumption?)+)
  have roots: "keeps P (scan_roots L C S rs k)" for rs k
  proof (induction rs arbitrary: k)
    case (Cons r rs)
    show ?case unfolding scan_roots.simps by (intro keeps_rules keep quiet_recovering files Cons.IH)
  qed (simp only: scan_roots.simps keeps_pure)
  show ?thesis unfolding scan_once_def by (intro keeps_rules keep roots P_save)
qed

lemma keep_recovery [keep]: "keeps P (recover_without_guessing L C S)" "keeps P (open_service L C S)"
proof -
  have entry: "keeps P (recover_entry L S e)" for e
    unfolding recover_entry_def evidence_def complete_entry_def flag_entry_def
    by (intro keeps_rules keep quiet_recovering)
  have entries: "keeps P (recover_entries L S es)" for es
  proof (induction es)
    case (Cons e es)
    show ?case unfolding recover_entries.simps by (intro keeps_rules entry Cons.IH)
  qed (simp only: recover_entries.simps keeps_pure)
  show r: "keeps P (recover_without_guessing L C S)"
    unfolding recover_without_guessing_def by (intro keeps_rules keep entries P_save)
  show "keeps P (open_service L C S)"
    unfolding open_service_def by (intro keeps_rules keep r quiet_recovering quiet_calls)
qed

end

locale move_frame = service_frame +
  assumes P_any_world: "P s \<Longrightarrow> P (s\<lparr>sv_world := w\<rparr>)"
begin

lemma keep_any_os: "keeps P (in_os f m)"
  by (rule keepsI) (auto dest!: in_os_run intro: P_any_world)

lemma keep_approve: "keeps P (approve L C S i n)"
  unfolding approve_def approve_prepare_def approve_prepared_def approve_move_def approve_rename_def
    approve_copy_def Let_def
  by (intro keeps_rules keep keep_any_os)

lemma keep_undo: "keeps P (undo L C S i n)"
  unfolding undo_def undo_prepare_def undo_prepared_def Let_def
  by (intro keeps_rules keep keep_any_os)

end

section \<open>The two instances\<close>

lemma save_state: "save C S s = (r, s') \<Longrightarrow> \<exists>w. s' = s\<lparr>sv_world := w\<rparr>"
proof -
  have "keeps (\<lambda>t. \<exists>w. t = s\<lparr>sv_world := w\<rparr>) (save C S)"
    unfolding save_def
    by (intro keeps_rules) (auto simp: state_of_def intro!: keepsI dest!: in_os_run)
  moreover assume "save C S s = (r, s')"
  ultimately show ?thesis using keepsD [of "\<lambda>t. \<exists>w. t = s\<lparr>sv_world := w\<rparr>"] by (metis service.surjective service.update_convs(5))
qed

locale setting = posix S view + libs_ok L for S :: "'w os" and view :: "'w \<Rightarrow> fsview" and L :: libs

context posix
begin

lemma command_view: "view (j_world (run_command L S c j)) = view (j_world j)"
proof -
  have snd_quiet: "view (j_world (snd (m j))) = view (j_world j)" if "quiet (\<lambda>j. view (j_world j)) m"
    for m :: "('w journal, journal_error, 'b) io"
    using quietD [OF that, of j "fst (m j)" "snd (m j)"] by simp
  show ?thesis
  proof (cases c)
    case (Create e)
    then show ?thesis using snd_quiet [OF quiet_journal(3)] by simp
  next
    case (Transition u n t)
    then show ?thesis using snd_quiet [OF quiet_journal(2)] by simp
  next
    case (Revise u n b)
    then show ?thesis using snd_quiet [OF quiet_journal(4)] by simp
  next
    case (Digest u h)
    then show ?thesis using snd_quiet [OF quiet_journal(5)] by simp
  next
    case (Retain k age lim)
    then show ?thesis using snd_quiet [OF quiet_journal(7)] by simp
  qed
qed

end

sublocale posix \<subseteq> files: service_frame S view L C "\<lambda>s. same_files v (files_of view s)" for L C v
proof unfold_locales
  fix s :: "'w service" and c assume "same_files v (files_of view s)"
  then show "same_files v (files_of view (after_command L S c s))"
    by (simp add: after_command_def files_of_def Let_def command_view)
next
  show "keeps (\<lambda>s. same_files v (files_of view s)) (save C S)"
    by (rule keepsI) (auto dest: files_onlyD [OF files_only_save] intro: same_files_trans)
qed (auto simp: files_of_def)

text \<open>The table stays well-formed and every entry follows the state machine, whatever the service does.\<close>

definition history_from :: "libs \<Rightarrow> entry option \<Rightarrow> uuid \<Rightarrow> 'w service \<Rightarrow> bool" where
  "history_from L A u s \<longleftrightarrow> rows_ok L (sv_rows s) \<and> entry_step\<^sup>*\<^sup>* A (entries_in L s u)"

sublocale setting \<subseteq> table: move_frame S view L C "history_from L A u" for C A u
proof unfold_locales
  fix s :: "'w service" and c assume "history_from L A u s"
  then have ok: "rows_ok L (j_rows (journal_of s))" and A: "entry_step\<^sup>*\<^sup>* A (entries_of L (j_rows (journal_of s)) u)"
    by (simp_all add: history_from_def entries_in_def)
  note step = command_step [OF ok, of S c u]
  then have "entry_step\<^sup>*\<^sup>* A (entries_of L (j_rows (run_command L S c (journal_of s))) u)"
    using A by (meson rtranclp.rtrancl_into_rtrancl)
  with step show "history_from L A u (after_command L S c s)"
    by (simp add: history_from_def after_command_def entries_in_def Let_def)
next
  show "keeps (history_from L A u) (save C S)"
    by (rule keepsI) (auto dest: save_state simp: history_from_def entries_in_def)
qed (auto simp: history_from_def entries_in_def)

end
