(* ===== verification/Service_Memory.thy ===== *)
theory Service_Memory
  imports Service_Frame
begin

text \<open>
  What the operations do to the service's persistent state in memory, and the limits they keep:
  at most 16 roots with distinct paths, at most 1000 rules, all valid, at most 1000 waiting
  proposals, and agent settings within their bounds.
\<close>

section \<open>Steps that leave the memory alone\<close>

definition memory_kept :: "('w service, 'e, 'a) io \<Rightarrow> bool" where
  "memory_kept m \<longleftrightarrow> (\<forall>st. keeps (\<lambda>s. sv_state s = st) m)"

lemma memory_keptD: "memory_kept m \<Longrightarrow> m s = (r, s') \<Longrightarrow> sv_state s' = sv_state s"
  using keepsD [of "\<lambda>t. sv_state t = sv_state s" m s r s'] by (simp add: memory_kept_def)

lemma memory_kept_rules:
  "memory_kept (in_os f m)" "memory_kept (in_journal j)" "memory_kept (state_of g)" "memory_kept (gets h)"
  "memory_kept (ok x)" "memory_kept (err e)" "memory_kept (lift_res r)" "memory_kept (fail_if c e)"
  by (auto simp: memory_kept_def state_of_def intro!: keepsI dest!: in_os_run in_journal_run)

lemma memory_kept_then: "memory_kept m \<Longrightarrow> (\<And>x. memory_kept (k x)) \<Longrightarrow> memory_kept (and_then m k)"
  unfolding memory_kept_def by (auto intro: keeps_and_then)

lemma memory_kept_cases:
  "memory_kept m \<Longrightarrow> memory_kept m' \<Longrightarrow> memory_kept (if c then m else m')"
  "memory_kept m \<Longrightarrow> (\<And>x. memory_kept (k x)) \<Longrightarrow> memory_kept (case t of None \<Rightarrow> m | Some x \<Rightarrow> k x)"
  by (auto split: option.split)

lemma memory_kept_try: "memory_kept m \<Longrightarrow> memory_kept (try_result m)"
  unfolding memory_kept_def by (auto intro: keeps_try_result)

lemma memory_kept_save: "memory_kept (save C S)"
  unfolding save_def by (intro memory_kept_then memory_kept_rules)

lemma memory_kept_retention: "memory_kept (enforce_journal_retention S)"
  unfolding enforce_journal_retention_def by (intro memory_kept_then memory_kept_rules)

lemma memory_kept_move: "memory_kept (approve_move L S u q n)"
  unfolding approve_move_def approve_rename_def approve_copy_def
  by (intro memory_kept_then memory_kept_cases memory_kept_rules)

section \<open>Following the memory through an operation\<close>

definition leads :: "persistent \<Rightarrow> ('w service, 'e, 'a) io \<Rightarrow> (persistent \<Rightarrow> bool) \<Rightarrow> bool" where
  "leads st m Q \<longleftrightarrow> (\<forall>s r s'. sv_state s = st \<longrightarrow> m s = (r, s') \<longrightarrow> Q (sv_state s'))"

lemma leadsI: "(\<And>s r s'. sv_state s = st \<Longrightarrow> m s = (r, s') \<Longrightarrow> Q (sv_state s')) \<Longrightarrow> leads st m Q"
  by (simp add: leads_def)

lemma leadsD: "leads (sv_state s) m Q \<Longrightarrow> m s = (r, s') \<Longrightarrow> Q (sv_state s')"
  by (simp add: leads_def)

lemma keeps_leads: "(\<And>st. J st \<Longrightarrow> leads st m J) \<Longrightarrow> keeps (\<lambda>s. J (sv_state s)) m"
  by (rule keepsI) (rule leadsD)

lemma leads_end: "memory_kept m \<Longrightarrow> Q st \<Longrightarrow> leads st m Q"
  by (rule leadsI) (simp add: memory_keptD)

lemma leads_kept:
  assumes "memory_kept m" and "Q st" and "\<And>x. leads st (k x) Q"
  shows "leads st (and_then m k) Q"
proof (rule leadsI)
  fix s r s' assume s: "sv_state s = st" and run: "and_then m k s = (r, s')"
  obtain x s1 where m: "m s = (x, s1)" by fastforce
  have s1: "sv_state s1 = st" using memory_keptD [OF assms(1) m] s by simp
  show "Q (sv_state s')"
  proof (cases x)
    case (Inl e)
    with run m have "s' = s1" by (simp add: and_then_def)
    with s1 assms(2) show ?thesis by simp
  next
    case (Inr y)
    with run m have "k y s1 = (r, s')" by (simp add: and_then_def)
    with leadsD [of s1] assms(3) s1 show ?thesis by blast
  qed
qed

lemma leads_state_of: "leads st (k (g st)) Q \<Longrightarrow> leads st (and_then (state_of g) k) Q"
  by (auto simp: leads_def and_then_def state_of_def)

lemma leads_set: "leads (f st) (k ()) Q \<Longrightarrow> leads st (and_then (set_state f) k) Q"
proof (rule leadsI)
  fix s r s' assume l: "leads (f st) (k ()) Q" and "sv_state s = st" and "and_then (set_state f) k s = (r, s')"
  then have "k () (s\<lparr>sv_state := f st\<rparr>) = (r, s')" by (simp add: and_then_def set_state_def)
  with leadsD [of "s\<lparr>sv_state := f st\<rparr>"] l show "Q (sv_state s')" by simp
qed

lemma leads_set_end: "Q (f st) \<Longrightarrow> leads st (set_state f) Q"
  by (auto simp: leads_def set_state_def)

lemma leads_fail_if: "Q st \<Longrightarrow> (\<not> c \<Longrightarrow> leads st (k ()) Q) \<Longrightarrow> leads st (and_then (fail_if c e) k) Q"
  by (cases c) (auto simp: leads_def and_then_def fail_if_def)

lemma leads_lift: "Q st \<Longrightarrow> (\<And>x. r = Inr x \<Longrightarrow> leads st (k x) Q) \<Longrightarrow> leads st (and_then (lift_res r) k) Q"
  by (cases r) (auto simp: leads_def and_then_def)

lemma leads_cases:
  "(c \<Longrightarrow> leads st m Q) \<Longrightarrow> (\<not> c \<Longrightarrow> leads st m' Q) \<Longrightarrow> leads st (if c then m else m') Q"
  by simp

lemma leads_option:
  "leads st m Q \<Longrightarrow> (\<And>x. t = Some x \<Longrightarrow> leads st (n x) Q) \<Longrightarrow> leads st (case t of None \<Rightarrow> m | Some x \<Rightarrow> n x) Q"
  by (cases t) auto

lemma leads_then:
  assumes "leads st m J" and "\<And>x st'. J st' \<Longrightarrow> leads st' (k x) J"
  shows "leads st (and_then m k) J"
proof (rule leadsI)
  fix s r s' assume s: "sv_state s = st" and run: "and_then m k s = (r, s')"
  obtain x s1 where m: "m s = (x, s1)" by fastforce
  have s1: "J (sv_state s1)" using leadsD [of s] assms(1) m s by blast
  show "J (sv_state s')"
  proof (cases x)
    case (Inl e)
    with run m have "s' = s1" by (simp add: and_then_def)
    with s1 show ?thesis by simp
  next
    case (Inr y)
    with run m have "k y s1 = (r, s')" by (simp add: and_then_def)
    with leadsD [of s1] assms(2) s1 show ?thesis by blast
  qed
qed

section \<open>The limits\<close>

definition agent_ok :: "agent_settings \<Rightarrow> bool" where
  "agent_ok a \<longleftrightarrow> ag_metadata_only a \<and> length (ag_fixed_args a) \<le> 16 \<and> list_all (\<lambda>x. length x \<le> 1024) (ag_fixed_args a) \<and>
     (case ag_executable a of None \<Rightarrow> \<not> ag_enabled a | Some x \<Rightarrow> x \<noteq> [] \<and> length x \<le> 4096)"

definition roots_ok :: "root list \<Rightarrow> bool" where
  "roots_ok rs \<longleftrightarrow> length rs \<le> MAX_ROOTS \<and> distinct (map rt_path rs) \<and> list_all (\<lambda>r. rt_watched r \<or> rt_destination r) rs"

definition rules_ok :: "glob \<Rightarrow> rule list \<Rightarrow> bool" where
  "rules_ok G rs \<longleftrightarrow> length rs \<le> MAX_RULES \<and> list_all (\<lambda>r. validate_rule G r = Inr ()) rs"

definition limits_ok :: "glob \<Rightarrow> persistent \<Rightarrow> bool" where
  "limits_ok G st \<longleftrightarrow> ps_schema_version st = 1 \<and> roots_ok (ps_roots st) \<and> rules_ok G (ps_rules st) \<and>
     waiting st \<le> MAX_PROPOSALS \<and> agent_ok (ps_agent st)"

lemma limits_fresh: "limits_ok G fresh_state"
  by (simp add: limits_ok_def fresh_state_def roots_ok_def rules_ok_def waiting_def agent_ok_def default_agent_def)

lemma limits_paused: "limits_ok G st \<Longrightarrow> limits_ok G (st\<lparr>ps_paused := b\<rparr>)"
  by (simp add: limits_ok_def waiting_def)

lemma limits_agent: "limits_ok G st \<Longrightarrow> agent_ok a \<Longrightarrow> limits_ok G (st\<lparr>ps_agent := a\<rparr>)"
  by (simp add: limits_ok_def waiting_def)

lemma limits_roots: "limits_ok G st \<Longrightarrow> roots_ok rs \<Longrightarrow> limits_ok G (st\<lparr>ps_roots := rs\<rparr>)"
  by (simp add: limits_ok_def waiting_def)

lemma limits_rules: "limits_ok G st \<Longrightarrow> rules_ok G rs \<Longrightarrow> limits_ok G (st\<lparr>ps_rules := rs\<rparr>)"
  by (simp add: limits_ok_def waiting_def)

lemma limits_proposals:
  "limits_ok G st \<Longrightarrow> waiting (st\<lparr>ps_proposals := ps\<rparr>) \<le> max (waiting st) MAX_PROPOSALS \<Longrightarrow> limits_ok G (st\<lparr>ps_proposals := ps\<rparr>)"
  by (simp add: limits_ok_def)

text \<open>Changing one proposal adds no waiting one, if it does not make it wait.\<close>

lemma waiting_update:
  assumes "p_status (f (xs ! i)) = ''proposed'' \<Longrightarrow> p_status (xs ! i) = ''proposed''"
  shows "length (filter (\<lambda>p. p_status p = ''proposed'') (xs[i := f (xs ! i)])) \<le>
    length (filter (\<lambda>p. p_status p = ''proposed'') xs)"
  using assms
proof (induction xs arbitrary: i)
  case (Cons x xs)
  then show ?case by (cases i) auto
qed simp

lemma limits_update:
  "limits_ok G st \<Longrightarrow> (\<And>p. p_status (f p) = ''proposed'' \<Longrightarrow> p_status p = ''proposed'') \<Longrightarrow>
   limits_ok G (update_proposal i f st)"
  unfolding update_proposal_def
  using waiting_update [of f "ps_proposals st" i] by (intro limits_proposals) (auto simp: waiting_def)

lemma waiting_update_first:
  assumes "\<And>p. p_status (f p) \<noteq> ''proposed''"
  shows "length (filter (\<lambda>p. p_status p = ''proposed'') (update_first u f ps)) \<le> length (filter (\<lambda>p. p_status p = ''proposed'') ps)"
  by (induction ps) (use assms in auto)

lemma limits_update_first:
  "limits_ok G st \<Longrightarrow> (\<And>p. p_status (f p) \<noteq> ''proposed'') \<Longrightarrow>
   limits_ok G (st\<lparr>ps_proposals := update_first u f (ps_proposals st)\<rparr>)"
  using waiting_update_first [of f u "ps_proposals st"] by (intro limits_proposals) (auto simp: waiting_def)

lemma waiting_drop: "filter (\<lambda>p. p_status p = ''proposed'') (drop_terminal k ps) = filter (\<lambda>p. p_status p = ''proposed'') ps"
  by (induction ps arbitrary: k) (auto simp: terminal_status_def)

lemma limits_prune: "limits_ok G st \<Longrightarrow> limits_ok G (prune_terminal_proposals st)"
  unfolding prune_terminal_proposals_def Let_def
  by (intro limits_proposals) (simp_all add: waiting_def waiting_drop)

lemma limits_new: "limits_ok G st \<Longrightarrow> waiting st < MAX_PROPOSALS \<Longrightarrow> limits_ok G (st\<lparr>ps_proposals := ps_proposals st @ [p]\<rparr>)"
  by (intro limits_proposals) (auto simp: waiting_def)

lemmas limits = limits_paused limits_agent limits_roots limits_rules limits_update limits_update_first limits_prune limits_new

end
