(* ===== verification/Move_Results.thy ===== *)
theory Move_Results
  imports Service_Memory
begin

text \<open>What a successful \<open>approve\<close> or \<open>undo\<close> returns, and what it leaves in the journal and on disk.\<close>

section \<open>The files at the end\<close>

lemma kept_same_files: "kept L q name v u \<Longrightarrow> same_files u u' \<Longrightarrow> kept L q name v u'"
  by (simp add: kept_def untouched_def same_files_def data_at_def)

lemma arrived_after_facts:
  assumes "after_files (arrived L pid q v) u" and "v_file v (object_of (pr_expected q)) = Some f"
  shows "\<exists>name y g. file_name (pr_destination q) = Some name \<and> v_entry v (pr_folder_fd q) name = None \<and>
    v_entry u (pr_folder_fd q) name = Some y \<and> v_file u y = Some g \<and>
    lib_sha256 L (f_data g) = lib_sha256 L (f_data f) \<and>
    v_entry v (pr_source_parent q) (pr_source_name q) = Some (object_of (pr_expected q)) \<and>
    v_entry u (pr_source_parent q) (pr_source_name q) = None"
proof -
  obtain u0 where "arrived L pid q v u0" and "same_files u0 u" using assms(1) unfolding after_files_def by blast
  with arrived_facts [OF _ assms(2), of L pid u0] show ?thesis by (simp add: same_files_def)
qed

context posix
begin

text \<open>Wherever \<open>approve\<close> stopped, the content of the source is kept.\<close>

lemma approve_content:
  assumes "libs_ok L" and "approve L C S pid n s = (r, s')"
  shows "v_entry (files_of view s') = v_entry (files_of view s) \<and> v_file (files_of view s') = v_file (files_of view s) \<or>
    (\<exists>q s1 name. approve_prepare L S pid n s = (Inr q, s1) \<and> file_name (pr_destination q) = Some name \<and>
       kept L q name (files_of view s) (files_of view s'))"
proof (cases "approve_prepare L S pid n s")
  case (Pair x s1)
  show ?thesis
  proof (cases x)
    case (Inl e)
    then show ?thesis
      using approve_unprepared [OF Pair [unfolded Inl]] assms(2)
        quietD [OF quiet_approve_prepare Pair] by simp
  next
    case (Inr q)
    note q = Pair [unfolded Inr]
    have "after_files (moving L pid q (files_of view s)) (files_of view s')"
      using approve_effect [OF assms(1) q assms(2)]
      by (cases r) (auto simp: after_files_def dest: arrived_moving)
    then obtain u where u: "moving L pid q (files_of view s) u" and same: "same_files u (files_of view s')"
      unfolding after_files_def by blast
    from moving_kept [OF u] show ?thesis
    proof
      assume "u = files_of view s"
      then show ?thesis using same by (simp add: same_files_def)
    next
      assume "\<exists>name. file_name (pr_destination q) = Some name \<and> kept L q name (files_of view s) u"
      then show ?thesis using q kept_same_files [OF _ same] by blast
    qed
  qed
qed

end

lemma approve_prepare_index:
  "approve_prepare L S pid n s = (Inr q, s') \<Longrightarrow> proposal_index (sv_state s) pid n = Inr (pr_index q)"
  unfolding approve_prepare_def Let_def by (auto simp: and_then_Inr state_of_def)

section \<open>Where the entry is\<close>

definition at_state :: "libs \<Rightarrow> uuid \<Rightarrow> u64 \<Rightarrow> jstate \<Rightarrow> 'w service \<Rightarrow> bool" where
  "at_state L u n t s \<longleftrightarrow> rows_ok L (sv_rows s) \<and>
     (\<exists>e. entries_in L s u = Some e \<and> e_revision e = n \<and> e_state e = t)"

text \<open>At the end the entry is there in its last state, or retention has removed it.\<close>

definition ended :: "libs \<Rightarrow> uuid \<Rightarrow> u64 \<Rightarrow> jstate \<Rightarrow> 'w service \<Rightarrow> bool" where
  "ended L u n t s \<longleftrightarrow> rows_ok L (sv_rows s) \<and>
     (\<forall>e. entries_in L s u = Some e \<longrightarrow> e_revision e = n \<and> e_state e = t)"

lemma and_then_InrE:
  assumes "and_then m k s = (Inr y, s'')"
  obtains x s' where "m s = (Inr x, s')" and "k x s' = (Inr y, s'')"
  using assms unfolding and_then_Inr by blast

lemma ok_InrE:
  assumes "ok x s = (Inr y, s')"
  obtains "x = y" and "s = s'"
  using assms by simp

lemma lift_res_InrE:
  assumes "lift_res r s = (Inr y, s')"
  obtains "r = Inr y" and "s = s'"
  using assms by simp

lemma in_os_rows: "in_os f m s = (r, s') \<Longrightarrow> sv_rows s' = sv_rows s"
  by (auto dest!: in_os_run)

context libs_ok
begin

lemma transition_at:
  assumes "rows_ok L (sv_rows s)" and "in_journal (transition L S u n t) s = (Inr x, s')"
  shows "at_state L u (n + 1) t s'" and "e_revision x = n + 1"
    and "\<exists>t0. at_state L u n t0 s \<and> allowed t0 t"
  using transition_ok [OF assms] assms(1) by (auto simp: at_state_def)

lemma digest_at:
  assumes "at_state L u n t s" and "in_journal (set_sha256 L S v h) s = (r, s')"
  shows "at_state L u n t s'"
proof -
  have "rows_ok L (sv_rows s)" using assms(1) by (simp add: at_state_def)
  from in_journal_outcome [OF set_sha256_implements this assms(2)] assms(1) show ?thesis
    by (auto simp: at_state_def spec_set_sha256_def split: if_splits option.splits sum.splits)
qed

lemma at_state_rows: "at_state L u n t s \<Longrightarrow> rows_ok L (sv_rows s)"
  by (simp add: at_state_def)

lemma at_state_same: "at_state L u n t s \<Longrightarrow> at_state L u n' t' s \<Longrightarrow> n' = n \<and> t' = t"
  by (auto simp: at_state_def)

lemma approve_move_run:
  assumes "approve_move L S u q n s = (Inr x, s')"
  obtains name s1 where "sv_rows s1 = sv_rows s"
    and "approve_rename L S u q name n s1 = (Inr x, s') \<or> approve_copy L S u q name n s1 = (Inr x, s')"
proof -
  from assms [unfolded approve_move_def]
  obtain name s0 a s1 b s2 where "in_os SFs (device_fd S (pr_source_parent q)) s0 = (Inr a, s1)"
    and "in_os SFs (device_fd S (pr_folder_fd q)) s1 = (Inr b, s2)" and "s = s0"
    and run: "(if a = b then approve_rename L S u q name n else approve_copy L S u q name n) s2 = (Inr x, s')"
    by (elim and_then_InrE ok_InrE lift_res_InrE) (rule that)
  then have "sv_rows s2 = sv_rows s" by (simp add: in_os_rows)
  with run that show ?thesis by (cases "a = b") (simp_all, blast+)
qed

lemma rename_at:
  assumes "at_state L u n Approved s" and "approve_rename L S u q name n s = (Inr x, s')"
  shows "at_state L u (n + 1) Published s' \<and> e_revision x = n + 1"
  using assms(2) unfolding approve_rename_def
proof (rule and_then_InrE)
  fix y s2 assume "in_os SFs (same_filesystem_move_at S (pr_source_parent q) (pr_source_name q)
      (pr_folder_fd q) name (pr_expected q)) s = (Inr y, s2)"
    and t: "in_journal (transition L S u n Published) s2 = (Inr x, s')"
  then have "rows_ok L (sv_rows s2)" using assms(1) by (simp add: in_os_rows at_state_rows)
  from transition_at [OF this t] show ?thesis by simp
qed

lemma copy_at:
  assumes "at_state L u n Approved s" and "approve_copy L S u q name n s = (Inr x, s')"
  shows "at_state L u (n + 2) Published s' \<and> e_revision x = n + 2"
proof -
  from assms(2) [unfolded approve_copy_def]
  obtain e1 s2 h s3 s4 f s5 g s6 s7 y s8 k e2 where t1: "in_journal (transition L S u n Copying) s = (Inr e1, s2)"
    and s3: "in_os SFs (verified_stage_copy_at L S (pr_verified_fd q) (pr_folder_fd q) (staging_name L u) (pr_expected q)) s2 = (Inr h, s3)"
    and d: "in_journal (set_sha256 L S u h) s3 = (Inr k, s4)"
    and s5: "in_os SFs (publish_stage_at S (pr_folder_fd q) (staging_name L u) name) s4 = (Inr f, s5)"
    and s6: "in_os SFs (verify_at L S (pr_folder_fd q) name h) s5 = (Inr g, s6)"
    and t2: "in_journal (transition L S u (e_revision e1) Published) s6 = (Inr e2, s7)"
    and s8: "in_os SFs (retire_source_at L S (pr_source_parent q) (pr_source_name q) (pr_expected q) h) s7 = (Inr y, s8)"
    and fin: "e2 = x" "s8 = s'"
    by (elim and_then_InrE ok_InrE lift_res_InrE) (rule that)
  note a2 = transition_at [OF at_state_rows [OF assms(1)] t1]
  have "at_state L u (n + 1) Copying s3" using a2(1) in_os_rows [OF s3] by (simp add: at_state_def entries_in_def)
  from digest_at [OF this d] have "at_state L u (n + 1) Copying s6"
    using in_os_rows [OF s5] in_os_rows [OF s6] by (simp add: at_state_def entries_in_def)
  from transition_at [OF at_state_rows [OF this] t2] a2(2) in_os_rows [OF s8] fin show ?thesis
    by (simp add: at_state_def entries_in_def add.assoc)
qed

text \<open>A successful move took the entry from \<open>Approved\<close> to \<open>Published\<close>, through \<open>Copying\<close> or not.\<close>

lemma approve_move_at:
  assumes at: "at_state L u n Approved s" and m: "approve_move L S u q n s = (Inr x, s')"
  shows "at_state L u (e_revision x) Published s' \<and> (e_revision x = n + 1 \<or> e_revision x = n + 2)"
proof -
  obtain name s1 where "sv_rows s1 = sv_rows s"
    and run: "approve_rename L S u q name n s1 = (Inr x, s') \<or> approve_copy L S u q name n s1 = (Inr x, s')"
    by (rule approve_move_run [OF m])
  then have at1: "at_state L u n Approved s1" using at by (simp add: at_state_def entries_in_def)
  from run show ?thesis
  proof
    assume "approve_rename L S u q name n s1 = (Inr x, s')"
    from rename_at [OF at1 this] show ?thesis by simp
  next
    assume "approve_copy L S u q name n s1 = (Inr x, s')"
    from copy_at [OF at1 this] show ?thesis by simp
  qed
qed

lemma retention_ended:
  assumes "at_state L u n t s" and "enforce_journal_retention S s = (r, s')"
  shows "ended L u n t s'"
proof -
  from assms(2) obtain q where m: "in_journal (enforce_retention S MAX_TERMINAL_JOURNAL MAX_JOURNAL_AGE_SECONDS MAX_JOURNAL_BYTES) s = (q, s')"
    unfolding enforce_journal_retention_def and_then_def by (auto split: prod.splits sum.splits)
  from retention_entries(1) [OF at_state_rows [OF assms(1)] m] retention_entries(3) [OF at_state_rows [OF assms(1)] m, of u] assms(1) show ?thesis
    by (auto simp: ended_def at_state_def)
qed

lemma conclude_run:
  "conclude C S i k status s =
    (let st = update_proposal i (\<lambda>p. p\<lparr>p_revision := k, p_status := status\<rparr>) (sv_state s) in
     and_then (enforce_journal_retention S) (\<lambda>_. and_then (save C S) (\<lambda>_. ok (ps_proposals st ! i)))
       (s\<lparr>sv_state := prune_terminal_proposals st\<rparr>))"
  by (simp add: conclude_def Let_def and_then_def set_state_def state_of_def split: prod.split sum.split)

text \<open>The shared end: the proposal returned, the memory left, the entry, and the saved state.\<close>

lemma conclude_ok:
  assumes at: "at_state L u n t s" and i: "i < length (ps_proposals (sv_state s))"
    and m: "conclude C S i k status s = (Inr p, s')"
  shows "p = (ps_proposals (sv_state s) ! i)\<lparr>p_revision := k, p_status := status\<rparr>"
    and "sv_state s' = prune_terminal_proposals (update_proposal i (\<lambda>p. p\<lparr>p_revision := k, p_status := status\<rparr>) (sv_state s))"
    and "ended L u n t s'" and "\<exists>s1. save C S s1 = (Inr (), s')"
proof -
  let ?st = "update_proposal i (\<lambda>p. p\<lparr>p_revision := k, p_status := status\<rparr>) (sv_state s)"
  from m [unfolded conclude_run Let_def] obtain y s2 z s1 where p: "ps_proposals ?st ! i = p"
    and s2: "enforce_journal_retention S (s\<lparr>sv_state := prune_terminal_proposals ?st\<rparr>) = (Inr y, s2)"
    and s3: "save C S s2 = (Inr z, s1)" and fin: "s1 = s'"
    by (elim and_then_InrE ok_InrE) (rule that)
  show "p = (ps_proposals (sv_state s) ! i)\<lparr>p_revision := k, p_status := status\<rparr>"
    using p [symmetric] i by (simp add: update_proposal_def)
  show "sv_state s' = prune_terminal_proposals ?st"
    using memory_keptD [OF memory_kept_retention s2] memory_keptD [OF memory_kept_save s3] fin by simp
  have "at_state L u n t (s\<lparr>sv_state := prune_terminal_proposals ?st\<rparr>)"
    using at by (simp add: at_state_def entries_in_def)
  from retention_ended [OF this s2] save_state [OF s3] fin show "ended L u n t s'"
    by (auto simp: ended_def entries_in_def)
  show "\<exists>s1. save C S s1 = (Inr (), s')" using s3 fin by auto
qed

text \<open>
  A successful approval: the entry went from \<open>Proposed\<close> at the given revision through every state
  of a move to \<open>Completed\<close>, four transitions on one file system and five across two.
\<close>

lemma approve_ok:
  assumes ok: "rows_ok L (sv_rows s)" and m: "approve L C S pid n s = (Inr p, s')"
  obtains q s1 k where "approve_prepare L S pid n s = (Inr q, s1)" and "k = n + 4 \<or> k = n + 5"
    and "p = (ps_proposals (sv_state s) ! pr_index q)\<lparr>p_revision := k, p_status := ''completed''\<rparr>"
    and "\<exists>t. at_state L pid n t s \<and> allowed t Approved" and "ended L pid k Completed s'"
    and "\<exists>w. sv_state s' = prune_terminal_proposals (update_proposal (pr_index q)
           (\<lambda>p. p\<lparr>p_revision := k, p_status := ''completed''\<rparr>) w) \<and>
         w = update_proposal (pr_index q) (\<lambda>p. p\<lparr>p_revision := n + 1\<rparr>) (sv_state s)"
    and "\<exists>s1. save C S s1 = (Inr (), s')"
proof -
  from m [unfolded approve_def] obtain q s1 where q: "approve_prepare L S pid n s = (Inr q, s1)"
    and run: "approve_prepared L C S pid n q s1 = (Inr p, s')" by (elim and_then_InrE) (rule that)
  note pre = approve_prepare_ok [OF q]
  have s1: "sv_rows s1 = sv_rows s" "sv_state s1 = sv_state s" using pre(6) by auto
  let ?w = "update_proposal (pr_index q) (\<lambda>p. p\<lparr>p_revision := n + 1\<rparr>) (sv_state s)"
  from run [unfolded approve_prepared_def] obtain e1 s2 s3 x s4 e2 s5 e3 s6 e4 where
    t1: "in_journal (transition L S pid n Approved) s1 = (Inr e1, s2)"
    and u: "set_state (update_proposal (pr_index q) (\<lambda>p. p\<lparr>p_revision := e_revision e1\<rparr>)) s2 = (Inr x :: service_error + unit, s3)"
    and mv: "approve_move L S pid q (e_revision e1) s3 = (Inr e2, s4)"
    and t2: "in_journal (transition L S pid (e_revision e2) SourceRemoved) s4 = (Inr e3, s5)"
    and t3: "in_journal (transition L S pid (e_revision e3) Completed) s5 = (Inr e4, s6)"
    and c: "conclude C S (pr_index q) (e_revision e4) ''completed'' s6 = (Inr p, s')"
    by (elim and_then_InrE) (rule that)
  have ok1: "rows_ok L (sv_rows s1)" using ok s1 by simp
  note a1 = transition_at [OF ok1 t1]
  have s3: "s3 = s2\<lparr>sv_state := update_proposal (pr_index q) (\<lambda>p. p\<lparr>p_revision := n + 1\<rparr>) (sv_state s2)\<rparr>"
    using u a1(2) by (simp add: set_state_def)
  have "at_state L pid (e_revision e1) Approved s3" using a1(1,2) by (simp add: s3 at_state_def entries_in_def)
  note a2 = approve_move_at [OF this mv]
  note a3 = transition_at [OF at_state_rows [OF conjunct1 [OF a2]] t2]
  note a4 = transition_at [OF at_state_rows [OF a3(1)] t3]
  have m6: "sv_state s6 = ?w"
    using transition_ok(2) [OF at_state_rows [OF a3(1)] t3] transition_ok(2) [OF at_state_rows [OF conjunct1 [OF a2]] t2]
      memory_keptD [OF memory_kept_move mv] transition_ok(2) [OF ok1 t1] s1 by (simp add: s3)
  have k: "e_revision e4 = e_revision e2 + 1 + 1" using a3(2) a4(2) by simp
  have at6: "at_state L pid (e_revision e4) Completed s6" using a4(1) a3(2) k by simp
  have i: "pr_index q < length (ps_proposals (sv_state s6))" using pre(1) by (simp add: m6 update_proposal_def)
  note c' = conclude_ok [OF at6 i c]
  have "e_revision e2 = n + 2 \<or> e_revision e2 = n + 3" using a2 a1(2) by (auto simp: add.assoc)
  then have "e_revision e4 = n + 4 \<or> e_revision e4 = n + 5" using k by (auto simp: add.assoc)
  moreover have "\<exists>t. at_state L pid n t s \<and> allowed t Approved"
    using a1(3) s1 by (simp add: at_state_def entries_in_def)
  moreover have "p = (ps_proposals (sv_state s) ! pr_index q)\<lparr>p_revision := e_revision e4, p_status := ''completed''\<rparr>"
    using c'(1) pre(1) by (simp add: m6 update_proposal_def)
  ultimately show thesis using that [OF q, of "e_revision e4"] c'(2-4) by (simp add: m6)
qed

lemma undo_ok:
  assumes ok: "rows_ok L (sv_rows s)" and m: "undo L C S pid n s = (Inr p, s')"
  obtains q s1 where "undo_prepare L S pid n s = (Inr q, s1)"
    and "p = (ps_proposals (sv_state s) ! un_index q)\<lparr>p_revision := n + 2, p_status := ''undone''\<rparr>"
    and "\<exists>t. at_state L pid n t s \<and> allowed t Undoing" and "ended L pid (n + 2) Undone s'"
    and "sv_state s' = prune_terminal_proposals (update_proposal (un_index q)
           (\<lambda>p. p\<lparr>p_revision := n + 2, p_status := ''undone''\<rparr>) (sv_state s))"
    and "\<exists>s1. save C S s1 = (Inr (), s')"
proof -
  from m [unfolded undo_def] obtain q s1 where q: "undo_prepare L S pid n s = (Inr q, s1)"
    and run: "undo_prepared L C S pid n q s1 = (Inr p, s')" by (elim and_then_InrE) (rule that)
  note pre = undo_prepare_ok [OF q]
  have s1: "sv_rows s1 = sv_rows s" "sv_state s1 = sv_state s" using pre(6) by auto
  from run [unfolded undo_prepared_def] obtain e1 s2 a b y s3 e2 s4 where
    t1: "in_journal (transition L S pid n Undoing) s1 = (Inr e1, s2)"
    and mv: "in_os SFs (same_filesystem_move_at S (un_folder_fd q) a (un_source_parent q) b (un_expected q)) s2 = (Inr y, s3)"
    and t2: "in_journal (transition L S pid (e_revision e1) Undone) s3 = (Inr e2, s4)"
    and c: "conclude C S (un_index q) (e_revision e2) ''undone'' s4 = (Inr p, s')"
    by (elim and_then_InrE lift_res_InrE) (rule that, assumption, simp)
  have ok1: "rows_ok L (sv_rows s1)" using ok s1 by simp
  note a1 = transition_at [OF ok1 t1]
  have s3: "sv_rows s3 = sv_rows s2" "sv_state s3 = sv_state s2" using in_os_run [OF mv] by auto
  then have ok3: "rows_ok L (sv_rows s3)" using at_state_rows [OF a1(1)] by simp
  note a2 = transition_at [OF ok3 t2]
  have m4: "sv_state s4 = sv_state s" using transition_ok(2) [OF ok3 t2] transition_ok(2) [OF ok1 t1] s1 s3 by simp
  have k: "e_revision e2 = n + 2" using a1(2) a2(2) by (simp add: add.assoc)
  have at4: "at_state L pid (e_revision e2) Undone s4" using a2 by simp
  have i: "un_index q < length (ps_proposals (sv_state s4))" using pre(1) by (simp add: m4)
  note c' = conclude_ok [OF at4 i c]
  have "\<exists>t. at_state L pid n t s \<and> allowed t Undoing" using a1(3) s1 by (simp add: at_state_def entries_in_def)
  then show thesis using that [OF q] c' by (simp add: m4 k)
qed

end

end
