(* ===== verification/Reference_Service.thy ===== *)
theory Reference_Service
  imports Service_Frame Fs_Properties
begin

text \<open>
  A service over the small tree, for the witnesses: two folders, one watched and one for
  destinations, and one proposal for the letter. Its codec writes the states of a list by their
  position. It stands for no code of the repository.
\<close>

section \<open>A codec\<close>

text \<open>What the code relies on: a state that was written is read back as it was.\<close>

definition codec_ok :: "codec \<Rightarrow> bool" where
  "codec_ok C \<longleftrightarrow> (\<forall>st b. json_of_state C st = Some b \<longrightarrow> json_to_state C b = Some st)"

fun position_text :: "persistent list \<Rightarrow> persistent \<Rightarrow> bytes option" where
  "position_text [] st = None"
| "position_text (t # ts) st = (if st = t then Some ''.'' else map_option ((#) CHR ''.'') (position_text ts st))"

definition table_codec :: "persistent list \<Rightarrow> codec" where
  "table_codec ts = \<lparr>json_of_request = (\<lambda>_. None), json_to_response = (\<lambda>_. None), json_of_state = position_text ts,
     json_to_state = (\<lambda>b. if b = [] \<or> length b > length ts then None else Some (ts ! (length b - 1)))\<rparr>"

lemma position_text_nth:
  "position_text ts st = Some b \<Longrightarrow> b \<noteq> [] \<and> length b \<le> length ts \<and> ts ! (length b - 1) = st"
  by (induction ts arbitrary: b) (auto split: if_splits simp: nth_Cons')

lemma table_codec_ok: "codec_ok (table_codec ts)"
  by (auto simp: codec_ok_def table_codec_def dest: position_text_nth)

section \<open>The sample\<close>

abbreviation bills :: obj where "bills \<equiv> Obj 1 3"

definition house_tree :: sim where
  "house_tree = small_tree\<lparr>sim_entries := [((inbox, ''a''), letter), ((papers, ''bills''), bills)],
     sim_dirs := [(''/in'', inbox), (''/papers'', papers), (''/papers/bills'', bills)]\<rparr>"

definition letter_proposal :: proposal where
  "letter_proposal = \<lparr>p_id = 7, p_revision = 1, p_source_root_id = 1, p_source_relative = ''a'',
     p_source_display = ''/in/a'', p_destination = Some \<lparr>ch_root_id = 2, ch_directory = ''bills''\<rparr>,
     p_destination_name = None, p_destination_display = Some ''/papers/bills/a'', p_reason = ''a rule'',
     p_provenance = ''explicit_rule'', p_warning = None, p_status = ''proposed'', p_size = 3, p_device = 1,
     p_inode = 10, p_modified_ns = 5000000006\<rparr>"

definition house :: persistent where
  "house = fresh_state\<lparr>ps_roots := [\<lparr>rt_id = 1, rt_path = ''/in'', rt_watched = True, rt_destination = False\<rparr>,
       \<lparr>rt_id = 2, rt_path = ''/papers'', rt_watched = False, rt_destination = True\<rparr>],
     ps_proposals := [letter_proposal]\<rparr>"

definition letter_row :: row where
  "letter_row = row_of_entry ref_libs \<lparr>e_id = 7, e_revision = 1, e_state = Proposed, e_source_token = ''/in/a'',
     e_destination_token = ''/papers/bills/a'', e_size = 3, e_sha256 = None\<rparr> 1 3"

definition moved_house :: persistent where
  "moved_house = house\<lparr>ps_proposals := [letter_proposal\<lparr>p_revision := 5, p_status := ''completed''\<rparr>]\<rparr>"

definition undone_house :: persistent where
  "undone_house = house\<lparr>ps_proposals := [letter_proposal\<lparr>p_revision := 7, p_status := ''undone''\<rparr>]\<rparr>"

definition house_codec :: codec where
  "house_codec = table_codec [house, moved_house, undone_house]"

definition letter_service :: "sim service" where
  "letter_service = \<lparr>sv_state = house, sv_stability = (\<lambda>_. None), sv_rows = [letter_row],
     sv_db_path = ''/journal'', sv_world = house_tree\<rparr>"

lemma letter_service_ok: "rows_ok ref_libs (sv_rows letter_service)"
  by (auto simp: letter_service_def rows_ok_def row_ok_def letter_row_def row_of_entry_def
      intro: range_eqI [of _ _ Proposed])

section \<open>Running the service\<close>

lemma house_codec_run [run]: "json_of_state house_codec = position_text [house, moved_house, undone_house]"
  by (simp add: house_codec_def table_codec_def)

lemma letter_service_run [run]:
  "sv_state letter_service = house" "sv_rows letter_service = [letter_row]" "sv_world letter_service = house_tree"
  "sv_db_path letter_service = ''/journal''" "sv_stability letter_service = (\<lambda>_. None)"
  by (simp_all add: letter_service_def)

declare sql_def [run] stmt_select_def [run] stmt_update_def [run] stmt_delete_def [run] stmt_insert_def [run]
  get_entry_def [run] entry_of_row_def [run] transition_def [run] set_sha256_def [run] enforce_retention_def [run]
  prune_terminal_def [run] beyond_newest_def [run] by_age_def [run] in_world_def [run] terminal_text_def [run]
  parse_state_def [run] allowed_def [run] terminal_def [run] ref_uuid_text_def [run] ref_uuid_parse_def [run]
  int_text_def [run] int_parse_def [run] num_of_nat_numeral_eq [run]

declare in_os_def [run] in_journal_def [run] state_of_def [run] set_state_def [run] update_proposal_def [run]
  decode_relative_def [run] proposal_identity_def [run] find_root_def [run] proposal_index_def [run]
  source_path_def [run] destination_path_def [run] terminal_status_def [run] prune_terminal_proposals_def [run]
  save_def [run] enforce_journal_retention_def [run] MAX_STATE_BYTES_def [run] MAX_TERMINAL_JOURNAL_def [run]
  MAX_JOURNAL_AGE_SECONDS_def [run] MAX_JOURNAL_BYTES_def [run] open_source_parent_def [run] open_folder_def [run]
  check_folder_def [run] approve_prepare_def [run] staging_name_def [run] approve_rename_def [run] approve_copy_def [run]
  approve_move_def [run] conclude_def [run] approve_prepared_def [run] approve_def [run] path_exists_def [run]
  undo_prepare_def [run] undo_prepared_def [run] undo_def [run]

lemmas in_house = run small_tree_def letter_identity_def letter_file_def house_tree_def letter_row_def row_of_entry_def house_def fresh_state_def letter_proposal_def
  moved_house_def undone_house_def default_agent_def

definition moved_tree :: sim where
  "moved_tree = house_tree\<lparr>sim_entries := [((papers, ''bills''), bills), ((bills, ''a''), letter)],
     sim_state := Some ''..''\<rparr>"

definition approved_service :: "sim service" where
  "approved_service = letter_service\<lparr>sv_state := moved_house,
     sv_rows := [letter_row\<lparr>r_revision := 5, r_state := ''completed'', r_updated_at := 7\<rparr>], sv_world := moved_tree\<rparr>"

definition undone_service :: "sim service" where
  "undone_service = letter_service\<lparr>sv_state := undone_house,
     sv_rows := [letter_row\<lparr>r_revision := 7, r_state := ''undone'', r_updated_at := 7\<rparr>],
     sv_world := house_tree\<lparr>sim_entries := [((papers, ''bills''), bills), ((inbox, ''a''), letter)],
       sim_state := Some ''...''\<rparr>\<rparr>"

lemma approved_service_ok: "rows_ok ref_libs (sv_rows approved_service)"
  by (auto simp: approved_service_def rows_ok_def row_ok_def letter_row_def row_of_entry_def
      intro: range_eqI [of _ _ Completed])

lemma approve_prepare_house:
  "approve_prepare ref_libs sim_os 7 1 letter_service =
    (Inr \<lparr>pr_index = 0, pr_verified_fd = letter, pr_source_parent = inbox, pr_source_name = ''a'', pr_folder_fd = bills,
      pr_destination = ''/papers/bills/a'', pr_expected = letter_identity\<rparr>, letter_service)"
  by (simp add: in_house letter_service_def cong: and_then_step)

lemma approve_house:
  "approve ref_libs house_codec sim_os 7 1 letter_service =
    (Inr (letter_proposal\<lparr>p_revision := 5, p_status := ''completed''\<rparr>), approved_service)"
  by (simp add: in_house approved_service_def moved_tree_def cong: and_then_step)

lemma undo_house:
  "undo ref_libs house_codec sim_os 7 5 approved_service =
    (Inr (letter_proposal\<lparr>p_revision := 7, p_status := ''undone''\<rparr>), undone_service)"
  by (simp add: in_house approved_service_def undone_service_def moved_tree_def cong: and_then_step)

lemma house_codec_ok: "codec_ok house_codec"
  by (simp add: house_codec_def table_codec_ok)

text \<open>The same service as a process left it that stopped before it could complete the entry.\<close>

definition stopped_service :: "sim service" where
  "stopped_service = letter_service\<lparr>sv_rows := [letter_row\<lparr>r_revision := 4, r_state := ''source_removed''\<rparr>],
     sv_world := moved_tree\<rparr>"

definition restarted_house :: persistent where
  "restarted_house = house\<lparr>ps_proposals := [letter_proposal\<lparr>p_revision := 5, p_status := ''completed'',
     p_warning := Some ''Restart verified destination evidence and completed the journal''\<rparr>]\<rparr>"

definition restart_codec :: codec where
  "restart_codec = table_codec [restarted_house]"

definition restarted_service :: "sim service" where
  "restarted_service = letter_service\<lparr>sv_state := restarted_house,
     sv_rows := [letter_row\<lparr>r_revision := 5, r_state := ''completed'', r_updated_at := 7\<rparr>],
     sv_world := moved_tree\<lparr>sim_state := Some ''.''\<rparr>\<rparr>"

lemma stopped_service_ok: "rows_ok ref_libs (sv_rows stopped_service)"
  by (auto simp: stopped_service_def rows_ok_def row_ok_def letter_row_def row_of_entry_def
      intro: range_eqI [of _ _ SourceRemoved])

lemma restart_codec_run [run]: "json_of_state restart_codec = position_text [restarted_house]"
  by (simp add: restart_codec_def table_codec_def)

lemma uuid_of_seven [run]: "ref_uuid_parse ''111'' = Some 7"
  by code_simp

declare nonterminal_entries_def [run] nonterminal_rows_def [run] recover_without_guessing_def [run] recover_entry_def [run]
  evidence_def [run] source_is_absent_def [run] verify_recovery_destination_def [run] complete_entry_def [run]

lemma restart_house:
  "recover_without_guessing ref_libs restart_codec sim_os stopped_service = (Inr (), restarted_service)"
  by (simp add: in_house run stopped_service_def restarted_service_def restarted_house_def moved_tree_def cong: and_then_step)

text \<open>
  The reference world and library satisfy every law the service relies on, so the lemmas of the
  interfaces apply to the service running on them.
\<close>

interpretation bench: setting sim_os sim_view ref_libs
  by (intro setting.intro sim.posix_axioms reference.libs_ok_axioms)

end
