(* ===== verification/Move_Properties.thy ===== *)
theory Move_Properties
  imports Move_Results Reference_Service
begin

text \<open>
  The properties of \<open>approve\<close> and \<open>undo\<close>, over any system that keeps the contract \<open>posix\<close> and for
  every pattern of failing calls: no content is lost, the journal knows before the first file
  changes, and a success means what it says in the journal, in memory and on disk.
\<close>

section \<open>Approve\<close>

text \<open>C2. Whatever \<open>approve\<close> returns, no content is lost. Either no file has changed, or the checks
  passed and then: every entry but the source's is as before with its content, and the source's
  content is still under its name or, with the same digest, under the destination's.\<close>

theorem approve_keeps_content:
  assumes "posix S view" and "libs_ok L" and "approve L C S pid n s = (r, s')"
  shows "v_entry (files_of view s') = v_entry (files_of view s) \<and> v_file (files_of view s') = v_file (files_of view s) \<or>
    (\<exists>q s1 name. approve_prepare L S pid n s = (Inr q, s1) \<and> file_name (pr_destination q) = Some name \<and>
       kept L q name (files_of view s) (files_of view s'))"
  by (rule posix.approve_content [OF assms])

theorem approve_keeps_content_witness:
  "\<exists>q s1 name. approve_prepare ref_libs sim_os 7 1 letter_service = (Inr q, s1) \<and>
     file_name (pr_destination q) = Some name \<and>
     kept ref_libs q name (files_of sim_view letter_service) (files_of sim_view approved_service)"
proof -
  have "v_entry (files_of sim_view approved_service) \<noteq> v_entry (files_of sim_view letter_service)"
    by (rule notI, drule fun_cong [of _ _ bills], drule fun_cong [of _ _ "''a''"])
       (simp add: files_of_def approved_service_def moved_tree_def letter_service_def house_tree_def small_tree_def sim_view_def)
  then show ?thesis
    using approve_keeps_content [OF sim.posix_axioms reference.libs_ok_axioms approve_house] by blast
qed

text \<open>C3. A success means what it says: the proposal is the one asked for at the revision asked
  for, now completed at the journal's revision; the entry, proposed at that revision, is
  completed (or no longer kept); and the file is gone from its source and is, with the digest of
  its content, under a destination name that was free.\<close>

theorem approve_success:
  assumes "posix S view" and "libs_ok L" and "rows_ok L (sv_rows s)" and "approve L C S pid n s = (Inr p, s')"
  shows "\<exists>q s1 k. approve_prepare L S pid n s = (Inr q, s1) \<and> proposal_index (sv_state s) pid n = Inr (pr_index q) \<and>
    (k = n + 4 \<or> k = n + 5) \<and>
    p = (ps_proposals (sv_state s) ! pr_index q)\<lparr>p_revision := k, p_status := ''completed''\<rparr> \<and>
    (\<exists>t. at_state L pid n t s \<and> allowed t Approved) \<and> ended L pid k Completed s' \<and>
    (\<forall>f. v_file (files_of view s) (object_of (pr_expected q)) = Some f \<longrightarrow>
      (\<exists>name y g. file_name (pr_destination q) = Some name \<and> v_entry (files_of view s) (pr_folder_fd q) name = None \<and>
        v_entry (files_of view s') (pr_folder_fd q) name = Some y \<and> v_file (files_of view s') y = Some g \<and>
        lib_sha256 L (f_data g) = lib_sha256 L (f_data f) \<and>
        v_entry (files_of view s) (pr_source_parent q) (pr_source_name q) = Some (object_of (pr_expected q)) \<and>
        v_entry (files_of view s') (pr_source_parent q) (pr_source_name q) = None))"
proof -
  obtain q s1 k where q: "approve_prepare L S pid n s = (Inr q, s1)" and facts: "k = n + 4 \<or> k = n + 5"
    "p = (ps_proposals (sv_state s) ! pr_index q)\<lparr>p_revision := k, p_status := ''completed''\<rparr>"
    "\<exists>t. at_state L pid n t s \<and> allowed t Approved" "ended L pid k Completed s'"
    by (rule libs_ok.approve_ok [OF assms(2-4)])
  have arr: "after_files (arrived L pid q (files_of view s)) (files_of view s')"
    using posix.approve_effect [OF assms(1,2) q assms(4)] by simp
  show ?thesis
    using q facts approve_prepare_index [OF q] arrived_after_facts [OF arr] by blast
qed

theorem approve_success_witness:
  "\<exists>y g. v_entry (files_of sim_view approved_service) bills ''a'' = Some y \<and>
     v_file (files_of sim_view approved_service) y = Some g \<and> ref_sha256 (f_data g) = ref_sha256 ''abc''"
proof -
  obtain q s1 where q: "approve_prepare ref_libs sim_os 7 1 letter_service = (Inr q, s1)"
    and facts: "\<forall>f. v_file (files_of sim_view letter_service) (object_of (pr_expected q)) = Some f \<longrightarrow>
      (\<exists>name y g. file_name (pr_destination q) = Some name \<and> v_entry (files_of sim_view letter_service) (pr_folder_fd q) name = None \<and>
        v_entry (files_of sim_view approved_service) (pr_folder_fd q) name = Some y \<and> v_file (files_of sim_view approved_service) y = Some g \<and>
        lib_sha256 ref_libs (f_data g) = lib_sha256 ref_libs (f_data f) \<and>
        v_entry (files_of sim_view letter_service) (pr_source_parent q) (pr_source_name q) = Some (object_of (pr_expected q)) \<and>
        v_entry (files_of sim_view approved_service) (pr_source_parent q) (pr_source_name q) = None)"
    using approve_success [OF sim.posix_axioms reference.libs_ok_axioms letter_service_ok approve_house] by blast
  have "pr_folder_fd q = bills \<and> file_name (pr_destination q) = Some ''a'' \<and> object_of (pr_expected q) = letter"
    using q unfolding approve_prepare_house by (auto simp: run object_of_def letter_identity_def)
  moreover have "v_file (files_of sim_view letter_service) letter = Some letter_file"
    by (simp add: files_of_def letter_service_def house_tree_def small_tree_def sim_view_def)
  ultimately show ?thesis using facts by (auto simp: letter_file_def ref_libs_fields)
qed

text \<open>C19. The intent is recorded before anything moves: whatever \<open>approve\<close> returns and wherever it
  stopped, if a file changed then the entry has left \<open>Proposed\<close> for one of the states an approval
  takes it through, where a restart finds it.\<close>

theorem approve_records_first:
  assumes "posix S view" and "libs_ok L" and "rows_ok L (sv_rows s)" and "approve L C S pid n s = (r, s')"
  shows "files_of view s' = files_of view s \<or>
    rows_ok L (sv_rows s') \<and> (\<forall>e. entries_in L s' pid = Some e \<longrightarrow> e_state e \<in> approve_states)"
  using posix.approve_recorded [OF assms] by (auto simp: recorded_def)

theorem approve_records_first_witness:
  "map_option e_state (entries_in ref_libs approved_service 7) \<in> {None} \<union> Some ` approve_states"
proof -
  have "files_of sim_view approved_service \<noteq> files_of sim_view letter_service"
    by (rule notI, drule arg_cong [of _ _ v_state])
       (simp add: files_of_def approved_service_def moved_tree_def letter_service_def house_tree_def small_tree_def sim_view_def)
  then show ?thesis
    using approve_records_first [OF sim.posix_axioms reference.libs_ok_axioms letter_service_ok approve_house]
    by (cases "entries_in ref_libs approved_service 7") auto
qed

section \<open>Undo\<close>

text \<open>C5. Whatever \<open>undo\<close> returns, the files are as before or exactly the one rename back to the
  free source name of the file with the recorded identity has happened; on success it has, the
  proposal is undone two revisions on, and so is its entry.\<close>

theorem undo_returns:
  assumes "posix S view" and "libs_ok L" and "rows_ok L (sv_rows s)" and "undo L C S pid n s = (r, s')"
  shows "case r of
      Inr p \<Rightarrow> \<exists>q s1. undo_prepare L S pid n s = (Inr q, s1) \<and>
        p = (ps_proposals (sv_state s) ! un_index q)\<lparr>p_revision := n + 2, p_status := ''undone''\<rparr> \<and>
        ended L pid (n + 2) Undone s' \<and> after_files (returned q (files_of view s)) (files_of view s')
    | Inl e \<Rightarrow> files_of view s' = files_of view s \<or> (\<exists>q s1. undo_prepare L S pid n s = (Inr q, s1) \<and>
        after_files (\<lambda>u. u = files_of view s \<or> returned q (files_of view s) u) (files_of view s'))"
proof (cases r)
  case (Inr p)
  obtain q s1 where q: "undo_prepare L S pid n s = (Inr q, s1)"
    and facts: "p = (ps_proposals (sv_state s) ! un_index q)\<lparr>p_revision := n + 2, p_status := ''undone''\<rparr>"
      "ended L pid (n + 2) Undone s'"
    by (rule libs_ok.undo_ok [OF assms(2,3) assms(4) [unfolded Inr]])
  with posix.undo_effect [OF assms(1) q assms(4)] show ?thesis by (auto simp: Inr)
next
  case (Inl e)
  show ?thesis
  proof (cases "undo_prepare L S pid n s")
    case (Pair x s1)
    show ?thesis
    proof (cases x)
      case (Inl e')
      then show ?thesis
        using posix.undo_unprepared [OF assms(1) Pair [unfolded Inl]] assms(4) \<open>r = Inl e\<close>
          quietD [OF posix.quiet_undo_prepare [OF assms(1)] Pair] by simp
    next
      case (Inr q)
      from posix.undo_effect [OF assms(1) Pair [unfolded Inr] assms(4)] Pair Inr \<open>r = Inl e\<close> show ?thesis by auto
    qed
  qed
qed

theorem undo_returns_witness:
  "\<exists>q. after_files (returned q (files_of sim_view approved_service)) (files_of sim_view undone_service)"
  using undo_returns [OF sim.posix_axioms reference.libs_ok_axioms approved_service_ok undo_house] by auto

text \<open>An undo records its intent before the file moves: if a file changed, the entry is
  undoing or undone.\<close>

theorem undo_records_first:
  assumes "posix S view" and "libs_ok L" and "rows_ok L (sv_rows s)" and "undo L C S pid n s = (r, s')"
  shows "files_of view s' = files_of view s \<or>
    rows_ok L (sv_rows s') \<and> (\<forall>e. entries_in L s' pid = Some e \<longrightarrow> e_state e \<in> undo_states)"
  using posix.undo_recorded [OF assms] by (auto simp: recorded_def)

theorem undo_records_first_witness:
  "map_option e_state (entries_in ref_libs undone_service 7) \<in> {None} \<union> Some ` undo_states"
proof -
  have "files_of sim_view undone_service \<noteq> files_of sim_view approved_service"
    by (rule notI, drule arg_cong [of _ _ v_state])
       (simp add: files_of_def approved_service_def undone_service_def moved_tree_def sim_view_def)
  then show ?thesis
    using undo_records_first [OF sim.posix_axioms reference.libs_ok_axioms approved_service_ok undo_house]
    by (cases "entries_in ref_libs undone_service 7") auto
qed

end
