(* ===== verification/Recovery_Laws.thy ===== *)
theory Recovery_Laws
  imports Service_Memory
begin

text \<open>
  What recovery may do to the journal: an interrupted entry is completed only on evidence found in
  the files, and otherwise flagged; every other entry is left as it is.
\<close>

section \<open>Evidence\<close>

abbreviation proposal_of :: "persistent \<Rightarrow> uuid \<Rightarrow> proposal option" where
  "proposal_of st u \<equiv> List.find (\<lambda>p. p_id p = u) (ps_proposals st)"

text \<open>The source is gone, and at the destination is a file of the recorded size with the recorded
  digest or, before one was recorded, with the identity of the proposal.\<close>

definition proved :: "libs \<Rightarrow> fsview \<Rightarrow> (uuid \<Rightarrow> proposal option) \<Rightarrow> entry \<Rightarrow> bool" where
  "proved L v F e \<longleftrightarrow> v_lookup v (e_source_token e) = None \<and>
     (\<exists>p i f. F (e_id e) = Some p \<and> v_lookup v (e_destination_token e) = Some (object_of i) \<and>
        v_file v (object_of i) = Some f \<and> i = identity_of (object_of i) f \<and> id_size i = p_size p \<and>
        (case e_sha256 e of Some h \<Rightarrow> lib_sha256 L (f_data f) = h | None \<Rightarrow> i = proposal_identity p))"

definition plain_tokens :: "entry \<Rightarrow> bool" where
  "plain_tokens e \<longleftrightarrow> plain_path (e_source_token e) \<and> plain_path (e_destination_token e)"

context posix
begin

lemma source_is_absent_ok:
  assumes "source_is_absent S p w = (Inr True, w')" and "plain_path p"
  shows "v_lookup (view w) p = None"
  using assms lstat_absent by (auto simp: source_is_absent_def and_then_Inr)

lemma verify_recovery_ok:
  assumes m: "verify_recovery_destination L S d p h w = (Inr True, w')" and d: "plain_path d"
  shows "\<exists>i f. v_lookup (view w) d = Some (object_of i) \<and> v_file (view w) (object_of i) = Some f \<and>
    i = identity_of (object_of i) f \<and> id_size i = p_size p \<and>
    (case h of Some h \<Rightarrow> lib_sha256 L (f_data f) = h | None \<Rightarrow> i = proposal_identity p)"
proof -
  obtain r w1 where r: "identity_read S d w = (r, w1)" by fastforce
  have "\<exists>i. r = Inr i" using m r
    by (cases r) (auto simp: verify_recovery_destination_def and_then_def try_result_def)
  then obtain i where i: "identity_read S d w = (Inr i, w1)" using r by blast
  obtain f where f: "v_lookup (view w) d = Some (object_of i)" "v_file (view w) (object_of i) = Some f"
    "i = identity_of (object_of i) f" "view w1 = view w"
    using identity_read_ok [OF i d] by blast
  have sz: "id_size i = p_size p"
    using m i by (auto simp: verify_recovery_destination_def and_then_def try_result_def split: if_splits)
  have "case h of Some h \<Rightarrow> lib_sha256 L (f_data f) = h | None \<Rightarrow> i = proposal_identity p"
  proof (cases h)
    case None
    then show ?thesis using m i sz by (simp add: verify_recovery_destination_def and_then_def try_result_def)
  next
    case (Some x)
    obtain q w2 where q: "sha256 L S d w1 = (q, w2)" by fastforce
    then have "res_ok q = Some x"
      using m i sz Some by (simp add: verify_recovery_destination_def and_then_def try_result_def)
    then have q': "sha256 L S d w1 = (Inr x, w2)" using q by (cases q) auto
    have "x = lib_sha256 L (f_data f)" by (rule sha256_ok [OF q' d]) (use f(1,2,4) in simp_all)
    with Some show ?thesis by simp
  qed
  with f sz show ?thesis by blast
qed

lemma evidence_run:
  fixes s :: "'w service"
  assumes "evidence L S e s = (r, s')"
  shows "(\<exists>w. s' = s\<lparr>sv_world := w\<rparr>) \<and> files_of view s' = files_of view s"
    and "r = Inr True \<Longrightarrow> plain_tokens e \<Longrightarrow> proved L (files_of view s) (proposal_of (sv_state s)) e"
proof -
  have k: "keeps (\<lambda>t. (\<exists>w. t = s\<lparr>sv_world := w\<rparr>) \<and> files_of view t = files_of view s) (in_os f m)"
    if "quiet view m" for f and m :: "('w, 'x, 'y) io"
    by (rule keepsI) (use that in \<open>auto simp: files_of_def dest!: in_os_run dest: quietD\<close>)
  have "keeps (\<lambda>t. (\<exists>w. t = s\<lparr>sv_world := w\<rparr>) \<and> files_of view t = files_of view s) (evidence L S e)"
    unfolding evidence_def state_of_def by (intro keeps_and_then keeps_option keeps_pure k quiet_recovering)
  from keepsD [OF this _ assms] show "(\<exists>w. s' = s\<lparr>sv_world := w\<rparr>) \<and> files_of view s' = files_of view s"
    by (metis service.surjective service.update_convs(5))
  assume r: "r = Inr True" and pl: "plain_tokens e"
  from assms r obtain w1 p w2 where a: "source_is_absent S (e_source_token e) (sv_world s) = (Inr True :: errno + bool, w1)"
    and p: "proposal_of (sv_state s) (e_id e) = Some p"
    and v: "verify_recovery_destination L S (e_destination_token e) p (e_sha256 e) w1 = (Inr True :: errno + bool, w2)"
    unfolding evidence_def state_of_def
    by (auto simp: and_then_Inr in_os_Inr split: option.splits)
  have w1: "view w1 = view (sv_world s)" using quietD [OF quiet_recovering(3) a] .
  show "proved L (files_of view s) (proposal_of (sv_state s)) e"
    using source_is_absent_ok [OF a] verify_recovery_ok [OF v] p pl
    unfolding proved_def plain_tokens_def files_of_def w1 by auto
qed

end

section \<open>One entry\<close>

definition recovered :: "libs \<Rightarrow> fsview \<Rightarrow> (uuid \<Rightarrow> proposal option) \<Rightarrow> entry option \<Rightarrow> entry option \<Rightarrow> bool" where
  "recovered L v F a b \<longleftrightarrow> b = a \<or>
     (\<exists>e. a = Some e \<and> interrupted (e_state e) \<and> b = Some (e\<lparr>e_state := NeedsAttention, e_revision := e_revision e + 1\<rparr>)) \<or>
     (\<exists>e. a = Some e \<and> e_state e = SourceRemoved \<and> proved L v F e \<and>
       b = Some (e\<lparr>e_state := Completed, e_revision := e_revision e + 1\<rparr>))"

text \<open>What becomes of an interrupted entry: it is completed on evidence, or it is flagged.\<close>

definition decided :: "libs \<Rightarrow> fsview \<Rightarrow> (uuid \<Rightarrow> proposal option) \<Rightarrow> entry \<Rightarrow> entry option \<Rightarrow> bool" where
  "decided L v F e b \<longleftrightarrow> b = Some (e\<lparr>e_state := NeedsAttention, e_revision := e_revision e + 1\<rparr>) \<or>
     e_state e = SourceRemoved \<and> proved L v F e \<and> b = Some (e\<lparr>e_state := Completed, e_revision := e_revision e + 1\<rparr>)"

lemma recovered_decided: "recovered L v F (Some e) b \<Longrightarrow> b \<noteq> Some e \<Longrightarrow> decided L v F e b"
  by (auto simp: recovered_def decided_def)

text \<open>Where the run stands: the entries still to come are as they were, with their proposals.\<close>

definition recovering ::
  "('w \<Rightarrow> fsview) \<Rightarrow> libs \<Rightarrow> fsview \<Rightarrow> (uuid \<Rightarrow> proposal option) \<Rightarrow> entries \<Rightarrow> uuid set \<Rightarrow> 'w service \<Rightarrow> bool" where
  "recovering view L v F A ids s \<longleftrightarrow> rows_ok L (sv_rows s) \<and> files_of view s = v \<and>
     (\<forall>u. recovered L v F (A u) (entries_in L s u)) \<and>
     (\<forall>u \<in> ids. entries_in L s u = A u \<and> proposal_of (sv_state s) u = F u)"

text \<open>What is left after the transition: the files and the table stay, one proposal changes.\<close>

definition aside :: "('w \<Rightarrow> fsview) \<Rightarrow> uuid \<Rightarrow> 'w service \<Rightarrow> 'w service \<Rightarrow> bool" where
  "aside view i s t \<longleftrightarrow> sv_rows t = sv_rows s \<and> files_of view t = files_of view s \<and>
     (\<forall>u. u \<noteq> i \<longrightarrow> proposal_of (sv_state t) u = proposal_of (sv_state s) u)"

lemma find_update_first:
  assumes "\<And>p. p_id (f p) = p_id p" and "u \<noteq> i"
  shows "List.find (\<lambda>p. p_id p = u) (update_first i f ps) = List.find (\<lambda>p. p_id p = u) ps"
  by (induction ps) (use assms in auto)

lemma recovering_weaken: "recovering view L v F A ids s \<Longrightarrow> ids' \<subseteq> ids \<Longrightarrow> recovering view L v F A ids' s"
  by (auto simp: recovering_def)

lemma recovering_aside:
  assumes "recovering view L v F A ids s" and "aside view i s t" and "i \<notin> ids"
  shows "recovering view L v F A ids t"
proof -
  have "entries_in L t = entries_in L s" using assms(2) by (simp add: aside_def entries_in_def fun_eq_iff)
  then show ?thesis using assms by (auto simp: recovering_def aside_def)
qed

context setting
begin

lemma transition_recovering:
  assumes r: "recovering view L v F A (insert (e_id e) ids) s" and new: "e_id e \<notin> ids" and A: "A (e_id e) = Some e"
    and m: "in_journal (transition L S (e_id e) (e_revision e) t) s = (x, s')"
    and t: "recovered L v F (Some e) (Some (e\<lparr>e_state := t, e_revision := e_revision e + 1\<rparr>))"
  shows "recovering view L v F A ids s' \<and> sv_state s' = sv_state s"
proof -
  have ok: "rows_ok L (sv_rows s)" and now: "entries_in L s (e_id e) = Some e" using r A by (auto simp: recovering_def)
  have q: "files_of view s' = files_of view s" using quietD [OF quiet_in_journal [OF quiet_journal(2)] m] .
  have "rows_ok L (sv_rows s') \<and> sv_state s' = sv_state s \<and> (entries_in L s' = entries_in L s \<or>
    entries_in L s' = (entries_in L s)(e_id e \<mapsto> e\<lparr>e_state := t, e_revision := e_revision e + 1\<rparr>))"
  proof (cases x)
    case (Inl y)
    from transition_err [OF ok m [unfolded Inl]] now show ?thesis by auto
  next
    case (Inr y)
    from transition_ok [OF ok m [unfolded Inr]] now show ?thesis by auto
  qed
  then show ?thesis using r new A t q by (auto simp: recovering_def)
qed

lemma aside_steps:
  "quiet view m \<Longrightarrow> keeps (aside view i s) (in_os f m)" "keeps (aside view i s) (state_of g)"
  "(\<And>p. p_id (h p) = p_id p) \<Longrightarrow>
    keeps (aside view i s) (set_state (\<lambda>st. st\<lparr>ps_proposals := update_first i h (ps_proposals st)\<rparr>))"
proof -
  show "quiet view m \<Longrightarrow> keeps (aside view i s) (in_os f m)"
    by (rule keepsI) (auto simp: aside_def files_of_def dest!: in_os_run dest: quietD)
  show "keeps (aside view i s) (state_of g)" by (simp add: state_of_def)
  show "keeps (aside view i s) (set_state (\<lambda>st. st\<lparr>ps_proposals := update_first i h (ps_proposals st)\<rparr>))"
    if "\<And>p. p_id (h p) = p_id p"
    unfolding set_state_def
    by (rule keeps_modify) (auto simp: aside_def files_of_def find_update_first [of h, OF that])
qed

text \<open>A transition of the entry, then steps aside.\<close>

lemma then_aside:
  assumes r: "recovering view L v F A (insert (e_id e) ids) s" and new: "e_id e \<notin> ids" and A: "A (e_id e) = Some e"
    and t: "recovered L v F (Some e) (Some (e\<lparr>e_state := t, e_revision := e_revision e + 1\<rparr>))"
    and k: "\<And>c s. keeps (aside view (e_id e) s) (k c)"
    and m: "and_then (in_journal (transition L S (e_id e) (e_revision e) t)) k s = (x, s')"
  shows "recovering view L v F A ids s'"
proof -
  obtain y s1 where y: "in_journal (transition L S (e_id e) (e_revision e) t) s = (y, s1)" by fastforce
  have r1: "recovering view L v F A ids s1" using transition_recovering [OF r new A y t] by simp
  show ?thesis
  proof (cases y)
    case (Inl z)
    with m y r1 show ?thesis by (simp add: and_then_def)
  next
    case (Inr c)
    then have "k c s1 = (x, s')" using m y by (simp add: and_then_def)
    with keepsD [OF k [of s1 c], of s1] have "aside view (e_id e) s1 s'" by (simp add: aside_def)
    with recovering_aside [OF r1 this new] show ?thesis by simp
  qed
qed

lemma recover_entry_step:
  assumes r: "recovering view L v F A (insert (e_id e) ids) s" and new: "e_id e \<notin> ids" and A: "A (e_id e) = Some e"
    and pl: "e_state e = SourceRemoved \<Longrightarrow> plain_tokens e" and m: "recover_entry L S e s = (x, s')"
  shows "recovering view L v F A ids s'"
proof -
  have F: "proposal_of (sv_state s) (e_id e) = F (e_id e)" and v: "files_of view s = v" using r by (auto simp: recovering_def)
  obtain y s1 where y: "(if e_state e = SourceRemoved then evidence L S e else ok False) s = (y, s1)" by fastforce
  have s1: "\<exists>w. s1 = s\<lparr>sv_world := w\<rparr> \<and> view w = view (sv_world s)"
  proof (cases "e_state e = SourceRemoved")
    case True
    with evidence_run(1) [of L e s y s1] y show ?thesis by (auto simp: files_of_def)
  next
    case False
    with y show ?thesis by (intro exI [of _ "sv_world s"]) simp
  qed
  then have r1: "recovering view L v F A (insert (e_id e) ids) s1" using r by (auto simp: recovering_def files_of_def entries_in_def)
  show ?thesis
  proof (cases y)
    case (Inl z)
    then have "s' = s1" using m y by (simp add: recover_entry_def and_then_def)
    with recovering_weaken [OF r1] show ?thesis by blast
  next
    case (Inr c)
    then have run: "(if c then complete_entry L S e else if interrupted (e_state e) then flag_entry L S e else ok ()) s1 = (x, s')"
      using m y by (simp add: recover_entry_def and_then_def)
    consider (done_) c | (flag) "\<not> c" "interrupted (e_state e)" | (skip) "\<not> c" "\<not> interrupted (e_state e)" by blast
    then show ?thesis
    proof cases
      case done_
      then have "e_state e = SourceRemoved" and "evidence L S e s = (Inr True, s1)"
        using y Inr by (auto split: if_splits)
      with evidence_run(2) [OF this(2) refl pl [OF this(1)]] F v have t: "recovered L v F (Some e)
          (Some (e\<lparr>e_state := Completed, e_revision := e_revision e + 1\<rparr>))"
        by (auto simp: recovered_def proved_def)
      show ?thesis
        by (rule then_aside [OF r1 new A t _ run [unfolded complete_entry_def if_P [OF done_]]]) (rule aside_steps, simp)
    next
      case flag
      have t: "recovered L v F (Some e) (Some (e\<lparr>e_state := NeedsAttention, e_revision := e_revision e + 1\<rparr>))"
        using flag by (simp add: recovered_def)
      have run': "flag_entry L S e s1 = (x, s')" using run flag by simp
      show ?thesis
        by (rule then_aside [OF r1 new A t _ run' [unfolded flag_entry_def]])
           (intro keeps_and_then keeps_option keeps_pure aside_steps quiet_recovering, simp)
    next
      case skip
      with run recovering_weaken [OF r1] show ?thesis by auto
    qed
  qed
qed

lemma recover_entries_step:
  assumes "recovering view L v F A (e_id ` set es) s" and "distinct (map e_id es)"
    and "\<forall>e \<in> set es. A (e_id e) = Some e \<and> (e_state e = SourceRemoved \<longrightarrow> plain_tokens e)" and "recover_entries L S es s = (x, s')"
  shows "recovering view L v F A {} s'"
  using assms
proof (induction es arbitrary: s)
  case (Cons e es)
  obtain y s1 where y: "recover_entry L S e s = (y, s1)" by fastforce
  have r1: "recovering view L v F A (e_id ` set es) s1"
    by (rule recover_entry_step [OF _ _ _ _ y]) (use Cons.prems in auto)
  show ?case
  proof (cases y)
    case (Inl z)
    then have "s' = s1" using Cons.prems(4) y by (simp add: and_then_def)
    with recovering_weaken [OF r1] show ?thesis by blast
  next
    case (Inr u)
    then have "recover_entries L S es s1 = (x, s')" using Cons.prems(4) y by (simp add: and_then_def)
    with Cons.IH [OF r1] Cons.prems(2,3) show ?thesis by simp
  qed
qed (auto intro: recovering_weaken)

text \<open>A successful step settles its entry and leaves every other as it was.\<close>

lemma then_aside_ok:
  assumes ok: "rows_ok L (sv_rows s)" and e: "entries_in L s (e_id e) = Some e"
    and k: "\<And>c s. keeps (aside view (e_id e) s) (k c)"
    and m: "and_then (in_journal (transition L S (e_id e) (e_revision e) t)) k s = (Inr x, s')"
  shows "rows_ok L (sv_rows s') \<and>
    entries_in L s' = (entries_in L s)(e_id e \<mapsto> e\<lparr>e_state := t, e_revision := e_revision e + 1\<rparr>)"
proof -
  from m obtain c s1 where c: "in_journal (transition L S (e_id e) (e_revision e) t) s = (Inr c, s1)"
    and run: "k c s1 = (Inr x, s')" unfolding and_then_Inr by blast
  have "sv_rows s' = sv_rows s1" using keepsD [OF k [of s1 c] _ run] by (simp add: aside_def)
  with transition_ok [OF ok c] e show ?thesis by (auto simp: entries_in_def fun_eq_iff)
qed

lemma recover_entry_settles:
  assumes ok: "rows_ok L (sv_rows s)" and e: "entries_in L s (e_id e) = Some e"
    and m: "recover_entry L S e s = (Inr x, s')"
  shows "rows_ok L (sv_rows s') \<and> (\<exists>e'. entries_in L s' = (entries_in L s)(e_id e \<mapsto> e') \<and> \<not> interrupted (e_state e'))"
proof -
  from m obtain c s1 where y: "(if e_state e = SourceRemoved then evidence L S e else ok False) s = (Inr c, s1)"
    and run: "(if c then complete_entry L S e else if interrupted (e_state e) then flag_entry L S e else ok ()) s1 = (Inr x, s')"
    unfolding recover_entry_def and_then_Inr by blast
  have "sv_rows s1 = sv_rows s"
  proof (cases "e_state e = SourceRemoved")
    case True
    with evidence_run(1) [of L e s "Inr c" s1] y show ?thesis by auto
  qed (use y in simp)
  then have ok1: "rows_ok L (sv_rows s1)" and eq: "entries_in L s1 = entries_in L s" using ok by (simp_all add: entries_in_def fun_eq_iff)
  consider (done_) c | (flag) "\<not> c" "interrupted (e_state e)" | (skip) "\<not> c" "\<not> interrupted (e_state e)" by blast
  then show ?thesis
  proof cases
    case done_
    have "rows_ok L (sv_rows s') \<and> entries_in L s' = (entries_in L s1)(e_id e \<mapsto> e\<lparr>e_state := Completed, e_revision := e_revision e + 1\<rparr>)"
      by (rule then_aside_ok [OF ok1 _ _ run [unfolded complete_entry_def if_P [OF done_]]])
         (simp add: eq e, rule aside_steps, simp)
    then show ?thesis by (auto simp: eq interrupted_def)
  next
    case flag
    have run': "flag_entry L S e s1 = (Inr x, s')" using run flag by simp
    have "rows_ok L (sv_rows s') \<and> entries_in L s' = (entries_in L s1)(e_id e \<mapsto> e\<lparr>e_state := NeedsAttention, e_revision := e_revision e + 1\<rparr>)"
      by (rule then_aside_ok [OF ok1 _ _ run' [unfolded flag_entry_def]])
         (simp add: eq e, intro keeps_and_then keeps_option keeps_pure aside_steps quiet_recovering, simp)
    then show ?thesis by (auto simp: eq interrupted_def)
  next
    case skip
    with run have "s' = s1" by simp
    with skip ok1 eq e show ?thesis by (intro conjI exI [of _ e]) (auto simp: fun_eq_iff)
  qed
qed

lemma recover_entries_settle:
  assumes "rows_ok L (sv_rows s)" and "distinct (map e_id es)" and "\<forall>e \<in> set es. entries_in L s (e_id e) = Some e"
    and "recover_entries L S es s = (Inr x, s')"
  shows "rows_ok L (sv_rows s') \<and> (\<forall>u. u \<notin> e_id ` set es \<longrightarrow> entries_in L s' u = entries_in L s u) \<and>
    (\<forall>u \<in> e_id ` set es. \<exists>e'. entries_in L s' u = Some e' \<and> \<not> interrupted (e_state e'))"
  using assms
proof (induction es arbitrary: s)
  case (Cons e es)
  from Cons.prems(4) obtain y s1 where y: "recover_entry L S e s = (Inr y, s1)"
    and run: "recover_entries L S es s1 = (Inr x, s')" by (auto simp: and_then_Inr)
  have e: "entries_in L s (e_id e) = Some e" using Cons.prems(3) by simp
  obtain e' where s1: "rows_ok L (sv_rows s1)" "entries_in L s1 = (entries_in L s)(e_id e \<mapsto> e')" "\<not> interrupted (e_state e')"
    using recover_entry_settles [OF Cons.prems(1) e y] by blast
  have new: "e_id e \<notin> e_id ` set es" using Cons.prems(2) by auto
  have "\<forall>d \<in> set es. entries_in L s1 (e_id d) = Some d"
  proof
    fix d assume "d \<in> set es"
    then have "e_id d \<noteq> e_id e" using new by (metis imageI)
    with \<open>d \<in> set es\<close> Cons.prems(3) show "entries_in L s1 (e_id d) = Some d" by (simp add: s1(2))
  qed
  with Cons.IH [OF s1(1) _ _ run] Cons.prems(2) s1(2,3) new show ?case by auto
qed simp

text \<open>The whole: the listing, the entries, the save.\<close>

lemma recover_run:
  assumes ok: "rows_ok L (sv_rows s)" and m: "recover_without_guessing L C S s = (r, s')"
  obtains (unlisted) d where "r = Inl d" and "sv_rows s' = sv_rows s" and "files_of view s' = files_of view s"
  | (listed) es s1 x s2 where "distinct (map e_id es)" and "e_id ` set es = oldest_active L (sv_rows s)"
    and "\<forall>e \<in> set es. entries_in L s (e_id e) = Some e \<and> \<not> terminal (e_state e)"
    and "sv_rows s1 = sv_rows s" and "sv_state s1 = sv_state s" and "files_of view s1 = files_of view s"
    and "recover_entries L S es s1 = (x, s2)" and "sv_rows s' = sv_rows s2" and "same_files (files_of view s2) (files_of view s')"
    and "\<And>z. r = Inr z \<Longrightarrow> x = Inr ()"
proof -
  obtain y s1 where y: "in_journal (nonterminal_entries L S) s = (y, s1)" by fastforce
  then obtain q j where j: "nonterminal_entries L S (journal_of s) = (q, j)" and yq: "y = map_res_err SJournal q"
    and s1: "s1 = s\<lparr>sv_rows := j_rows j, sv_world := j_world j\<rparr>" by (blast dest: in_journal_run)
  have rows: "sv_rows s1 = sv_rows s" using keepsD [OF reading_keeps_rows(2) _ j, of "sv_rows s"] by (simp add: s1)
  have files: "files_of view s1 = files_of view s" using quietD [OF quiet_in_journal [OF quiet_nonterminal] y] .
  show thesis
  proof (cases q)
    case (Inl d)
    then have "y = Inl (SJournal d)" by (simp add: yq)
    with m y have "s' = s1" "r = Inl (SJournal d)" by (simp_all add: recover_without_guessing_def and_then_def)
    with rows files show thesis by (intro unlisted) auto
  next
    case (Inr es)
    then have yes: "y = Inr es" by (simp add: yq)
    have "rows_ok L (j_rows (journal_of s))" using ok by simp
    note l = nonterminal_listed [OF this j [unfolded Inr]]
    obtain x s2 where x: "recover_entries L S es s1 = (x, s2)" by fastforce
    have "sv_rows s' = sv_rows s2 \<and> same_files (files_of view s2) (files_of view s') \<and> (\<forall>z. r = Inr z \<longrightarrow> x = Inr ())"
    proof (cases x)
      case (Inl d)
      with m y yes x show ?thesis by (simp add: recover_without_guessing_def and_then_def)
    next
      case (Inr u)
      with m y yes x have sv: "save C S s2 = (r, s')" by (simp add: recover_without_guessing_def and_then_def)
      have "sv_rows s' = sv_rows s2" using save_state [OF sv] by auto
      with Inr files_onlyD [OF files_only_save sv] show ?thesis by simp
    qed
    with l x rows files s1 show thesis by (intro listed [of es s1 x s2]) (auto simp: entries_in_def)
  qed
qed

lemma recover_evidence:
  assumes ok: "rows_ok L (sv_rows s)"
    and pl: "\<And>u e. entries_in L s u = Some e \<Longrightarrow> e_state e = SourceRemoved \<Longrightarrow> plain_tokens e"
    and m: "recover_without_guessing L C S s = (r, s')"
  shows "rows_ok L (sv_rows s') \<and> same_files (files_of view s) (files_of view s') \<and>
    recovered L (files_of view s) (proposal_of (sv_state s)) (entries_in L s u) (entries_in L s' u)"
  using ok m
proof (rule recover_run)
  fix d assume "sv_rows s' = sv_rows s" and "files_of view s' = files_of view s"
  then show ?thesis using ok by (simp add: entries_in_def recovered_def)
next
  fix es s1 x s2
  assume d: "distinct (map e_id es)" and es: "\<forall>e \<in> set es. entries_in L s (e_id e) = Some e \<and> \<not> terminal (e_state e)"
    and s1: "sv_rows s1 = sv_rows s" "sv_state s1 = sv_state s" "files_of view s1 = files_of view s"
    and run: "recover_entries L S es s1 = (x, s2)" and e: "sv_rows s' = sv_rows s2" "same_files (files_of view s2) (files_of view s')"
  have "recovering view L (files_of view s) (proposal_of (sv_state s)) (entries_in L s) (e_id ` set es) s1"
    using ok s1 by (simp add: recovering_def recovered_def entries_in_def)
  from recover_entries_step [OF this d _ run] es pl
  have "recovering view L (files_of view s) (proposal_of (sv_state s)) (entries_in L s) {} s2" by blast
  then show ?thesis using e by (simp add: recovering_def entries_in_def)
qed

lemma recover_settles:
  assumes ok: "rows_ok L (sv_rows s)" and m: "recover_without_guessing L C S s = (Inr z, s')"
  shows "(u \<in> oldest_active L (sv_rows s) \<longrightarrow> (\<exists>e. entries_in L s' u = Some e \<and> \<not> interrupted (e_state e))) \<and>
    (u \<notin> oldest_active L (sv_rows s) \<longrightarrow> entries_in L s' u = entries_in L s u)"
  using ok m
proof (rule recover_run)
  fix d :: service_error assume "(Inr z :: service_error + unit) = Inl d"
  then show ?thesis by simp
next
  fix es s1 x s2
  assume d: "distinct (map e_id es)" and all: "e_id ` set es = oldest_active L (sv_rows s)"
    and es: "\<forall>e \<in> set es. entries_in L s (e_id e) = Some e \<and> \<not> terminal (e_state e)"
    and s1: "sv_rows s1 = sv_rows s" "sv_state s1 = sv_state s" "files_of view s1 = files_of view s"
    and run: "recover_entries L S es s1 = (x, s2)" and e': "sv_rows s' = sv_rows s2"
    and x: "\<And>y. (Inr z :: service_error + unit) = Inr y \<Longrightarrow> x = Inr ()"
  have eq: "entries_in L s1 = entries_in L s" "entries_in L s' = entries_in L s2"
    using s1 e' by (simp_all add: entries_in_def fun_eq_iff)
  have "rows_ok L (sv_rows s1)" using ok s1 by simp
  note settled = recover_entries_settle [OF this d _ run [unfolded x [OF refl]]]
  show ?thesis using settled es unfolding eq all by blast
qed

text \<open>So an entry that is interrupted after a success is one the listing has not reached.\<close>

lemma recover_leaves_unlisted:
  assumes ok: "rows_ok L (sv_rows s)" and m: "recover_without_guessing L C S s = (Inr z, s')"
    and e: "entries_in L s' u = Some e" and i: "interrupted (e_state e)"
  shows "u \<in> unlisted L (sv_rows s)"
proof -
  have "u \<notin> oldest_active L (sv_rows s)" and same: "entries_in L s u = Some e"
    using recover_settles [OF ok m, of u] e i by auto
  moreover have "\<not> terminal (e_state e)" using i by (auto simp: terminal_def interrupted_def)
  ultimately show ?thesis by (auto simp: unlisted_def active_ids_def entries_in_def)
qed

lemma recover_decides:
  assumes ok: "rows_ok L (sv_rows s)"
    and pl: "\<And>u e. entries_in L s u = Some e \<Longrightarrow> e_state e = SourceRemoved \<Longrightarrow> plain_tokens e"
    and m: "recover_without_guessing L C S s = (Inr z, s')"
    and u: "u \<in> oldest_active L (sv_rows s)" "entries_in L s u = Some e" "interrupted (e_state e)"
  shows "decided L (files_of view s) (proposal_of (sv_state s)) e (entries_in L s' u)"
proof (rule recovered_decided)
  show "recovered L (files_of view s) (proposal_of (sv_state s)) (Some e) (entries_in L s' u)"
    using recover_evidence [where u = u, OF ok pl m] u(2) by simp
  show "entries_in L s' u \<noteq> Some e" using recover_settles [OF ok m, of u] u(1,3) by auto
qed

end

end
