(* ===== verification/Restart_Laws.thy ===== *)
theory Restart_Laws
  imports Recovery_Laws Move_Results
begin

text \<open>
  What \<open>Service::open\<close> makes of what a stopped process left: the user's files stay, an entry is
  settled, kept, or removed by retention, and a recorded intent is still recorded.
\<close>

section \<open>The steps before recovery\<close>

context setting
begin

lemma journal_open_rows: "in_journal (journal_open S) s = (r, s') \<Longrightarrow> sv_rows s' = sv_rows s"
  using keepsD [OF reading_keeps_rows(3), of "journal_of s" "sv_rows s"] by (auto dest!: in_journal_run)

text \<open>A successful start reads, retires terminal entries, and recovers.\<close>

lemma open_service_run:
  assumes ok: "rows_ok L (sv_rows t)" and m: "open_service L C S t = (Inr z, t')"
  obtains t1 where "rows_ok L (sv_rows t1)" and "files_of view t1 = files_of view t"
    and "\<And>u. entries_in L t1 u = entries_in L t u \<or>
      entries_in L t1 u = None \<and> (\<exists>e. entries_in L t u = Some e \<and> terminal (e_state e))"
    and "unlisted L (sv_rows t1) = unlisted L (sv_rows t)"
    and "recover_without_guessing L C S t1 = (Inr z, t')"
proof -
  from m [unfolded open_service_def enforce_journal_retention_def]
  obtain a sa b sb c sc x sd d se sg y sf where
    steps: "in_os SIo (os_state_mkdir S) t = (Inr a, sa)" "in_os id (load_state C S) sa = (Inr b, sb)"
      "in_journal (journal_open S) sb = (Inr c, sc)"
    and sd: "modify (\<lambda>s. s\<lparr>sv_state := b, sv_stability := \<lambda>_. None\<rparr>) sc = (Inr x :: service_error + unit, sd)"
    and ret: "in_journal (enforce_retention S MAX_TERMINAL_JOURNAL MAX_JOURNAL_AGE_SECONDS MAX_JOURNAL_BYTES) sd = (Inr d, se)"
    and sg: "se = sg" and sf: "set_state prune_terminal_proposals sg = (Inr y :: service_error + unit, sf)"
    and rec: "recover_without_guessing L C S sf = (Inr z, t')"
    by (elim and_then_InrE ok_InrE) (rule that)
  have sd': "sd = sc\<lparr>sv_state := b, sv_stability := \<lambda>_. None\<rparr>" using sd by (simp add: modify_def)
  have rows: "sv_rows sd = sv_rows t"
    using in_os_rows [OF steps(1)] in_os_rows [OF steps(2)] journal_open_rows [OF steps(3)] by (simp add: sd')
  have files: "files_of view sd = files_of view t"
    using quietD [OF quiet_in_os [OF quiet_calls(26)] steps(1)] quietD [OF quiet_in_os [OF quiet_recovering(7)] steps(2)]
      quietD [OF quiet_in_journal [OF quiet_journal_open] steps(3)] by (simp add: sd' files_of_def)
  have sf': "sv_rows sf = sv_rows se" "files_of view sf = files_of view se"
    using sf sg by (auto simp: set_state_def modify_def files_of_def)
  have "rows_ok L (sv_rows sd)" using ok rows by simp
  note r = retention_entries [OF this ret]
  have entries: "entries_in L sf u = entries_in L t u \<or>
      entries_in L sf u = None \<and> (\<exists>e. entries_in L t u = Some e \<and> terminal (e_state e))" for u
    using r(3) [of u] sf' rows by (simp add: entries_in_def)
  have "active_ids (entries_in L sf) = active_ids (entries_in L t)"
  proof (rule set_eqI)
    show "u \<in> active_ids (entries_in L sf) \<longleftrightarrow> u \<in> active_ids (entries_in L t)" for u
      using entries [of u] by (cases "entries_in L t u") (auto simp: active_ids_def)
  qed
  moreover have "nonterminal_rows (sv_rows sf) = nonterminal_rows (sv_rows t)" using r(4) sf' rows by simp
  ultimately have same: "unlisted L (sv_rows sf) = unlisted L (sv_rows t)"
    by (simp add: unlisted_def oldest_active_def entries_in_def)
  show thesis
  proof (rule that [OF _ _ entries same rec])
    show "rows_ok L (sv_rows sf)" using r(1) sf' by simp
    show "files_of view sf = files_of view t"
      using sf' files quietD [OF quiet_in_journal [OF quiet_journal(7)] ret] by simp
  qed
qed

lemma moves_keep_rows:
  assumes "rows_ok L (sv_rows s)"
  shows "approve L C S pid n s = (r, s') \<Longrightarrow> rows_ok L (sv_rows s')"
    and "undo L C S pid n s = (r, s') \<Longrightarrow> rows_ok L (sv_rows s')"
proof -
  have i: "history_from L (entries_in L s pid) pid s" using assms by (simp add: history_from_def)
  show "rows_ok L (sv_rows s')" if "approve L C S pid n s = (r, s')"
    using keepsD [OF table.keep_approve i that] by (simp add: history_from_def)
  show "rows_ok L (sv_rows s')" if "undo L C S pid n s = (r, s')"
    using keepsD [OF table.keep_undo i that] by (simp add: history_from_def)
qed

lemma after_files_same: "after_files P u \<Longrightarrow> same_files u u' \<Longrightarrow> after_files P u'"
  unfolding after_files_def using same_files_trans by blast

text \<open>Wherever \<open>undo\<close> stopped, the files are as before or the one rename back has happened.\<close>

lemma undo_content:
  assumes m: "undo L C S pid n s = (r, s')"
  shows "same_files (files_of view s) (files_of view s') \<or>
    (\<exists>q s1. undo_prepare L S pid n s = (Inr q, s1) \<and> after_files (returned q (files_of view s)) (files_of view s'))"
proof (cases "undo_prepare L S pid n s")
  case (Pair x s1)
  show ?thesis
  proof (cases x)
    case (Inl e)
    then have "s' = s1" using undo_unprepared [OF Pair [unfolded Inl]] m by simp
    then show ?thesis using quietD [OF quiet_undo_prepare Pair] by simp
  next
    case (Inr q)
    from undo_effect [OF Pair [unfolded Inr] m] have "same_files (files_of view s) (files_of view s') \<or>
        after_files (returned q (files_of view s)) (files_of view s')"
      by (cases r) (auto simp: after_files_def)
    then show ?thesis using Pair Inr by blast
  qed
qed

section \<open>Recovery and what was recorded\<close>

lemma keeps_recorded_recover:
  assumes Y: "admits Y Completed" "admits Y NeedsAttention"
  shows "keeps (recorded L Y pid) (recover_without_guessing L C S)"
proof -
  have entry: "keeps (recorded L Y pid) (recover_entry L S e)" for e
    unfolding recover_entry_def evidence_def complete_entry_def flag_entry_def
    by (intro keeps_rules keeps_recorded Y)
  have entries: "keeps (recorded L Y pid) (recover_entries L S es)" for es
  proof (induction es)
    case (Cons e es)
    show ?case unfolding recover_entries.simps by (intro keeps_rules entry Cons.IH)
  qed (simp only: recover_entries.simps keeps_pure)
  have read: "keeps (recorded L Y pid) (in_journal (nonterminal_entries L S))"
    by (rule keepsI) (auto simp: recorded_def entries_in_def dest!: in_journal_run
        dest: keepsD [OF reading_keeps_rows(2), OF refl])
  show ?thesis
    unfolding recover_without_guessing_def save_def by (intro keeps_rules read entries keeps_recorded)
qed

text \<open>After a successful start only an entry beyond the listing is interrupted, and a recorded intent still is recorded.\<close>

lemma recorded_same: "recorded L Y pid s \<Longrightarrow> sv_rows t = sv_rows s \<Longrightarrow> Y \<subseteq> Y' \<Longrightarrow> recorded L Y' pid t"
  by (auto simp: recorded_def entries_in_def)

lemma restart:
  assumes ok: "rows_ok L (sv_rows t)" and m: "open_service L C S t = (Inr z, t')"
  shows "same_files (files_of view t) (files_of view t')"
    and "entries_in L t' u = Some e \<Longrightarrow> interrupted (e_state e) \<Longrightarrow> u \<in> unlisted L (sv_rows t)"
    and "admits Y Completed \<Longrightarrow> admits Y NeedsAttention \<Longrightarrow> recorded L Y pid t \<Longrightarrow> recorded L Y pid t'"
proof -
  obtain t1 where t1: "rows_ok L (sv_rows t1)" "files_of view t1 = files_of view t"
    and e1: "\<And>u. entries_in L t1 u = entries_in L t u \<or>
      entries_in L t1 u = None \<and> (\<exists>e. entries_in L t u = Some e \<and> terminal (e_state e))"
    and same: "unlisted L (sv_rows t1) = unlisted L (sv_rows t)"
    and rec: "recover_without_guessing L C S t1 = (Inr z, t')"
    using open_service_run [OF ok m] by blast
  show "same_files (files_of view t) (files_of view t')"
    using keepsD [OF files.keep_recovery(2) [of "files_of view t" L C] _ m] by simp
  show "u \<in> unlisted L (sv_rows t)" if "entries_in L t' u = Some e" "interrupted (e_state e)"
    using recover_leaves_unlisted [OF t1(1) rec that] same by simp
  show "recorded L Y pid t'" if "admits Y Completed" "admits Y NeedsAttention" "recorded L Y pid t"
  proof -
    have "recorded L Y pid t1" using that(3) t1(1) e1 [of pid] by (auto simp: recorded_def)
    then show ?thesis by (rule keepsD [OF keeps_recorded_recover [OF that(1,2)] _ rec])
  qed
qed

end

end
