(* ===== verification/Reference_Restart.thy ===== *)
theory Reference_Restart
  imports Reference_Service
begin

text \<open>
  An approval and an undo that a failing call stops in the middle, and the start after each, on the
  reference service. They stand for no code of the repository.
\<close>

declare open_service_def [run] load_state_def [run] journal_open_def [run] flag_entry_def [run]
  recovery_warning_def [run] interrupted_def [run]

text \<open>All calls before the last of the list succeed, and that one fails.\<close>

definition failing_after :: "nat \<Rightarrow> errno option list" where
  "failing_after n = replicate n None @ [Some (ERRNO 5)]"

lemma failing_after_run [run]:
  "failing_after 0 = [Some (ERRNO 5)]" "failing_after (Suc n) = None # failing_after n"
  "failing_after (numeral k) = None # failing_after (pred_numeral k)"
  by (simp_all add: failing_after_def numeral_eq_Suc)

text \<open>The approval stops in the transition to \<open>Completed\<close>, its twenty-fifth call.\<close>

definition crash_codec :: codec where
  "crash_codec = table_codec [house, restarted_house]"

definition before_crash :: "sim service" where
  "before_crash = letter_service\<lparr>sv_world := house_tree\<lparr>sim_state := Some ''.'',
     sim_faults := failing_after 24\<rparr>\<rparr>"

definition crashed_service :: "sim service" where
  "crashed_service = letter_service\<lparr>sv_state := house\<lparr>ps_proposals := [letter_proposal\<lparr>p_revision := 2\<rparr>]\<rparr>,
     sv_rows := [letter_row\<lparr>r_revision := 4, r_state := ''source_removed'', r_updated_at := 7\<rparr>],
     sv_world := moved_tree\<lparr>sim_state := Some ''.''\<rparr>\<rparr>"

definition reopened_service :: "sim service" where
  "reopened_service = letter_service\<lparr>sv_state := restarted_house,
     sv_rows := [letter_row\<lparr>r_revision := 5, r_state := ''completed'', r_updated_at := 7\<rparr>], sv_world := moved_tree\<rparr>"

text \<open>The undo stops in the transition to \<open>Undone\<close>.\<close>

definition flagged_house :: persistent where
  "flagged_house = house\<lparr>ps_proposals := [letter_proposal\<lparr>p_revision := 7, p_status := ''needs_attention'',
     p_warning := Some ''Interrupted operation retained the verified source; destination is absent or unverified''\<rparr>]\<rparr>"

definition undo_codec :: codec where
  "undo_codec = table_codec [moved_house, flagged_house]"

definition before_undo :: "sim service" where
  "before_undo = approved_service\<lparr>sv_world := moved_tree\<lparr>sim_state := Some ''.'',
     sim_faults := failing_after 18\<rparr>\<rparr>"

definition returned_tree :: sim where
  "returned_tree = house_tree\<lparr>sim_entries := [((papers, ''bills''), bills), ((inbox, ''a''), letter)], sim_state := Some ''.''\<rparr>"

definition half_undone_service :: "sim service" where
  "half_undone_service = letter_service\<lparr>sv_state := moved_house,
     sv_rows := [letter_row\<lparr>r_revision := 6, r_state := ''undoing'', r_updated_at := 7\<rparr>], sv_world := returned_tree\<rparr>"

definition flagged_service :: "sim service" where
  "flagged_service = letter_service\<lparr>sv_state := flagged_house,
     sv_rows := [letter_row\<lparr>r_revision := 7, r_state := ''needs_attention'', r_updated_at := 7\<rparr>],
     sv_world := returned_tree\<lparr>sim_state := Some ''..''\<rparr>\<rparr>"

lemma crash_codecs [run]:
  "json_of_state crash_codec = position_text [house, restarted_house]"
  "json_to_state crash_codec = (\<lambda>b. if b = [] \<or> length b > 2 then None else Some ([house, restarted_house] ! (length b - 1)))"
  "json_of_state undo_codec = position_text [moved_house, flagged_house]"
  "json_to_state undo_codec = (\<lambda>b. if b = [] \<or> length b > 2 then None else Some ([moved_house, flagged_house] ! (length b - 1)))"
  by (simp_all add: crash_codec_def undo_codec_def table_codec_def numeral_2_eq_2)

lemmas in_restart = in_house run restarted_house_def flagged_house_def moved_tree_def returned_tree_def approved_service_def

lemma crash_house:
  "approve ref_libs crash_codec sim_os 7 1 before_crash = (Inl (SJournal (Database (DbError 0))), crashed_service)"
  by (simp add: in_restart before_crash_def crashed_service_def cong: and_then_step)

lemma reopen_house:
  "open_service ref_libs crash_codec sim_os crashed_service = (Inr (), reopened_service)"
  by (simp add: in_restart crashed_service_def reopened_service_def cong: and_then_step)

lemma stop_undo_house:
  "undo ref_libs undo_codec sim_os 7 5 before_undo = (Inl (SJournal (Database (DbError 0))), half_undone_service)"
  by (simp add: in_restart before_undo_def half_undone_service_def cong: and_then_step)

lemma reopen_undone_house:
  "open_service ref_libs undo_codec sim_os half_undone_service = (Inr (), flagged_service)"
  by (simp add: in_restart half_undone_service_def flagged_service_def cong: and_then_step)

end
