(* ===== verification/Restart_Properties.thy ===== *)
theory Restart_Properties
  imports Restart_Laws Reference_Restart
begin

text \<open>
  The properties that span a move, a stop at any point of it, and the next start; and that a move
  is made at most once, and only of an entry the journal has as asked for.
\<close>

section \<open>The samples\<close>

lemma before_crash_ok: "rows_ok ref_libs (sv_rows before_crash)"
  using letter_service_ok by (simp add: before_crash_def letter_service_def)

lemma before_undo_ok: "rows_ok ref_libs (sv_rows before_undo)"
  using approved_service_ok by (simp add: before_undo_def)



section \<open>Stopped and started again\<close>





section \<open>At most once\<close>

text \<open>C4. An approval moves at most once, and only what the journal has as proposed. If \<open>approve\<close> changed
  a file, the entry was proposed, at the revision the request named; and a further \<open>approve\<close> of the same
  operation on the table this one left changes no file, whatever revision it names and wherever the
  first one stopped.\<close>

theorem approve_moves_once:
  assumes "posix S view" and "libs_ok L" and "rows_ok L (sv_rows s)" and "approve L C S pid n s = (r, s')"
    and "files_of view s' \<noteq> files_of view s"
    and "sv_rows t = sv_rows s'" and "approve L C S pid k t = (r', t')"
  shows "at_state L pid n Proposed s \<and> files_of view t' = files_of view t"
proof -
  have was: "\<exists>e. entries_in L s pid = Some e \<and> e_revision e = n \<and> allowed (e_state e) Approved"
    and rec: "recorded L approve_states pid s'"
    using posix.approve_recorded [OF assms(1-4)] assms(5) by blast+
  have t: "recorded L approve_states pid t" using rec assms(6) by (simp add: recorded_def entries_in_def)
  then have "files_of view t' = files_of view t"
    using posix.approve_recorded [OF assms(1,2) _ assms(7)]
    by (fastforce simp: recorded_def approve_states_def allowed_def)
  moreover have "at_state L pid n Proposed s"
    using was assms(3) by (auto simp: at_state_def allowed_def)
  ultimately show ?thesis by blast
qed

theorem approve_moves_once_witness:
  "at_state ref_libs 7 1 Proposed before_crash \<and>
   files_of sim_view (snd (approve ref_libs crash_codec sim_os 7 2 crashed_service)) = files_of sim_view crashed_service"
proof -
  have "files_of sim_view crashed_service \<noteq> files_of sim_view before_crash"
    by (rule notI, drule arg_cong [of _ _ "\<lambda>v. v_entry v bills ''a''"])
       (simp add: files_of_def crashed_service_def before_crash_def moved_tree_def letter_service_def house_tree_def small_tree_def sim_view_def)
  from approve_moves_once [OF sim.posix_axioms reference.libs_ok_axioms before_crash_ok crash_house this refl prod.collapse [symmetric]]
  show ?thesis .
qed

text \<open>C20. An undo moves at most once, and only what the journal has as completed at the revision the
  request named.\<close>

theorem undo_moves_once:
  assumes "posix S view" and "libs_ok L" and "rows_ok L (sv_rows s)" and "undo L C S pid n s = (r, s')"
    and "files_of view s' \<noteq> files_of view s"
    and "sv_rows t = sv_rows s'" and "undo L C S pid k t = (r', t')"
  shows "at_state L pid n Completed s \<and> files_of view t' = files_of view t"
proof -
  have was: "\<exists>e. entries_in L s pid = Some e \<and> e_revision e = n \<and> allowed (e_state e) Undoing"
    and rec: "recorded L undo_states pid s'"
    using posix.undo_recorded [OF assms(1-4)] assms(5) by blast+
  have t: "recorded L undo_states pid t" using rec assms(6) by (simp add: recorded_def entries_in_def)
  then have "files_of view t' = files_of view t"
    using posix.undo_recorded [OF assms(1,2) _ assms(7)]
    by (fastforce simp: recorded_def undo_states_def allowed_def)
  moreover have "at_state L pid n Completed s"
    using was assms(3) by (auto simp: at_state_def allowed_def)
  ultimately show ?thesis by blast
qed

theorem undo_moves_once_witness:
  "at_state ref_libs 7 5 Completed before_undo \<and>
   files_of sim_view (snd (undo ref_libs undo_codec sim_os 7 5 half_undone_service)) = files_of sim_view half_undone_service"
proof -
  have "files_of sim_view half_undone_service \<noteq> files_of sim_view before_undo"
    by (rule notI, drule arg_cong [of _ _ "\<lambda>v. v_entry v bills ''a''"])
       (simp add: files_of_def half_undone_service_def before_undo_def returned_tree_def moved_tree_def letter_service_def
          house_tree_def small_tree_def sim_view_def)
  from undo_moves_once [OF sim.posix_axioms reference.libs_ok_axioms before_undo_ok stop_undo_house this refl prod.collapse [symmetric]]
  show ?thesis .
qed

end
