(* ===== verification/Save_Laws.thy ===== *)
theory Save_Laws
  imports Recovery_Laws
begin

text \<open>
  Saving and loading the state file: a save replaces it as a whole or not at all, a load after a
  save gives back what was saved; and the suggestions of the agent name registered folders only.
\<close>

section \<open>Saving\<close>

definition on_disk :: "('w \<Rightarrow> fsview) \<Rightarrow> 'w service \<Rightarrow> bytes option" where
  "on_disk view s = v_state (files_of view s)"

definition saved_as :: "codec \<Rightarrow> ('w \<Rightarrow> fsview) \<Rightarrow> persistent \<Rightarrow> 'w service \<Rightarrow> bool" where
  "saved_as C view st s \<longleftrightarrow> (\<exists>b. json_of_state C st = Some b \<and> length b \<le> MAX_STATE_BYTES \<and> on_disk view s = Some b)"

lemma triple_in_os:
  assumes "\<And>s x w. P s \<Longrightarrow> m (sv_world s) = (Inr x, w) \<Longrightarrow> Q x (s\<lparr>sv_world := w\<rparr>)"
    and "\<And>s e w. P s \<Longrightarrow> m (sv_world s) = (Inl e, w) \<Longrightarrow> E (f e) (s\<lparr>sv_world := w\<rparr>)"
  shows "triple P (in_os f m) Q E"
  by (rule tripleI) (use assms in \<open>auto simp: in_os_Inr in_os_Inl\<close>)

lemma triple_quiet:
  assumes "quiet view m"
  shows "triple (\<lambda>s. D (files_of view s)) (in_os f m) (\<lambda>_ s. D (files_of view s)) (\<lambda>_ s. D (files_of view s))"
  by (rule triple_in_os) (use assms in \<open>auto simp: files_of_def dest: quietD\<close>)

text \<open>The calls of a save, once the text is made.\<close>

definition write_state :: "'w os \<Rightarrow> bytes \<Rightarrow> ('w service, service_error, unit) io" where
  "write_state S body =
    and_then (in_os SIo (os_next_open S)) (\<lambda>_.
    and_then (in_os SIo (os_next_write S body)) (\<lambda>_.
    and_then (in_os SIo (os_next_sync S)) (\<lambda>_.
    and_then (in_os SIo (os_next_rename S)) (\<lambda>_.
    in_os SIo (os_state_dir_sync S)))))"

lemma save_run:
  "save C S s = (case json_of_state C (sv_state s) of None \<Rightarrow> (Inl MalformedState, s)
     | Some b \<Rightarrow> if length b > MAX_STATE_BYTES then (Inl SLimit, s) else write_state S b s)"
  by (simp add: save_def write_state_def and_then_def state_of_def fail_if_def split: option.split)

context posix
begin

lemma write_state_triple:
  "triple (\<lambda>s. on_disk view s = V) (write_state S b) (\<lambda>_ s. on_disk view s = Some b)
     (\<lambda>_ s. on_disk view s = V \<or> on_disk view s = Some b)"
proof -
  let ?E = "\<lambda>(_ :: service_error) s. on_disk view s = V \<or> on_disk view s = Some b"
  let ?W = "\<lambda>s. on_disk view s = V \<and> v_next (files_of view s) = Some b"
  have o: "triple (\<lambda>s. on_disk view s = V) (in_os SIo (os_next_open S)) (\<lambda>_ s. on_disk view s = V) ?E"
    by (rule triple_in_os) (auto simp: on_disk_def files_of_def dest!: next_open_changes)
  have w: "triple (\<lambda>s. on_disk view s = V) (in_os SIo (os_next_write S b)) (\<lambda>_. ?W) ?E"
    by (rule triple_in_os) (auto simp: on_disk_def files_of_def dest!: next_write_ok next_write_err)
  have y: "triple ?W (in_os SIo (os_next_sync S)) (\<lambda>_. ?W) ?E"
    unfolding on_disk_def
    by (rule triple_weaken [OF triple_quiet [OF quiet_calls(18), where D = "\<lambda>u. v_state u = V \<and> v_next u = Some b"]]) auto
  have r: "triple ?W (in_os SIo (os_next_rename S)) (\<lambda>_ s. on_disk view s = Some b) ?E"
    by (rule triple_in_os) (auto simp: on_disk_def files_of_def dest!: next_rename_ok next_rename_err)
  have d: "triple (\<lambda>s. on_disk view s = Some b) (in_os SIo (os_state_dir_sync S)) (\<lambda>_ s. on_disk view s = Some b) ?E"
    unfolding on_disk_def
    by (rule triple_weaken [OF triple_quiet [OF quiet_calls(19), where D = "\<lambda>u. v_state u = Some b"]]) auto
  show ?thesis unfolding write_state_def by (intro triple_and_then [OF o] triple_and_then [OF w] triple_and_then [OF y] triple_and_then [OF r] d)
qed

lemma save_disk:
  assumes "save C S s = (r, s')"
  shows "on_disk view s' = on_disk view s \<or> saved_as C view (sv_state s) s'" and "r = Inr () \<Longrightarrow> saved_as C view (sv_state s) s'"
proof -
  have "(on_disk view s' = on_disk view s \<or> saved_as C view (sv_state s) s') \<and> (r = Inr () \<longrightarrow> saved_as C view (sv_state s) s')"
  proof (cases "json_of_state C (sv_state s)")
    case None
    with assms show ?thesis by (auto simp: save_run)
  next
    case (Some b)
    show ?thesis
    proof (cases "length b > MAX_STATE_BYTES")
      case True
      with assms Some show ?thesis by (auto simp: save_run)
    next
      case False
      with assms Some have w: "write_state S b s = (r, s')" by (simp add: save_run)
      with Some False show ?thesis
        using triple_okD [OF write_state_triple refl] triple_errD [OF write_state_triple refl]
        by (cases r) (fastforce simp: saved_as_def)+
    qed
  qed
  then show "on_disk view s' = on_disk view s \<or> saved_as C view (sv_state s) s'"
    and "r = Inr () \<Longrightarrow> saved_as C view (sv_state s) s'" by auto
qed

lemma load_state_run:
  "load_state C S w = (if fst (os_state_exists S w) then
      (and_then (map_err SIo (os_state_open S)) (\<lambda>_.
       and_then (map_err SIo (os_state_len S)) (\<lambda>len.
       and_then (fail_if (len > word_of_nat MAX_STATE_BYTES) MalformedState) (\<lambda>_.
       and_then (map_err SIo (os_state_read S (MAX_STATE_BYTES + 1))) (\<lambda>b.
       and_then (lift_res (ok_or MalformedState (json_to_state C b))) (\<lambda>st.
       and_then (fail_if (ps_schema_version st \<noteq> 1) MalformedState) (\<lambda>_.
       ok st))))))) (snd (os_state_exists S w))
    else (Inr fresh_state, snd (os_state_exists S w)))"
  by (simp add: load_state_def and_then_def total_def split: prod.split)

lemma small_length: "length b \<le> MAX_STATE_BYTES \<Longrightarrow> \<not> (word_of_nat (length b) :: u64) > word_of_nat MAX_STATE_BYTES"
proof -
  assume l: "length b \<le> MAX_STATE_BYTES"
  then have "length b < 2 ^ 64" "MAX_STATE_BYTES < 2 ^ 64" by (simp_all add: MAX_STATE_BYTES_def)
  with l show ?thesis by (simp add: word_less_nat_alt unat_of_nat take_bit_nat_eq_self)
qed

text \<open>What a start loads after a save: the saved state, an error, or a fresh state where \<open>exists\<close> says no.\<close>

lemma load_saved:
  assumes "\<And>st b. json_of_state C st = Some b \<Longrightarrow> json_to_state C b = Some st" and "saved_as C view st s"
    and "ps_schema_version st = 1" and "load_state C S (sv_world s) = (r, w)"
  shows "r = (if fst (os_state_exists S (sv_world s)) then Inr st else Inr fresh_state) \<or>
    fst (os_state_exists S (sv_world s)) \<and> (\<exists>e. r = Inl (SIo e))"
proof (cases "fst (os_state_exists S (sv_world s))")
  case False
  with assms(4) show ?thesis by (simp add: load_state_run)
next
  case True
  obtain b where b: "json_of_state C st = Some b" "length b \<le> MAX_STATE_BYTES" "v_state (view (sv_world s)) = Some b"
    using assms(2) by (auto simp: saved_as_def on_disk_def files_of_def)
  obtain w1 where w1: "os_state_exists S (sv_world s) = (True, w1)" using True by (cases "os_state_exists S (sv_world s)") simp
  obtain q2 w2 where w2: "os_state_open S w1 = (q2, w2)" by fastforce
  obtain q3 w3 where w3: "os_state_len S w2 = (q3, w3)" by fastforce
  obtain q4 w4 where w4: "os_state_read S (MAX_STATE_BYTES + 1) w3 = (q4, w4)" by fastforce
  have v: "v_state (view w2) = Some b" "v_state (view w3) = Some b"
    using b(3) state_exists_view [OF w1] state_open_view [OF w2] state_len_view [OF w3] by simp_all
  have len: "q3 = Inr k \<Longrightarrow> \<not> k > word_of_nat MAX_STATE_BYTES" for k
    using state_len_ok [of w2 k w3 b] w3 v(1) small_length [OF b(2)] by simp
  have body: "q4 = Inr c \<Longrightarrow> c = b" for c
    using state_read_ok [of "MAX_STATE_BYTES + 1" w3 c w4 b] w4 v(2) b(2) by simp
  show ?thesis
    using assms(4) w1 w2 w3 w4 len body assms(1) [OF b(1)] assms(3)
    by (cases q2; cases q3; cases q4) (auto simp: load_state_run and_then_def map_err_def fail_if_def)
qed

end

section \<open>Suggestions\<close>

text \<open>A suggestion names a rule's destination, or a registered destination the agent chose.\<close>

definition by_rule :: "libs \<Rightarrow> persistent \<Rightarrow> file_facts \<Rightarrow> suggestion \<Rightarrow> bool" where
  "by_rule L st facts sg \<longleftrightarrow> (\<exists>d ids why. evaluate_rules (lib_glob L) (ps_rules st) facts = Inr (Decided d ids why) \<and>
     sg = (Some \<lparr>ch_root_id = root_id d, ch_directory = directory d\<rparr>, why, ''rule:'' @ lib_uuid_text L (hd ids), None))"

definition by_agent :: "persistent \<Rightarrow> suggestion \<Rightarrow> bool" where
  "by_agent st sg \<longleftrightarrow> ag_enabled (ps_agent st) \<and> fst (snd (snd sg)) = ''agent_metadata'' \<and>
     (\<exists>r \<in> set (ps_roots st). rt_destination r \<and> fst sg = Some \<lparr>ch_root_id = rt_id r, ch_directory = ''.''\<rparr>)"

lemma suggestion_of_registered:
  assumes "classify J S a (agent_request_for st facts len k) w = (r, w')" and "fst (suggestion_of r reason fallback) = Some c"
  shows "\<exists>q \<in> set (ps_roots st). rt_destination q \<and> c = \<lparr>ch_root_id = rt_id q, ch_directory = ''.''\<rparr>"
    and "fst (snd (snd (suggestion_of r reason fallback))) = ''agent_metadata''"
proof -
  obtain x i where r: "r = Inr x" "ar_destination_id x = Some i" "c = \<lparr>ch_root_id = i, ch_directory = ''.''\<rparr>"
    using assms(2) by (cases r) (auto split: option.splits)
  then have "i \<in> set (aq_allowed_destination_ids (agent_request_for st facts len k))"
    using classify_ok(5) [OF assms(1) [unfolded r(1)]] by blast
  with r show "\<exists>q \<in> set (ps_roots st). rt_destination q \<and> c = \<lparr>ch_root_id = rt_id q, ch_directory = ''.''\<rparr>"
    by (auto simp: agent_request_for_def)
  show "fst (snd (snd (suggestion_of r reason fallback))) = ''agent_metadata''" using r by simp
qed

lemma agent_or_fallback_registered:
  assumes "agent_or_fallback C S facts len reason fallback s = (Inr sg, s')" and "fst sg \<noteq> None"
  shows "by_agent (sv_state s) sg"
proof -
  let ?st = "sv_state s"
  from assms obtain J a k w r w' where en: "ag_enabled (ps_agent ?st)"
    and c: "classify J S a (agent_request_for ?st facts len k) w = (r, w')" and sg: "sg = suggestion_of r reason fallback"
    by (auto simp: agent_or_fallback_def Let_def state_of_def and_then_Inr in_os_Inr split: if_splits option.splits)
  obtain d where d: "fst sg = Some d" using assms(2) by auto
  from suggestion_of_registered [OF c, of reason fallback d] d sg en show ?thesis by (auto simp: by_agent_def)
qed

lemma suggest_registered:
  assumes "suggest L C S facts len s = (Inr sg, s')" and "fst sg \<noteq> None"
  shows "by_rule L (sv_state s) facts sg \<or> by_agent (sv_state s) sg"
proof (cases "evaluate_rules (lib_glob L) (ps_rules (sv_state s)) facts")
  case (Inl e)
  with assms(1) show ?thesis by (simp add: suggest_def state_of_def and_then_def)
next
  case (Inr d)
  show ?thesis
  proof (cases d)
    case (Decided x ids why)
    with assms(1) Inr show ?thesis by (auto simp: suggest_def state_of_def and_then_def by_rule_def)
  next
    case (Tie x ids why)
    with assms(1) Inr have "agent_or_fallback C S facts len why ''deterministic_tie'' s = (Inr sg, s')"
      by (simp add: suggest_def state_of_def and_then_def)
    with assms(2) show ?thesis by (auto dest: agent_or_fallback_registered)
  next
    case (Abstain why)
    with assms(1) Inr have "agent_or_fallback C S facts len why ''deterministic_abstain'' s = (Inr sg, s')"
      by (simp add: suggest_def state_of_def and_then_def)
    with assms(2) show ?thesis by (auto dest: agent_or_fallback_registered)
  qed
qed

end
