(* ===== verification/Service_Limits.thy ===== *)
theory Service_Limits
  imports Service_Memory
begin

text \<open>Every operation of the service keeps the limits on its persistent state.\<close>

lemmas follow = leads_fail_if leads_lift leads_state_of leads_set leads_set_end leads_cases leads_option

lemma memory_kept_folder: "memory_kept (check_folder S p)"
  unfolding check_folder_def by (intro memory_kept_then memory_kept_rules)

lemmas memory_steps = memory_kept_rules memory_kept_save memory_kept_retention memory_kept_move memory_kept_folder

section \<open>Settings\<close>

lemma set_paused_limits: "limits_ok G st \<Longrightarrow> leads st (set_paused C S b) (limits_ok G)"
  unfolding set_paused_def by (rule leads_set, rule leads_end) (simp_all add: memory_steps limits)

lemma configure_limits: "limits_ok G st \<Longrightarrow> leads st (configure_metadata_agent C S x args) (limits_ok G)"
  unfolding configure_metadata_agent_def
  by (rule leads_fail_if, assumption, rule leads_set, rule leads_kept)
     (auto simp: memory_steps agent_ok_def list_all_iff list_ex_iff not_less intro!: limits leads_end)

lemma disable_limits: "limits_ok G st \<Longrightarrow> leads st (disable_agent C S) (limits_ok G)"
  unfolding disable_agent_def
  by (rule leads_set, rule leads_kept)
     (auto simp: memory_steps agent_ok_def limits_ok_def waiting_def intro!: leads_end split: option.splits)

section \<open>Roots\<close>

lemma add_root_limits: "limits_ok G st \<Longrightarrow> leads st (add_root C S p a b) (limits_ok G)"
  unfolding add_root_def Let_def
proof (rule leads_state_of, rule leads_fail_if, assumption, rule leads_kept, rule memory_kept_folder, assumption,
    rule leads_kept, rule memory_kept_rules, assumption, rule leads_lift, assumption, rule leads_fail_if, assumption,
    rule leads_kept, rule memory_kept_rules, assumption, rule leads_kept, rule memory_kept_rules, assumption,
    rule leads_set, rule leads_kept, rule memory_kept_save, goal_cases)
  case (1 _ _ path _ i)
  then have "roots_ok (ps_roots st @ [\<lparr>rt_id = i, rt_path = path, rt_watched = a, rt_destination = b\<rparr>])"
    by (auto simp: roots_ok_def limits_ok_def list_ex_iff)
  with 1 show ?case by (intro limits)
next
  case (2 _ _ path _ i)
  then have "roots_ok (ps_roots st @ [\<lparr>rt_id = i, rt_path = path, rt_watched = a, rt_destination = b\<rparr>])"
    by (auto simp: roots_ok_def limits_ok_def list_ex_iff)
  with 2 show ?case by (intro leads_end memory_steps limits)
qed

lemma remove_root_limits: "limits_ok G st \<Longrightarrow> leads st (remove_root C S i) (limits_ok G)"
  unfolding remove_root_def
proof (rule leads_state_of, rule leads_fail_if, assumption, rule leads_set, goal_cases)
  case 1
  then have "roots_ok (filter (\<lambda>r. rt_id r \<noteq> i) (ps_roots st))"
    unfolding roots_ok_def limits_ok_def
    by (auto simp: list_all_iff intro: order_trans [OF length_filter_le] distinct_map_filter)
  with 1(1) have l: "limits_ok G (st\<lparr>ps_roots := filter (\<lambda>r. rt_id r \<noteq> i) (ps_roots st)\<rparr>)" by (intro limits)
  then show ?case by (intro leads_state_of leads_fail_if leads_end memory_steps)
qed

section \<open>Review\<close>

lemma choose_limits: "limits_ok G st \<Longrightarrow> leads st (choose_destination L C S i n d p) (limits_ok G)"
  unfolding choose_destination_def Let_def
  by ((rule follow | rule leads_kept leads_end | rule memory_steps memory_kept_try | assumption | (erule limits; simp))+)

lemma choose_path_limits: "limits_ok G st \<Longrightarrow> leads st (choose_destination_path L C S i n p) (limits_ok G)"
  unfolding choose_destination_path_def
  by (rule leads_kept, rule memory_steps, assumption, rule leads_kept, rule memory_steps, assumption, rule leads_state_of,
      rule leads_then, rule leads_option, erule add_root_limits, rule leads_end, rule memory_steps, assumption)
     ((rule leads_lift choose_limits | assumption)+)

lemma rename_limits: "limits_ok G st \<Longrightarrow> leads st (rename_proposal L C S i n p) (limits_ok G)"
  unfolding rename_proposal_def Let_def
  by ((rule follow | rule leads_kept leads_end | rule memory_steps | assumption | (erule limits; simp))+)

lemma conclude_limits:
  assumes "limits_ok G st" and "t \<noteq> ''proposed''"
  shows "leads st (conclude C S i n t) (limits_ok G)"
  unfolding conclude_def
  by ((rule follow | rule leads_kept leads_end | rule memory_steps | assumption
       | rule limits_prune limits_update assms(1) | (use assms(2) in \<open>simp; fail\<close>))+)

lemma ignore_limits: "limits_ok G st \<Longrightarrow> leads st (ignore L C S i n) (limits_ok G)"
  unfolding ignore_def
  by (rule leads_state_of, rule leads_lift, assumption, rule leads_kept, rule memory_steps, assumption, rule conclude_limits) simp_all

lemma created_rule_valid:
  assumes "evaluate_rules G [r] facts = Inr d"
  shows "validate_rule G r = Inr ()"
  using assms by (auto simp: evaluate_rules_def res_then_Inr_iff split: if_splits)

lemma create_rule_limits:
  assumes "limits_ok (lib_glob L) st"
  shows "leads st (create_rule_from_proposal L C S i k) (limits_ok (lib_glob L))"
  unfolding create_rule_from_proposal_def Let_def
proof (rule leads_state_of, rule leads_fail_if, rule assms, rule leads_lift, rule assms, rule leads_lift, rule assms,
    rule leads_lift, rule assms, rule leads_lift, rule assms, rule leads_kept, rule memory_steps, rule assms,
    rule leads_lift, rule assms, rule leads_set, goal_cases)
  case (1 p c source ext rid d)
  let ?r = "\<lparr>rule_id = rid, priority = k, predicates = [Extension (to_ascii_lowercase ext)],
    destination_root_id = ch_root_id c, destination_directory = ch_directory c\<rparr>"
  from 1 obtain d' where "evaluate_rules (lib_glob L) [?r] (facts_for source (p_source_root_id p) True) = Inr d'"
    by (auto simp only: map_res_err_iff)
  then have "validate_rule (lib_glob L) ?r = Inr ()" by (rule created_rule_valid)
  with 1(1) assms have "rules_ok (lib_glob L) (ps_rules st @ [?r])" by (simp add: rules_ok_def limits_ok_def)
  with assms have "limits_ok (lib_glob L) (st\<lparr>ps_rules := ps_rules st @ [?r]\<rparr>)" by (intro limits)
  then show ?case by (intro leads_kept leads_end memory_steps)
qed

section \<open>Moves\<close>

lemma memory_kept_prepare: "memory_kept (approve_prepare L S i n)" "memory_kept (undo_prepare L S i n)"
  unfolding approve_prepare_def undo_prepare_def Let_def by (intro memory_kept_then memory_steps)+

lemma approve_limits:
  assumes "limits_ok G st"
  shows "leads st (approve L C S i n) (limits_ok G)"
  unfolding approve_def approve_prepared_def
proof (rule leads_kept, rule memory_kept_prepare, rule assms, rule leads_kept, rule memory_steps, rule assms, rule leads_set)
  fix q :: prepared and e :: entry
  let ?st = "update_proposal (pr_index q) (\<lambda>p. p\<lparr>p_revision := e_revision e\<rparr>) st"
  have l: "limits_ok G ?st" using assms by (rule limits_update) simp
  then show "leads ?st (and_then (approve_move L S i q (e_revision e)) (\<lambda>e.
    and_then (in_journal (transition L S i (e_revision e) SourceRemoved)) (\<lambda>e.
    and_then (in_journal (transition L S i (e_revision e) Completed)) (\<lambda>e.
    conclude C S (pr_index q) (e_revision e) ''completed'')))) (limits_ok G)"
    by (intro leads_kept memory_steps conclude_limits) simp_all
qed

lemma undo_limits:
  assumes "limits_ok G st"
  shows "leads st (undo L C S i n) (limits_ok G)"
  unfolding undo_def undo_prepared_def
  by (intro leads_kept memory_steps memory_kept_prepare conclude_limits assms) simp

section \<open>Scans\<close>

lemma memory_kept_suggest: "memory_kept (suggest L C S facts len)"
proof -
  have "memory_kept (agent_or_fallback C S facts len reason fallback)" for reason fallback
    unfolding agent_or_fallback_def Let_def by (intro memory_kept_then memory_kept_cases memory_steps)
  then show ?thesis
    unfolding suggest_def
    by (intro memory_kept_then memory_steps) (auto split: rule_decision.split intro!: memory_steps)
qed

lemma memory_kept_sample: "memory_kept (sample_file S key path)"
  unfolding sample_file_def
  by (intro memory_kept_then memory_steps) (auto simp: memory_kept_def intro: keeps_modify)

lemma consider_limits:
  assumes "limits_ok G st" and "waiting st < MAX_PROPOSALS"
  shows "leads st (consider_file L C S root relative) (limits_ok G)"
proof -
  have new: "limits_ok G (st\<lparr>ps_proposals := ps_proposals st @ [p]\<rparr>)" for p using assms by (rule limits_new)
  show ?thesis
    unfolding consider_file_def Let_def
    by (rule leads_cases, (rule leads_end, rule memory_steps, rule assms), rule leads_state_of,
        (rule leads_cases leads_set leads_kept leads_end | rule memory_steps memory_kept_sample memory_kept_suggest
         memory_kept_cases memory_kept_then memory_kept_try | rule assms | rule new)+)
qed

lemma pause_limits: "limits_ok G st \<Longrightarrow> leads st (pause_at_limit C S) (limits_ok G)"
  unfolding pause_at_limit_def
  by (rule leads_state_of, rule leads_cases, rule leads_set, (intro leads_kept leads_end memory_steps limits; assumption),
      (intro leads_end memory_steps))

lemma pause_at_limit_passes: "pause_at_limit C S s = (Inr x, s') \<Longrightarrow> s' = s \<and> waiting (sv_state s) < MAX_PROPOSALS"
  by (auto simp: pause_at_limit_def and_then_Inr state_of_def split: if_splits)

lemma scan_files_limits: "limits_ok G st \<Longrightarrow> leads st (scan_files L C S root fs k) (limits_ok G)"
proof (induction fs arbitrary: st k)
  case Nil
  then show ?case by (simp only: scan_files.simps, intro leads_end memory_steps)
next
  case (Cons f fs)
  show ?case
  proof (rule leadsI)
    fix s r s' assume s: "sv_state s = st" and run: "scan_files L C S root (f # fs) k s = (r, s')"
    obtain x s1 where p: "pause_at_limit C S s = (x, s1)" by fastforce
    show "limits_ok G (sv_state s')"
    proof (cases x)
      case (Inl e)
      with run p have "s' = s1" by (simp add: and_then_def)
      then show ?thesis using leadsD [OF pause_limits p] Cons.prems s by simp
    next
      case (Inr y)
      from pause_at_limit_passes [OF p [unfolded Inr]] s have s1: "s1 = s" and w: "waiting st < MAX_PROPOSALS" by auto
      have "leads st (and_then (consider_file L C S root f) (\<lambda>new.
          scan_files L C S root fs (if new then k + 1 else k))) (limits_ok G)"
        by (rule leads_then [OF consider_limits [OF Cons.prems w]]) (rule Cons.IH)
      moreover have "and_then (consider_file L C S root f) (\<lambda>new.
          scan_files L C S root fs (if new then k + 1 else k)) s = (r, s')"
        using run p Inr s1 by (simp add: and_then_def)
      ultimately show ?thesis using leadsD s by blast
    qed
  qed
qed

lemma scan_roots_limits: "limits_ok G st \<Longrightarrow> leads st (scan_roots L C S rs k) (limits_ok G)"
proof (induction rs arbitrary: st k)
  case (Cons r rs)
  show ?case unfolding scan_roots.simps
    by (rule leads_kept, rule memory_steps, rule Cons.prems, rule leads_then, rule scan_files_limits, rule Cons.prems, rule Cons.IH)
qed (simp only: scan_roots.simps, intro leads_end memory_steps)

lemma scan_limits: "limits_ok G st \<Longrightarrow> leads st (scan_once L C S) (limits_ok G)"
  unfolding scan_once_def
proof (rule leads_state_of, rule leads_cases, goal_cases)
  case 2
  show ?case
    by (rule leads_then [OF pause_limits [OF 2(1)]], rule leads_state_of, rule leads_then, erule scan_roots_limits)
       (intro leads_kept leads_end memory_steps memory_kept_cases; assumption)
qed (intro leads_end memory_steps)

section \<open>Recovery\<close>

lemma recover_entry_limits: "limits_ok G st \<Longrightarrow> leads st (recover_entry L S e) (limits_ok G)"
proof -
  assume l: "limits_ok G st"
  have ev: "memory_kept (evidence L S e)"
    unfolding evidence_def by (intro memory_kept_then memory_kept_cases memory_steps)
  have up: "limits_ok G (st\<lparr>ps_proposals := update_first u f (ps_proposals st)\<rparr>)"
    if "\<And>p. p_status (f p) \<noteq> ''proposed''" for u f using l that by (rule limits_update_first)
  show ?thesis
    unfolding recover_entry_def complete_entry_def flag_entry_def
    by (rule leads_kept, rule memory_kept_cases, rule ev, rule memory_steps, rule l)
       ((rule leads_cases leads_kept leads_state_of leads_option leads_set_end | rule leads_end, rule memory_steps
         | rule memory_steps | rule l | rule up | simp; fail)+)
qed

lemma recover_limits: "limits_ok G st \<Longrightarrow> leads st (recover_without_guessing L C S) (limits_ok G)"
proof -
  have "leads st (recover_entries L S es) (limits_ok G)" if "limits_ok G st" for st es
    using that
  proof (induction es arbitrary: st)
    case (Cons e es)
    show ?case unfolding recover_entries.simps
      by (rule leads_then, rule recover_entry_limits, rule Cons.prems, rule Cons.IH)
  qed (simp only: recover_entries.simps, intro leads_end memory_steps)
  note entries = this
  assume l: "limits_ok G st"
  show ?thesis
    unfolding recover_without_guessing_def
    by (rule leads_kept, rule memory_steps, rule l, rule leads_then, rule entries, rule l, rule leads_end, rule memory_steps)
qed

text \<open>The state a start begins from: what was on disk, or the fresh one.\<close>

lemma load_state_limits:
  assumes "\<And>b st. json_to_state C b = Some st \<Longrightarrow> limits_ok G st" and "load_state C S w = (Inr st, w')"
  shows "limits_ok G st"
  using assms unfolding load_state_def by (auto simp: and_then_Inr limits_fresh split: if_splits)

end
