(* ===== verification/Scan_Laws.thy ===== *)
theory Scan_Laws
  imports Save_Laws Service_Limits Move_Results
begin

text \<open>What a scan turns into a proposal, and what it records of it.\<close>

section \<open>The run of one file\<close>

lemma if_ok_InrE:
  assumes "(if c then ok False else m) s = (Inr True, s')"
  obtains "\<not> c" and "m s = (Inr True, s')"
  using assms by (cases c) auto

lemma state_then_InrE:
  assumes "and_then (state_of g) k s = (Inr y, s')"
  obtains "k (g (sv_state s)) s = (Inr y, s')"
  using assms by (simp add: and_then_def state_of_def)

lemma if_not_InrE:
  assumes "(if \<not> b then ok False else m) s = (Inr True, s')"
  obtains "b = True" and "m s = (Inr True, s')"
  using assms by (cases b) auto

lemma set_state_InrE:
  assumes "set_state f s = (Inr y, s')"
  obtains "s\<lparr>sv_state := f (sv_state s)\<rparr> = s'"
  using assms by (simp add: set_state_def)

definition journal_entry_for :: "string \<Rightarrow> string option \<Rightarrow> identity \<Rightarrow> uuid \<Rightarrow> entry" where
  "journal_entry_for absolute dst i pid = \<lparr>e_id = pid, e_revision = 1, e_state = Proposed, e_source_token = absolute,
     e_destination_token = (case dst of None \<Rightarrow> [] | Some d \<Rightarrow> d), e_size = id_size i, e_sha256 = None\<rparr>"

lemma consider_run:
  assumes "consider_file L C S root relative s = (Inr True, s')"
  obtains i mime sg warning pid s1 s2 s3 s4 s5 s6 s7 x where "\<not> is_partial relative"
    and "\<not> known_source (sv_state s) (rt_id root) (encode_relative L relative)"
    and "sample_file S (lib_uuid_text L (rt_id root) @ '':'' @ encode_relative L relative)
      (path_join (rt_path root) relative) s = (Inr True, s1)"
    and "in_os SFs (identity_read S (path_join (rt_path root) relative)) s1 = (Inr i, s2)"
    and "\<not> known_identity (sv_state s) i"
    and "in_os SIo (sniff_mime S (path_join (rt_path root) relative)) s2 = (Inr mime, s3)"
    and "suggest L C S ((facts_for relative (rt_id root) True)\<lparr>verified_mime := mime\<rparr>) (id_size i) s3 = (Inr sg, s4)"
    and "(case proposed_path (sv_state s) (fst sg) relative of
           None \<Rightarrow> ok (snd (snd (snd sg)))
         | Some dst \<Rightarrow> and_then (try_result (in_os id (move_warning S (path_join (rt_path root) relative) dst))) (\<lambda>r. ok (res_ok r))) s4
       = (Inr warning :: service_error + string option, s5)"
    and "in_os SIo (total (os_new_uuid S)) s5 = (Inr pid, s6)"
    and "in_journal (create L S (journal_entry_for (path_join (rt_path root) relative)
      (proposed_path (sv_state s) (fst sg) relative) i pid)) s6 = (Inr x, s7)"
    and "s7\<lparr>sv_state := (sv_state s7)\<lparr>ps_proposals := ps_proposals (sv_state s7) @
      [new_proposal L (sv_state s7) root relative i sg warning pid]\<rparr>\<rparr> = s'"
  using assms unfolding consider_file_def Let_def journal_entry_for_def [symmetric]
  apply -
  apply (erule if_ok_InrE, erule state_then_InrE, erule if_ok_InrE, erule and_then_InrE, erule if_not_InrE, erule and_then_InrE,
      erule if_ok_InrE, (erule and_then_InrE)+, erule set_state_InrE, erule ok_InrE, hypsubst)
  apply (rule that)
  apply (assumption | erule sym)+
  done

section \<open>What the steps before the journal leave\<close>

definition steady :: "('w \<Rightarrow> fsview) \<Rightarrow> 'w service \<Rightarrow> 'w service \<Rightarrow> bool" where
  "steady view s t \<longleftrightarrow> sv_rows t = sv_rows s \<and> sv_state t = sv_state s \<and> files_of view t = files_of view s"

lemma steady_refl [simp]: "steady view s s"
  by (simp add: steady_def)

lemma steady_trans: "steady view s t \<Longrightarrow> steady view t u \<Longrightarrow> steady view s u"
  by (simp add: steady_def)

lemma sample_file_run:
  assumes "sample_file S key path s = (Inr b, s')"
  obtains t w where "stability_sample S (sv_stability s key) path 1000000000 (sv_world s) = (Inr (b, t), w)"
    and "s' = s\<lparr>sv_world := w, sv_stability := (sv_stability s)(key := t)\<rparr>"
  using assms unfolding sample_file_def by (auto simp: and_then_Inr in_os_Inr)

context posix
begin

lemma steady_in_os: "quiet view m \<Longrightarrow> keeps (steady view s) (in_os f m)"
  by (rule keepsI) (auto simp: steady_def files_of_def dest!: in_os_run dest: quietD)

lemma steady_suggest: "keeps (steady view s) (suggest L C S facts len)"
proof -
  have st: "keeps (steady view s) (state_of g)" for g :: "persistent \<Rightarrow> 'x" by (simp add: state_of_def)
  have a: "keeps (steady view s) (agent_or_fallback C S facts len reason fallback)" for reason fallback
    unfolding agent_or_fallback_def Let_def state_of_def
    by (intro keeps_rules steady_in_os quiet_try_result quiet_classify quiet_calls)
  show ?thesis
    unfolding suggest_def state_of_def
    by (intro keeps_and_then keeps_pure) (auto split: rule_decision.split intro!: keeps_pure a)
qed

lemma steady_sample: "sample_file S key path s = (Inr b, s') \<Longrightarrow> steady view s s'"
  by (erule sample_file_run) (auto simp: steady_def files_of_def dest: quietD [OF quiet_reading(2)])

lemma steady_warning:
  "keeps (steady view s) (case dst of None \<Rightarrow> ok x
     | Some d \<Rightarrow> and_then (try_result (in_os id (move_warning S p d))) (\<lambda>r. ok (res_ok r)))"
  by (intro keeps_rules steady_in_os quiet_recovering)

text \<open>Two reads of a file that has not changed give the same identity.\<close>

lemma identity_unique:
  assumes "identity_read S p w = (Inr i, w')" and "identity_read S p u = (Inr j, u')" and "plain_path p" and "view u = view w"
  shows "j = i"
  using identity_read_ok [OF assms(1,3)] identity_read_ok [OF assms(2,3)] assms(4) by force

lemma settled_identity:
  assumes "stability_sample S previous p settle w = (Inr (True, t), w')"
    and "0 < settle"
  shows "\<exists>i at. identity_read S p w = (Inr i, snd (identity_read S p w)) \<and> previous = Some (i, at) \<and>
    at + settle \<le> fst (os_now S (snd (identity_read S p w)))"
proof -
  from assms(1) obtain i u now where "identity_read S p w = (Inr i, u)" and "os_now S u = (now, w')"
    and "sample_stable previous i now settle"
    unfolding stability_sample_def by (auto simp: and_then_Inr)
  with assms(2) show ?thesis by (auto simp: sample_stable_def split: option.splits if_splits)
qed

end

context setting
begin

text \<open>A settled file read again is the file of both samples.\<close>

lemma settled_file:
  assumes pl: "plain_path p" and sample: "sample_file S key p s = (Inr True, s1)"
    and read: "in_os SFs (identity_read S p) s1 = (Inr i, s2)"
  obtains f at where "v_lookup (files_of view s) p = Some (object_of i)" and "v_file (files_of view s) (object_of i) = Some f"
    and "i = identity_of (object_of i) f" and "f_nlink f = 1" and "sv_stability s key = Some (i, at)"
    and "at + 1000000000 \<le> fst (os_now S (snd (identity_read S p (sv_world s))))"
proof -
  obtain w where w: "identity_read S p (sv_world s1) = (Inr i, w)" using read by (auto simp: in_os_Inr)
  have v1: "view (sv_world s1) = files_of view s" using steady_sample [OF sample] by (simp add: steady_def files_of_def)
  obtain t w0 where st: "stability_sample S (sv_stability s key) p 1000000000 (sv_world s) = (Inr (True, t), w0)"
    by (rule sample_file_run [OF sample])
  obtain j at where j: "identity_read S p (sv_world s) = (Inr j, snd (identity_read S p (sv_world s)))"
    and prev: "sv_stability s key = Some (j, at)"
    and old: "at + 1000000000 \<le> fst (os_now S (snd (identity_read S p (sv_world s))))"
    using settled_identity [OF st] by auto
  have "j = i" by (rule identity_unique [OF w j pl]) (simp add: v1 files_of_def)
  with identity_read_ok [OF w pl] prev old show thesis unfolding v1 by (blast intro: that)
qed

lemma consider_creates:
  assumes ok: "rows_ok L (sv_rows s)" and pl: "plain_path (path_join (rt_path root) relative)"
    and m: "consider_file L C S root relative s = (Inr True, s')"
  shows "\<exists>i f at sg warning pid mime. \<not> is_partial relative \<and>
    \<not> known_source (sv_state s) (rt_id root) (encode_relative L relative) \<and> \<not> known_identity (sv_state s) i \<and>
    v_lookup (files_of view s) (path_join (rt_path root) relative) = Some (object_of i) \<and>
    v_file (files_of view s) (object_of i) = Some f \<and> i = identity_of (object_of i) f \<and> f_nlink f = 1 \<and>
    sv_stability s (lib_uuid_text L (rt_id root) @ '':'' @ encode_relative L relative) = Some (i, at) \<and>
    at + 1000000000 \<le> fst (os_now S (snd (identity_read S (path_join (rt_path root) relative) (sv_world s)))) \<and>
    (fst sg \<noteq> None \<longrightarrow> by_rule L (sv_state s) ((facts_for relative (rt_id root) True)\<lparr>verified_mime := mime\<rparr>) sg \<or> by_agent (sv_state s) sg) \<and>
    ps_proposals (sv_state s') = ps_proposals (sv_state s) @ [new_proposal L (sv_state s) root relative i sg warning pid] \<and>
    entries_in L s pid = None \<and> rows_ok L (sv_rows s') \<and> entries_in L s' = (entries_in L s)(pid \<mapsto>
      journal_entry_for (path_join (rt_path root) relative) (proposed_path (sv_state s) (fst sg) relative) i pid)"
  using m
proof (rule consider_run)
  let ?p = "path_join (rt_path root) relative"
  let ?key = "lib_uuid_text L (rt_id root) @ '':'' @ encode_relative L relative"
  fix i mime sg warning pid s1 s2 s3 s4 s5 s6 s7 x
  assume new: "\<not> is_partial relative" "\<not> known_source (sv_state s) (rt_id root) (encode_relative L relative)"
      "\<not> known_identity (sv_state s) i"
    and sample: "sample_file S ?key ?p s = (Inr True, s1)"
    and read: "in_os SFs (identity_read S ?p) s1 = (Inr i, s2)"
    and sniff: "in_os SIo (sniff_mime S ?p) s2 = (Inr mime, s3)"
    and sg: "suggest L C S ((facts_for relative (rt_id root) True)\<lparr>verified_mime := mime\<rparr>) (id_size i) s3 = (Inr sg, s4)"
    and warn: "(case proposed_path (sv_state s) (fst sg) relative of
           None \<Rightarrow> ok (snd (snd (snd sg)))
         | Some dst \<Rightarrow> and_then (try_result (in_os id (move_warning S ?p dst))) (\<lambda>r. ok (res_ok r))) s4
       = (Inr warning :: service_error + string option, s5)"
    and uuid: "in_os SIo (total (os_new_uuid S)) s5 = (Inr pid, s6)"
    and create: "in_journal (create L S (journal_entry_for ?p (proposed_path (sv_state s) (fst sg) relative) i pid)) s6 = (Inr x, s7)"
    and s': "s7\<lparr>sv_state := (sv_state s7)\<lparr>ps_proposals := ps_proposals (sv_state s7) @
      [new_proposal L (sv_state s7) root relative i sg warning pid]\<rparr>\<rparr> = s'"
  note at1 = steady_sample [OF sample]
  note at2 = steady_trans [OF at1 keepsD [OF steady_in_os [OF quiet_reading(1)] steady_refl read]]
  note at3 = steady_trans [OF at2 keepsD [OF steady_in_os [OF quiet_recovering(4)] steady_refl sniff]]
  note at4 = steady_trans [OF at3 keepsD [OF steady_suggest steady_refl sg]]
  note at5 = steady_trans [OF at4 keepsD [OF steady_warning steady_refl warn]]
  note at6 = steady_trans [OF at5 keepsD [OF steady_in_os [OF quiet_calls(14)] steady_refl uuid]]
  obtain f at where f: "v_lookup (files_of view s) ?p = Some (object_of i)" "v_file (files_of view s) (object_of i) = Some f"
    "i = identity_of (object_of i) f" "f_nlink f = 1" and stab: "sv_stability s ?key = Some (i, at)"
    and old: "at + 1000000000 \<le> fst (os_now S (snd (identity_read S ?p (sv_world s))))"
    by (rule settled_file [OF pl sample read])
  have ok6: "rows_ok L (sv_rows s6)" using at6 ok by (simp add: steady_def)
  have eq6: "entries_in L s6 = entries_in L s" using at6 by (simp add: steady_def entries_in_def fun_eq_iff)
  let ?e = "journal_entry_for ?p (proposed_path (sv_state s) (fst sg) relative) i pid"
  have id: "e_id ?e = pid" and sha: "e_sha256 ?e = None" by (simp_all add: journal_entry_for_def)
  have "rows_ok L (sv_rows s7) \<and> sv_state s7 = sv_state s6 \<and> spec_create ?e (entries_in L s) = Inr ((), entries_in L s7)"
    using in_journal_outcome [OF create_implements [OF sha] ok6 create] unfolding eq6
    by (cases "spec_create ?e (entries_in L s)") auto
  then have c: "rows_ok L (sv_rows s7)" "sv_state s7 = sv_state s" "entries_in L s pid = None" "entries_in L s7 = (entries_in L s)(pid \<mapsto> ?e)"
    using at6 id by (auto simp: steady_def spec_create_def split: if_splits)
  have r: "fst sg \<noteq> None \<longrightarrow> by_rule L (sv_state s) ((facts_for relative (rt_id root) True)\<lparr>verified_mime := mime\<rparr>) sg \<or> by_agent (sv_state s) sg"
    using suggest_registered [OF sg] at3 by (simp add: steady_def)
  have "ps_proposals (sv_state s') = ps_proposals (sv_state s) @ [new_proposal L (sv_state s) root relative i sg warning pid]"
    "rows_ok L (sv_rows s')" "entries_in L s' = (entries_in L s)(pid \<mapsto> ?e)"
    using s' c by (auto simp: entries_in_def fun_eq_iff)
  with new f stab old r c(3) show ?thesis by blast
qed

end

end
