(* ===== verification/Service_Properties.thy ===== *)
theory Service_Properties
  imports Scan_Laws Reference_Service
begin

text \<open>
  The properties of the review service beside the moves: the state file, the restart after an
  interruption, what a scan turns into a proposal, and the wait for the classifier.
\<close>

section \<open>The state file\<close>

text \<open>C14. A save replaces the state file as a whole or not at all: whichever call fails, the file
  holds the bytes it held before or the complete encoding of the state in memory, within 8 MiB;
  after a success it is the latter. No other file changes, and the memory stays.\<close>

theorem save_all_or_nothing:
  assumes "posix S view" and "save C S s = (r, s')"
  shows "(on_disk view s' = on_disk view s \<or> saved_as C view (sv_state s) s') \<and>
    (r = Inr () \<longrightarrow> saved_as C view (sv_state s) s') \<and>
    same_files (files_of view s) (files_of view s') \<and> sv_state s' = sv_state s"
  using posix.save_disk [OF assms] files_onlyD [OF posix.files_only_save [OF assms(1)] assms(2)]
    memory_keptD [OF memory_kept_save assms(2)] by blast

theorem save_all_or_nothing_witness:
  "saved_as house_codec sim_view house (snd (save house_codec sim_os letter_service))"
proof -
  have went: "fst (save house_codec sim_os letter_service) = Inr ()"
    by (simp add: in_house cong: and_then_step)
  show ?thesis
    using save_all_or_nothing [OF sim.posix_axioms prod.collapse [symmetric], of house_codec letter_service] went
    by (simp add: letter_service_run)
qed

text \<open>C21. What was saved is what a start loads: with a \<open>serde_json\<close> that reads back what it wrote,
  loading after a successful save gives exactly the saved state or reports the failed call; only
  where \<open>Path::exists\<close> cannot tell and says no does it start from the fresh state.\<close>

theorem load_returns_saved:
  assumes "posix S view" and "codec_ok C" and "ps_schema_version (sv_state s) = 1" and "save C S s = (Inr (), s')"
    and "load_state C S (sv_world s') = (r, w)"
  shows "if fst (os_state_exists S (sv_world s')) then r = Inr (sv_state s) \<or> (\<exists>e. r = Inl (SIo e)) else r = Inr fresh_state"
proof -
  have "\<And>st b. json_of_state C st = Some b \<Longrightarrow> json_to_state C b = Some st" using assms(2) by (simp add: codec_ok_def)
  from posix.load_saved [OF assms(1) this posix.save_disk(2) [OF assms(1,4) refl] assms(3,5)] show ?thesis by auto
qed

theorem load_returns_saved_witness:
  "fst (load_state house_codec sim_os (house_tree\<lparr>sim_state := Some ''.''\<rparr>)) = Inr house"
proof -
  have went: "save house_codec sim_os letter_service = (Inr (), letter_service\<lparr>sv_world := house_tree\<lparr>sim_state := Some ''.''\<rparr>\<rparr>)"
    by (simp add: in_house cong: and_then_step)
  have "json_to_state house_codec ''.'' = Some house" by (simp add: house_codec_def table_codec_def)
  then have read: "fst (load_state house_codec sim_os (house_tree\<lparr>sim_state := Some ''.''\<rparr>)) \<noteq> Inl (SIo e)" for e
    by (simp add: in_house load_state_def cong: and_then_step)
  have present: "fst (os_state_exists sim_os (house_tree\<lparr>sim_state := Some ''.''\<rparr>))"
    by (simp add: in_house cong: and_then_step)
  have "ps_schema_version (sv_state letter_service) = 1" by (simp add: letter_service_run house_def fresh_state_def)
  from load_returns_saved [OF sim.posix_axioms house_codec_ok this went prod.collapse [symmetric]] read present
  show ?thesis by (simp add: letter_service_run)
qed

section \<open>Restart\<close>

text \<open>C7. Recovery does not guess. On a journal whose entries with a removed source have paths of the
  form folder and name: whatever it returns, an entry is as it was, or was interrupted and is
  flagged for attention, or had its source removed and is completed, and then only because the
  source is gone and the destination holds a file of the recorded size with the recorded digest
  or identity. A success leaves none of the interrupted entries its listing reached as it was:
  each one is completed on that evidence or flagged. The user's files are not touched.\<close>

theorem recovery_needs_evidence:
  assumes "posix S view" and "libs_ok L" and "rows_ok L (sv_rows s)"
    and "\<And>u e. entries_in L s u = Some e \<Longrightarrow> e_state e = SourceRemoved \<Longrightarrow> plain_tokens e"
    and "recover_without_guessing L C S s = (r, s')"
  shows "rows_ok L (sv_rows s') \<and> same_files (files_of view s) (files_of view s') \<and>
    recovered L (files_of view s) (proposal_of (sv_state s)) (entries_in L s u) (entries_in L s' u) \<and>
    (\<forall>e. r = Inr () \<and> u \<in> oldest_active L (sv_rows s) \<and> entries_in L s u = Some e \<and> interrupted (e_state e) \<longrightarrow>
       decided L (files_of view s) (proposal_of (sv_state s)) e (entries_in L s' u))"
proof -
  note st = setting.intro [OF assms(1,2)]
  have "decided L (files_of view s) (proposal_of (sv_state s)) e (entries_in L s' u)"
    if "r = Inr ()" "u \<in> oldest_active L (sv_rows s)" "entries_in L s u = Some e" "interrupted (e_state e)" for e
    by (rule setting.recover_decides [OF st assms(3) _ assms(5) [unfolded that(1)] that(2-4)]) (rule assms(4))
  moreover have "rows_ok L (sv_rows s') \<and> same_files (files_of view s) (files_of view s') \<and>
    recovered L (files_of view s) (proposal_of (sv_state s)) (entries_in L s u) (entries_in L s' u)"
    by (rule setting.recover_evidence [OF st assms(3) _ assms(5)]) (rule assms(4))
  ultimately show ?thesis by blast
qed

lemma stopped_entries: "entries_in ref_libs stopped_service u = Some e \<Longrightarrow> u = 7 \<and> plain_tokens e"
proof -
  assume e: "entries_in ref_libs stopped_service u = Some e"
  have "plain_path ''/in/a''" "plain_path ''/papers/bills/a''"
    unfolding plain_path_def
    by (intro exI [of _ "''/in''"] exI [of _ "''a''"] exI [of _ "''/papers/bills''"]; simp add: run entry_name_def)+
  moreover have "ref_uuid_text 7 = ref_uuid_text u \<Longrightarrow> u = 7" using ref_uuid_roundtrip by (metis option.inject)
  ultimately show ?thesis using e
    by (auto simp: entries_in_def entries_of_def stopped_service_def letter_row_def row_of_entry_def ref_libs_fields
        entry_of_row_def plain_tokens_def res_then_Inr_iff split: if_splits option.splits)
qed

lemma stopped_entry:
  "\<exists>e. entries_in ref_libs stopped_service 7 = Some e \<and> interrupted (e_state e)"
  by (simp add: entries_in_def entries_of_def stopped_service_def letter_row_def row_of_entry_def ref_libs_fields
      entry_of_row_def run interrupted_def)

lemma stopped_listed: "unlisted ref_libs (sv_rows stopped_service) = {}"
proof -
  have "active_ids (entries_in ref_libs stopped_service) \<subseteq> {7}" using stopped_entries by (auto simp: active_ids_def)
  then have "card (active_ids (entries_in ref_libs stopped_service)) \<le> card {7 :: uuid}" by (intro card_mono) auto
  then show ?thesis using libs_ok.few_unlisted [OF reference.libs_ok_axioms stopped_service_ok] by (simp add: entries_in_def)
qed

theorem recovery_needs_evidence_witness:
  "\<exists>e. entries_in ref_libs stopped_service 7 = Some e \<and>
    decided ref_libs (files_of sim_view stopped_service) (proposal_of (sv_state stopped_service)) e
      (entries_in ref_libs restarted_service 7)"
proof -
  obtain e where e: "entries_in ref_libs stopped_service 7 = Some e" "interrupted (e_state e)" using stopped_entry by blast
  then have "7 \<in> active_ids (entries_of ref_libs (sv_rows stopped_service))"
    by (auto simp: active_ids_def entries_in_def terminal_def interrupted_def)
  then have "7 \<in> oldest_active ref_libs (sv_rows stopped_service)" using stopped_listed by (auto simp: unlisted_def)
  with e recovery_needs_evidence [OF sim.posix_axioms reference.libs_ok_axioms stopped_service_ok _ restart_house, of 7]
    stopped_entries show ?thesis by blast
qed

text \<open>C18. A successful recovery settles whatever its listing reached: the entries still interrupted after it
  are beyond the thousand active entries longest unchanged, and such an entry is as it was before.
  With at most a thousand active entries no entry is left in an interrupted state.\<close>

theorem recovery_settles:
  assumes "posix S view" and "libs_ok L" and "rows_ok L (sv_rows s)"
    and "recover_without_guessing L C S s = (Inr z, s')" and "entries_in L s' u = Some e"
  shows "(u \<in> oldest_active L (sv_rows s) \<longrightarrow> \<not> interrupted (e_state e)) \<and>
    (u \<notin> oldest_active L (sv_rows s) \<longrightarrow> entries_in L s u = Some e) \<and>
    (card (active_ids (entries_in L s)) \<le> 1000 \<longrightarrow> \<not> interrupted (e_state e))"
proof -
  note st = setting.intro [OF assms(1,2)]
  have "\<not> interrupted (e_state e)" if "card (active_ids (entries_in L s)) \<le> 1000"
    using setting.recover_leaves_unlisted [OF st assms(3-5)] libs_ok.few_unlisted [OF assms(2,3)] that
    by (auto simp: entries_in_def)
  then show ?thesis using setting.recover_settles [OF st assms(3,4), of u] assms(5) by auto
qed

theorem recovery_settles_witness:
  "\<exists>e. entries_in ref_libs restarted_service 7 = Some e \<and> \<not> interrupted (e_state e)"
proof -
  have "active_ids (entries_in ref_libs stopped_service) \<subseteq> {7}" using stopped_entries by (auto simp: active_ids_def)
  then have "card (active_ids (entries_in ref_libs stopped_service)) \<le> card {7 :: uuid}" by (intro card_mono) auto
  then have few: "card (active_ids (entries_in ref_libs stopped_service)) \<le> 1000" by simp
  have "\<exists>e. entries_in ref_libs restarted_service 7 = Some e"
    by (simp add: entries_in_def entries_of_def restarted_service_def letter_row_def row_of_entry_def ref_libs_fields
        entry_of_row_def run)
  with recovery_settles [OF sim.posix_axioms reference.libs_ok_axioms stopped_service_ok restart_house] few show ?thesis by blast
qed

section \<open>A scan\<close>

text \<open>C10. A scan proposes only what it may. For a path of the form folder and name, a new proposal is
  for a regular file with one link, under no partial name, whose identity was the same at the sample
  before, taken at least a second before the clock is read now, which no waiting proposal names and
  no proposal has seen with this identity; its identity is the file's, its destination, if any, is a rule's or a registered folder the agent chose, and the journal has
  a fresh entry for it.\<close>

theorem scan_proposes_settled_files:
  assumes "posix S view" and "libs_ok L" and "rows_ok L (sv_rows s)" and "plain_path (path_join (rt_path root) relative)"
    and "consider_file L C S root relative s = (Inr True, s')"
  shows "\<exists>i f at sg warning pid mime. \<not> is_partial relative \<and>
    \<not> known_source (sv_state s) (rt_id root) (encode_relative L relative) \<and> \<not> known_identity (sv_state s) i \<and>
    v_lookup (files_of view s) (path_join (rt_path root) relative) = Some (object_of i) \<and>
    v_file (files_of view s) (object_of i) = Some f \<and> i = identity_of (object_of i) f \<and> f_nlink f = 1 \<and>
    sv_stability s (lib_uuid_text L (rt_id root) @ '':'' @ encode_relative L relative) = Some (i, at) \<and>
    at + 1000000000 \<le> fst (os_now S (snd (identity_read S (path_join (rt_path root) relative) (sv_world s)))) \<and>
    (fst sg \<noteq> None \<longrightarrow> by_rule L (sv_state s) ((facts_for relative (rt_id root) True)\<lparr>verified_mime := mime\<rparr>) sg \<or> by_agent (sv_state s) sg) \<and>
    ps_proposals (sv_state s') = ps_proposals (sv_state s) @ [new_proposal L (sv_state s) root relative i sg warning pid] \<and>
    entries_in L s pid = None \<and> rows_ok L (sv_rows s') \<and> entries_in L s' = (entries_in L s)(pid \<mapsto>
      journal_entry_for (path_join (rt_path root) relative) (proposed_path (sv_state s) (fst sg) relative) i pid)"
  using setting.consider_creates [OF setting.intro [OF assms(1,2)] assms(3-5)] .

definition watching_service :: "sim service" where
  "watching_service = letter_service\<lparr>sv_state := house\<lparr>ps_proposals := []\<rparr>, sv_rows := [],
     sv_stability := (\<lambda>k. if k = ''1:a'' then Some (letter_identity, 5000000000) else None)\<rparr>"

abbreviation in_root :: root where
  "in_root \<equiv> \<lparr>rt_id = 1, rt_path = ''/in'', rt_watched = True, rt_destination = False\<rparr>"

theorem scan_proposes_settled_files_witness:
  "\<exists>i sg warning pid. ps_proposals (sv_state (snd (consider_file ref_libs house_codec sim_os in_root ''a'' watching_service))) =
    [new_proposal ref_libs (house\<lparr>ps_proposals := []\<rparr>) in_root ''a'' i sg warning pid]"
proof -
  have went: "fst (consider_file ref_libs house_codec sim_os in_root ''a'' watching_service) = Inr True"
    by (simp add: in_house watching_service_def consider_file_def sample_file_def is_partial_def known_source_def known_identity_def
        encode_relative_def facts_for_def sniff_mime_def suggest_def evaluate_rules_def ends_with_def agent_or_fallback_def
        proposed_path_def create_def active_count_def nonterminal_rows_def MAX_ACTIVE_def cong: and_then_step)
  have p: "plain_path (path_join (rt_path in_root) ''a'')"
    unfolding plain_path_def by (intro exI [of _ "''/in''"] exI [of _ "''a''"]) (simp add: run entry_name_def)
  have "rows_ok ref_libs (sv_rows watching_service)" by (simp add: watching_service_def rows_ok_def)
  from scan_proposes_settled_files [OF sim.posix_axioms reference.libs_ok_axioms this p, of house_codec]
  have "\<exists>i sg warning pid. ps_proposals (sv_state (snd (consider_file ref_libs house_codec sim_os in_root ''a'' watching_service))) =
    ps_proposals (sv_state watching_service) @ [new_proposal ref_libs (sv_state watching_service) in_root ''a'' i sg warning pid]"
    using went by (metis prod.collapse)
  then show ?thesis by (simp add: watching_service_def)
qed

section \<open>Waiting for the classifier\<close>

text \<open>The loop of \<open>classify\<close> as it is written, without a bound on its polls.\<close>

inductive waits :: "polls \<Rightarrow> poll_result \<Rightarrow> bool" where
  waits_exited: "waits Exited ChildExited"
| waits_error: "waits (PollError e) (ChildPollError e)"
| waits_deadline: "30000 \<le> elapsed \<Longrightarrow> waits (Running elapsed rest) DeadlinePassed"
| waits_again: "elapsed < 30000 \<Longrightarrow> waits rest r \<Longrightarrow> waits (Running elapsed rest) r"

lemma waits_loop: "paced t ps \<Longrightarrow> t < 30000 \<Longrightarrow> int k * 25 + t \<ge> 30025 \<Longrightarrow> waits ps (poll_loop k ps)"
proof (induction k arbitrary: t ps)
  case (Suc k)
  show ?case
  proof (cases ps)
    case (Running t' rest)
    show ?thesis
    proof (cases "t' \<ge> 30000")
      case True
      with Running show ?thesis by (simp add: waits_deadline)
    next
      case False
      with Suc.prems Running have "paced t' rest" "int k * 25 + t' \<ge> 30025" by (auto simp: paced_Running)
      with Suc.IH False Running show ?thesis by (simp add: waits_again)
    qed
  qed (simp_all add: waits_exited waits_error)
qed simp

text \<open>C37. The wait for the classifier ends: if two polls of the child are at least 25 ms apart, the loop
  returns, however long the child runs, and with the result the model computes.\<close>

theorem agent_wait_ends:
  assumes "paced (- 25) ps"
  shows "waits ps (poll_loop poll_fuel ps)"
  by (rule waits_loop [OF assms]) (simp_all add: poll_fuel_def)

theorem agent_wait_ends_witness:
  "waits (Running 0 (Running 40 Exited)) ChildExited"
proof -
  have "paced (- 25) (Running 0 (Running 40 Exited))" by (simp add: paced_Running paced_exited)
  moreover have "poll_loop poll_fuel (Running 0 (Running 40 Exited)) = ChildExited"
    by (simp add: poll_fuel_def numeral_eq_Suc)
  ultimately show ?thesis using agent_wait_ends by metis
qed

end
