(* ===== verification/Walk_Laws.thy ===== *)
theory Walk_Laws
  imports Service_Queue
begin

text \<open>
  The bounded walk of a watched root: over folders that do not change while it runs it finds every
  regular file below the root, follows no symbolic link, and stays within its bounds.
\<close>

section \<open>One directory\<close>

definition dir_has :: "(errno + string \<times> (errno + ftype)) list \<Rightarrow> ftype \<Rightarrow> string \<Rightarrow> bool" where
  "dir_has es t n \<longleftrightarrow> Inr (n, Inr t) \<in> set es"

lemma walk_dir_sets:
  assumes "walk_dir rel k es pending res = Inr (pending', res')"
  shows "set pending' = set pending \<union> (\<lambda>n. (path_join rel n, k + 1)) ` {n. dir_has es FDirectory n}"
    and "set res' = set res \<union> path_join rel ` {n. dir_has es FRegular n}"
    and "length res \<le> MAX_WALK_FILES \<Longrightarrow> length res' \<le> MAX_WALK_FILES"
  using assms
proof (induction rel k es pending res rule: walk_dir.induct)
  case (4 rel k n t es pending res)
  {
    case 1
    with 4 show ?case by (cases t) (auto simp: dir_has_def split: if_splits)
  next
    case 2
    with 4 show ?case by (cases t) (auto simp: dir_has_def split: if_splits)
  next
    case 3
    with 4 show ?case by (cases t) (auto split: if_splits)
  }
qed (auto simp: dir_has_def)

section \<open>The folders below a folder\<close>

type_synonym listing = "string \<Rightarrow> errno + (errno + string \<times> (errno + ftype)) list"

definition holds :: "listing \<Rightarrow> string \<Rightarrow> ftype \<Rightarrow> string \<Rightarrow> bool" where
  "holds ls p t n \<longleftrightarrow> (case ls p of Inl e \<Rightarrow> False | Inr es \<Rightarrow> dir_has es t n)"

inductive below :: "listing \<Rightarrow> string \<Rightarrow> string \<times> nat \<Rightarrow> string \<times> nat \<Rightarrow> bool" for ls root where
  below_self: "below ls root d d"
| below_folder: "holds ls (path_join root (fst d)) FDirectory n \<Longrightarrow>
    below ls root (path_join (fst d) n, snd d + 1) e \<Longrightarrow> below ls root d e"

definition folders_below :: "listing \<Rightarrow> string \<Rightarrow> (string \<times> nat) set \<Rightarrow> (string \<times> nat) set" where
  "folders_below ls root ds = {e. \<exists>d \<in> ds. below ls root d e}"

text \<open>The regular files in the folders below one of a set of folders.\<close>

definition files_below :: "listing \<Rightarrow> string \<Rightarrow> (string \<times> nat) set \<Rightarrow> string set" where
  "files_below ls root ds = (\<Union>e \<in> folders_below ls root ds. path_join (fst e) ` {n. holds ls (path_join root (fst e)) FRegular n})"

definition children :: "listing \<Rightarrow> string \<Rightarrow> string \<times> nat \<Rightarrow> (string \<times> nat) set" where
  "children ls root d = (\<lambda>n. (path_join (fst d) n, snd d + 1)) ` {n. holds ls (path_join root (fst d)) FDirectory n}"

lemma below_iff: "below ls root d e \<longleftrightarrow> e = d \<or> (\<exists>c \<in> children ls root d. below ls root c e)"
  unfolding children_def by (subst below.simps) auto

lemma folders_below_step: "folders_below ls root {d} = insert d (folders_below ls root (children ls root d))"
  unfolding folders_below_def using below_iff [of ls root d] by auto

lemma below_Un:
  "folders_below ls root (A \<union> B) = folders_below ls root A \<union> folders_below ls root B"
  "files_below ls root (A \<union> B) = files_below ls root A \<union> files_below ls root B"
  unfolding files_below_def folders_below_def by blast+

lemma below_none [simp]: "folders_below ls root {} = {}" "files_below ls root {} = {}"
  by (simp_all add: files_below_def folders_below_def)

lemma folders_below_insert:
  "folders_below ls root (insert d A) = insert d (folders_below ls root (A \<union> children ls root d))"
  using below_Un(1) [of ls root "{d}" A] by (auto simp: folders_below_step below_Un)

lemma files_below_insert:
  "files_below ls root (insert d A) = path_join (fst d) ` {n. holds ls (path_join root (fst d)) FRegular n} \<union>
     files_below ls root (A \<union> children ls root d)"
  unfolding files_below_def folders_below_insert by simp

section \<open>The walk\<close>

text \<open>What a walk of the folders still pending promises: what it finds, and the bounds it has kept.\<close>

definition walked :: "listing \<Rightarrow> string \<Rightarrow> (string \<times> nat) set \<Rightarrow> nat \<Rightarrow> string list \<Rightarrow> string list \<Rightarrow> bool" where
  "walked ls root ds k res files \<longleftrightarrow> set files = set res \<union> files_below ls root ds \<and>
     (length res \<le> MAX_WALK_FILES \<longrightarrow> length files \<le> MAX_WALK_FILES) \<and>
     (\<forall>e \<in> folders_below ls root ds. snd e \<le> MAX_WALK_DEPTH) \<and>
     finite (folders_below ls root ds) \<and> card (folders_below ls root ds) + k \<le> MAX_WALK_DIRECTORIES"

lemma walked_step:
  assumes "walked ls root (A \<union> children ls root d) (k + 1) res' files"
    and "set res' = set res \<union> path_join (fst d) ` {n. holds ls (path_join root (fst d)) FRegular n}"
    and "length res \<le> MAX_WALK_FILES \<Longrightarrow> length res' \<le> MAX_WALK_FILES" and "snd d \<le> MAX_WALK_DEPTH"
  shows "walked ls root (insert d A) k res files"
  using assms card_insert_le_m1 [of "Suc (card (folders_below ls root (A \<union> children ls root d)))"]
    card_insert_if [of "folders_below ls root (A \<union> children ls root d)" d]
  unfolding walked_def files_below_insert folders_below_insert by (auto split: if_splits)

lemma walk_complete:
  assumes ls: "\<And>p u. I u \<Longrightarrow> fst (os_read_dir S p u) = ls p \<and> I (snd (os_read_dir S p u))"
    and "walk S root pending k res w = (Inr files, w')" and "I w" and "k \<le> MAX_WALK_DIRECTORIES"
  shows "walked ls root (set pending) k res files"
  using assms
proof (induction S root pending k res w rule: walk.induct)
  case (2 S root rel depth pending k res w)
  let ?p = "path_join root rel" and ?d = "(rel, depth)"
  obtain x u where read: "os_read_dir S ?p w = (x, u)" by fastforce
  with "2.prems"(1) [OF "2.prems"(3), of ?p] have x: "ls ?p = x" and u: "I u" by auto
  have small: "\<not> (k + 1 > MAX_WALK_DIRECTORIES \<or> depth > MAX_WALK_DEPTH)"
    using "2.prems"(2) by (auto split: if_splits)
  from "2.prems"(2) small read obtain es pending' res' where es: "x = Inr es"
    and dir: "walk_dir rel depth es pending res = Inr (pending', res')"
    and run: "walk S root pending' (k + 1) res' u = (Inr files, w')"
    by (cases x) (auto simp: and_then_Inr)
  have h: "holds ls ?p t n = dir_has es t n" for t n by (simp add: holds_def x es)
  note sets = walk_dir_sets [OF dir]
  have "walked ls root (set pending') (k + 1) res' files"
    using "2.IH" [of es u "(pending', res')" u] "2.prems"(1) small run u read es dir by simp
  moreover have "set pending' = set pending \<union> children ls root ?d" using sets(1) by (simp add: children_def h)
  ultimately show ?case using walked_step [of ls root "set pending" ?d k res' files res] sets(2,3) small by (simp add: h)
qed (simp_all add: walked_def)

end
