(* ===== verification/Review_Laws.thy ===== *)
theory Review_Laws
  imports Move_Results Walk_Laws
begin

text \<open>
  What a successful change of a proposal leaves: the choice of a destination and the new name, in
  memory and in the journal; and what a rule made from a proposal decides.
\<close>

section \<open>Revising an entry\<close>

context libs_ok
begin

lemma revise_ok:
  assumes "rows_ok L (sv_rows s)" and "in_journal (revise_proposal L S u n token) s = (Inr x, s')"
  shows "rows_ok L (sv_rows s')" and "sv_state s' = sv_state s"
    and "\<exists>e. entries_in L s u = Some e \<and> e_revision e = n \<and> e_state e = Proposed \<and>
      x = e\<lparr>e_destination_token := token, e_revision := n + 1\<rparr>"
    and "entries_in L s' = (entries_in L s)(u \<mapsto> x)"
proof -
  have "\<exists>B. spec_revise u n token (entries_in L s) = Inr (x, B) \<and> entries_in L s' = B \<and>
      rows_ok L (sv_rows s') \<and> sv_state s' = sv_state s"
    using in_journal_outcome [OF revise_implements assms]
    by (cases "spec_revise u n token (entries_in L s)") auto
  then obtain B where sp: "spec_revise u n token (entries_in L s) = Inr (x, B)" and B: "entries_in L s' = B"
    and ok: "rows_ok L (sv_rows s')" "sv_state s' = sv_state s" by blast
  have "\<exists>e. entries_in L s u = Some e \<and> e_revision e = n \<and> e_state e = Proposed \<and>
      x = e\<lparr>e_destination_token := token, e_revision := n + 1\<rparr> \<and> B = (entries_in L s)(e_id e \<mapsto> x)"
    using sp by (auto simp: spec_revise_def advance_def split: option.splits if_splits)
  then show "\<exists>e. entries_in L s u = Some e \<and> e_revision e = n \<and> e_state e = Proposed \<and>
      x = e\<lparr>e_destination_token := token, e_revision := n + 1\<rparr>" "entries_in L s' = (entries_in L s)(u \<mapsto> x)"
    unfolding B using entries_in_id by fastforce+
  show "rows_ok L (sv_rows s')" "sv_state s' = sv_state s" by (fact ok)+
qed

end

text \<open>One revision of an entry that was waiting at revision \<open>n\<close>: its token is new and its revision the next.\<close>

definition revised :: "libs \<Rightarrow> uuid \<Rightarrow> u64 \<Rightarrow> string \<Rightarrow> 'w service \<Rightarrow> 'w service \<Rightarrow> bool" where
  "revised L pid n token s s' \<longleftrightarrow> rows_ok L (sv_rows s') \<and>
     (\<exists>e. entries_in L s pid = Some e \<and> e_revision e = n \<and> e_state e = Proposed \<and>
        entries_in L s' = (entries_in L s)(pid \<mapsto> e\<lparr>e_destination_token := token, e_revision := n + 1\<rparr>))"

lemma set_state_run: "set_state f s = (Inr (), s\<lparr>sv_state := f (sv_state s)\<rparr>)"
  by (simp add: set_state_def)

lemma set_stateE:
  assumes "set_state f s = (Inr x :: service_error + unit, s')"
  obtains "s' = s\<lparr>sv_state := f (sv_state s)\<rparr>"
  by (rule that) (use assms in \<open>simp add: set_state_run\<close>)

lemma state_of_InrE:
  assumes "state_of g s = (Inr y :: 'e + 'a, s')"
  obtains "y = g (sv_state s)" and "s' = s"
proof -
  have "(Inr (g (sv_state s)) :: 'e + 'a, s) = (Inr y, s')" using assms unfolding state_of_def gets_def .
  then show thesis by (rule Pair_inject) (rule that, drule Inr_inject, erule sym, erule sym)
qed

lemma fail_if_InrE:
  assumes "fail_if c e s = (Inr x, s')"
  obtains "\<not> c" and "s' = s"
  using assms by (auto simp: fail_if_def split: if_splits)

lemma find_root_ok: "find_root f st = Inr r \<Longrightarrow> r \<in> set (ps_roots st) \<and> f r"
  unfolding find_root_def by (cases "List.find f (ps_roots st)") (auto dest: find_Some_set)

lemma lossy_utf8: "to_str s \<noteq> None \<Longrightarrow> to_string_lossy s = s"
  by (rule to_string_lossy_valid) (auto simp: to_str_def split: if_splits)

context libs_ok
begin

text \<open>The shared end of both requests: the journal, the memory, the save.\<close>

lemma revise_end:
  assumes ok: "rows_ok L (sv_rows s)" and i: "i < length (ps_proposals (sv_state s))"
    and r: "in_journal (revise_proposal L S pid n token) s = (Inr e, s1)"
    and u: "set_state (update_proposal i (f (e_revision e))) s1 = (Inr x :: service_error + unit, s2)"
    and g: "state_of (\<lambda>st. ps_proposals st ! i) s2 = (Inr p :: service_error + proposal, s3)"
    and v: "save C S s3 = (Inr z, s')"
  shows "revised L pid n token s s'" and "p = f (n + 1) (ps_proposals (sv_state s) ! i)"
    and "sv_state s' = update_proposal i (f (n + 1)) (sv_state s)"
proof -
  note q = revise_ok [OF ok r]
  have e: "e_revision e = n + 1" using q(3) by auto
  have s2: "s2 = s1\<lparr>sv_state := update_proposal i (f (n + 1)) (sv_state s)\<rparr>" using u e q(2) by (elim set_stateE) simp
  have s3: "s3 = s2" "p = ps_proposals (sv_state s2) ! i" using g by (auto elim: state_of_InrE)
  obtain w where s': "s' = s3\<lparr>sv_world := w\<rparr>" using save_state [OF v] by blast
  show "revised L pid n token s s'"
    using q(1,3,4) s2 s3 by (auto simp: revised_def s' entries_in_def fun_eq_iff)
  show "sv_state s' = update_proposal i (f (n + 1)) (sv_state s)" using s2 s3 by (simp add: s')
  show "p = f (n + 1) (ps_proposals (sv_state s) ! i)" using s2 s3(2) i by (simp add: update_proposal_def)
qed

section \<open>A new name\<close>

lemma rename_run:
  assumes ok: "rows_ok L (sv_rows s)" and m: "rename_proposal L C S pid n name s = (Inr p, s')"
  obtains i c r where "proposal_index (sv_state s) pid n = Inr i" and "components name = [Normal (the (file_name name))]"
    and "p_destination (ps_proposals (sv_state s) ! i) = Some c"
    and "find_root (\<lambda>r. rt_id r = ch_root_id c \<and> rt_destination r) (sv_state s) = Inr r"
    and "revised L pid n (path_join (path_join (rt_path r) (ch_directory c)) name) s s'"
    and "p = (ps_proposals (sv_state s) ! i)\<lparr>p_revision := n + 1, p_destination_name := Some name,
          p_destination_display := Some (display_path (path_join (path_join (rt_path r) (ch_directory c)) name))\<rparr>"
    and "sv_state s' = update_proposal i (\<lambda>_. p) (sv_state s)"
proof -
  from m [unfolded rename_proposal_def Let_def]
  obtain x s1 st s2 i s3 c s4 r s5 e s6 y s7 d s8 z s9 where f: "fail_if (length name > 255 \<or> length (components name) \<noteq> 1
        \<or> \<not> (case components name of c # _ \<Rightarrow> is_normal c | [] \<Rightarrow> False)) SUnsafePath s = (Inr x, s1)"
    and st: "state_of (\<lambda>x. x) s1 = (Inr st :: service_error + persistent, s2)"
    and i: "proposal_index st pid n = Inr i" "s2 = s3"
    and c: "ok_or DestinationRequired (p_destination (ps_proposals st ! i)) = Inr c" "s3 = s4"
    and r: "find_root (\<lambda>r. rt_id r = ch_root_id c \<and> rt_destination r) st = Inr r" "s4 = s5"
    and e: "in_journal (revise_proposal L S pid n (path_join (path_join (rt_path r) (ch_directory c)) name)) s5 = (Inr e, s6)"
    and u: "set_state (update_proposal i (\<lambda>p. p\<lparr>p_revision := e_revision e, p_destination_name := Some name,
          p_destination_display := Some (display_path (path_join (path_join (rt_path r) (ch_directory c)) name))\<rparr>)) s6
        = (Inr y :: service_error + unit, s7)"
    and g: "state_of (\<lambda>st. ps_proposals st ! i) s7 = (Inr d :: service_error + proposal, s8)"
    and v: "save C S s8 = (Inr z, s9)" and fin: "d = p" "s9 = s'"
    by (elim and_then_InrE ok_InrE lift_res_InrE) (rule that)
  have one: "length (components name) = 1" "case components name of c # _ \<Rightarrow> is_normal c | [] \<Rightarrow> False" and s1: "s1 = s"
    using f by (auto elim!: fail_if_InrE)
  have st': "st = sv_state s" "s5 = s" using st i(2) c(2) r(2) s1 by (auto elim!: state_of_InrE)
  have "i < length (ps_proposals (sv_state s5))" using proposal_index_ok [OF i(1)] st' by simp
  note e = revise_end [OF _ this e, where f = "\<lambda>k p. p\<lparr>p_revision := k, p_destination_name := Some name,
    p_destination_display := Some (display_path (path_join (path_join (rt_path r) (ch_directory c)) name))\<rparr>",
    OF _ u g v, unfolded fin, folded st'(2)]
  have "components name = [Normal (the (file_name name))]"
    using one by (cases "components name") (auto simp: file_name_def split: component.splits)
  with e ok i c r st' show thesis
    by (intro that [of i c r]) (auto simp: update_proposal_def)
qed

section \<open>A destination\<close>

lemma choose_run:
  assumes ok: "rows_ok L (sv_rows s)" and m: "choose_destination L C S pid n rid folder s = (Inr p, s')"
  obtains i r relative name warning where "validate_relative_directory folder = Inr ()"
    and "find_root (\<lambda>r. rt_id r = rid \<and> rt_destination r) (sv_state s) = Inr r"
    and "proposal_index (sv_state s) pid n = Inr i"
    and "decode_relative L (p_source_relative (ps_proposals (sv_state s) ! i)) = Inr relative"
    and "file_name relative = Some name"
    and "revised L pid n (path_join (path_join (rt_path r) folder) name) s s'"
    and "p = (ps_proposals (sv_state s) ! i)\<lparr>p_revision := n + 1,
        p_destination := Some \<lparr>ch_root_id = rid, ch_directory = folder\<rparr>,
        p_destination_name := Some (to_string_lossy name),
        p_destination_display := Some (display_path (path_join (path_join (rt_path r) folder) name)),
        p_warning := warning\<rparr>"
    and "sv_state s' = update_proposal i (\<lambda>_. p) (sv_state s)"
proof -
  let ?to = "\<lambda>r name. path_join (path_join (rt_path r) folder) name"
  from m [unfolded choose_destination_def Let_def]
  obtain u0 s0 st s1 r s2 x s3 i s4 rel s5 name s6 src s7 w s8 e s9 y t1 d t2 z t3 where
    v: "map_res_err (\<lambda>_. SUnsafePath) (validate_relative_directory folder) = Inr u0" "s = s0"
    and st: "state_of (\<lambda>x. x) s0 = (Inr st :: service_error + persistent, s1)"
    and r: "find_root (\<lambda>r. rt_id r = rid \<and> rt_destination r) st = Inr r" "s1 = s2"
    and x: "check_folder S (path_join (rt_path r) folder) s2 = (Inr x, s3)"
    and i: "proposal_index st pid n = Inr i" "s3 = s4"
    and rel: "decode_relative L (p_source_relative (ps_proposals st ! i)) = Inr rel" "s4 = s5"
    and name: "ok_or SUnsafePath (file_name rel) = Inr name" "s5 = s6"
    and src: "source_path L st i = Inr src" "s6 = s7"
    and w: "try_result (in_os id (move_warning S src (?to r name))) s7 = (Inr w :: service_error + (service_error + string), s8)"
    and e: "in_journal (revise_proposal L S pid n (?to r name)) s8 = (Inr e, s9)"
    and u: "set_state (update_proposal i (\<lambda>p. p\<lparr>p_revision := e_revision e,
        p_destination := Some \<lparr>ch_root_id = rid, ch_directory = folder\<rparr>,
        p_destination_name := map_option to_string_lossy (file_name (?to r name)),
        p_destination_display := Some (display_path (?to r name)), p_warning := res_ok w\<rparr>)) s9
        = (Inr y :: service_error + unit, t1)"
    and g: "state_of (\<lambda>st. ps_proposals st ! i) t1 = (Inr d :: service_error + proposal, t2)"
    and sv: "save C S t2 = (Inr z, t3)" and fin: "d = p" "t3 = s'"
    by (elim and_then_InrE ok_InrE lift_res_InrE) (rule that)
  obtain w3 where s3: "s3 = s2\<lparr>sv_world := w3\<rparr>" using check_folder_frame [OF x] by blast
  obtain w8 where s8: "s8 = s7\<lparr>sv_world := w8\<rparr>"
    using w by (auto simp: try_result_def in_os_def split: prod.splits)
  have st': "st = sv_state s" "s1 = s" using st v(2) by (auto elim!: state_of_InrE)
  have same: "sv_state s8 = sv_state s" "sv_rows s8 = sv_rows s"
    using st' r(2) s3 i(2) rel(2) name(2) src(2) s8 by auto
  have fn: "file_name rel = Some name" using name(1) by (cases "file_name rel") simp_all
  then have fd: "file_name (?to r name) = Some name" by (simp add: file_name_join file_name_entry_name)
  have ok8: "rows_ok L (sv_rows s8)" using ok same by simp
  have "i < length (ps_proposals (sv_state s8))" using proposal_index_ok [OF i(1)] st' same by simp
  note q = revise_end [OF ok8 this e, where f = "\<lambda>k p. p\<lparr>p_revision := k,
        p_destination := Some \<lparr>ch_root_id = rid, ch_directory = folder\<rparr>,
        p_destination_name := map_option to_string_lossy (file_name (?to r name)),
        p_destination_display := Some (display_path (?to r name)), p_warning := res_ok w\<rparr>", OF u g sv, unfolded fin]
  have "validate_relative_directory folder = Inr ()"
    using v(1) by (cases "validate_relative_directory folder") simp_all
  moreover have "revised L pid n (?to r name) s s'" using q(1) same by (simp add: revised_def entries_in_def)
  ultimately show thesis using q(2,3) i(1) r(1) rel(1) fn fd st' same
    by (intro that [of r i rel name "res_ok w"]) (auto simp: update_proposal_def)
qed

section \<open>The path a later approval moves to\<close>

text \<open>After either change the destination computed from memory is the one the journal has.\<close>

lemma rename_destination:
  assumes "decode_relative L (p_source_relative p) = Inr relative" and "p_destination p = Some c"
    and "p_destination_name p = Some name" and "i < length (ps_proposals st)"
    and "find_root (\<lambda>r. rt_id r = ch_root_id c \<and> rt_destination r) st = Inr r"
  shows "destination_path L (update_proposal i (\<lambda>_. p) st) i = Inr (path_join (path_join (rt_path r) (ch_directory c)) name)"
  using assms by (simp add: destination_path_def update_proposal_def find_root_def)

end

section \<open>A rule from a proposal\<close>

lemma create_rule_run:
  assumes "create_rule_from_proposal L C S pid prio s = (Inr r, s')"
  obtains p c source ext ext' where "show_proposal (sv_state s) pid = Inr p" and "p_destination p = Some c"
    and "decode_relative L (p_source_relative p) = Inr source"
    and "path_extension source = Some ext" and "to_str ext = Some ext'" and "priority r = prio"
    and "predicates r = [Extension (to_ascii_lowercase ext')]"
    and "rule_destination r = Destination (ch_root_id c) (ch_directory c)"
    and "\<exists>d. evaluate_rules (lib_glob L) [r] (facts_for source (p_source_root_id p) True) = Inr d"
    and "sv_state s' = (sv_state s)\<lparr>ps_rules := ps_rules (sv_state s) @ [r]\<rparr>"
proof -
  let ?r = "\<lambda>k c e. \<lparr>rule_id = k, priority = prio, predicates = [Extension (to_ascii_lowercase e)],
          destination_root_id = ch_root_id c, destination_directory = ch_directory c\<rparr>"
  from assms [unfolded create_rule_from_proposal_def Let_def]
  obtain st s1 a s2 p s3 c s4 source s5 e s6 k s7 d s8 y s9 z t1 where
    st: "state_of (\<lambda>x. x) s = (Inr st :: service_error + persistent, s1)"
    and f: "fail_if (length (ps_rules st) \<ge> MAX_RULES) SLimit s1 = (Inr a, s2)"
    and p: "show_proposal st pid = Inr p" "s2 = s3"
    and c: "ok_or DestinationRequired (p_destination p) = Inr c" "s3 = s4"
    and source: "decode_relative L (p_source_relative p) = Inr source" "s4 = s5"
    and e: "ok_or SUnsafePath (case path_extension source of None \<Rightarrow> None | Some e \<Rightarrow> to_str e) = Inr e" "s5 = s6"
    and k: "in_os SIo (total (os_new_uuid S)) s6 = (Inr k, s7)"
    and d: "map_res_err (\<lambda>_. MalformedState)
        (evaluate_rules (lib_glob L) [?r k c e] (facts_for source (p_source_root_id p) True)) = Inr d" "s7 = s8"
    and u: "set_state (\<lambda>st. st\<lparr>ps_rules := ps_rules st @ [?r k c e]\<rparr>) s8 = (Inr y :: service_error + unit, s9)"
    and sv: "save C S s9 = (Inr z, t1)" and fin: "?r k c e = r" "t1 = s'"
    by (elim and_then_InrE ok_InrE lift_res_InrE) (rule that)
  have st': "st = sv_state s" "s2 = s" using st f by (auto elim!: state_of_InrE fail_if_InrE)
  have s8: "sv_state s8 = sv_state s" using in_os_run [OF k] st' p(2) c(2) source(2) e(2) d(2) by auto
  have s9: "s9 = s8\<lparr>sv_state := (\<lambda>st. st\<lparr>ps_rules := ps_rules st @ [?r k c e]\<rparr>) (sv_state s8)\<rparr>"
    using u by (rule set_stateE)
  have "sv_state s' = (sv_state s)\<lparr>ps_rules := ps_rules (sv_state s) @ [r]\<rparr>"
    using memory_keptD [OF memory_kept_save sv] fin s9 s8 by simp
  moreover obtain x where "path_extension source = Some x" "to_str x = Some e"
    using e(1) by (cases "path_extension source"; cases "to_str (the (path_extension source))") auto
  moreover have "p_destination p = Some c" using c(1) by (cases "p_destination p") simp_all
  moreover have "evaluate_rules (lib_glob L) [r] (facts_for source (p_source_root_id p) True) = Inr d"
    using d(1) fin(1) by (cases "evaluate_rules (lib_glob L) [r] (facts_for source (p_source_root_id p) True)") auto
  ultimately show thesis using that [of p c source x e] p(1) st' source(1) fin(1) by (auto simp: rule_destination_def)
qed

text \<open>The rule decides for the file it was made from, whatever its folder and its content type.\<close>

lemma created_rule_decides:
  assumes "predicates r = [Extension (to_ascii_lowercase e)]" and "extension facts = Some (to_ascii_lowercase e)"
    and "evaluate_rules G [r] facts' = Inr d"
  shows "evaluate_rules G [r] facts = Inr (Decided (rule_destination r) [rule_id r] (unique_reason (priority r)))"
proof -
  have v: "validate_rule G r = Inr ()"
    using assms(3) by (auto simp: evaluate_rules_def res_then_Inr_iff MAX_RULES_def split: if_splits)
  have "predicate_matches G (Extension (to_ascii_lowercase e)) facts" by (simp add: assms(2))
  then show ?thesis
    by (simp add: evaluate_rules_def MAX_RULES_def v assms(1) btree_set_def Let_def)
qed

end
