(* ===== verification/Review_Properties.thy ===== *)
theory Review_Properties
  imports Review_Laws Reference_Service
begin

text \<open>
  The properties of the review requests that change a proposal, of the rules made from one, and
  of the walk that finds the files of a root.
\<close>

section \<open>Destinations and names\<close>

text \<open>C15. Choosing a destination is a change of a waiting proposal only, and memory and journal agree on it.
  On success the root is a registered destination and the folder a valid relative one; the entry
  was waiting at the given revision and has the new path as its token at the next; the proposal
  has the same revision. The journal has the raw bytes of the file's name and the memory its text
  with the invalid bytes replaced, so the path a later approval computes from the memory ends in
  that text; it is the journal's path for every name that is UTF-8.\<close>

theorem choose_destination_agrees:
  assumes "libs_ok L" and "rows_ok L (sv_rows s)" and "choose_destination L C S pid n rid folder s = (Inr p, s')"
  shows "\<exists>i r relative name. proposal_index (sv_state s) pid n = Inr i \<and>
    decode_relative L (p_source_relative (ps_proposals (sv_state s) ! i)) = Inr relative \<and> file_name relative = Some name \<and>
    r \<in> set (ps_roots (sv_state s)) \<and> rt_id r = rid \<and>
    rt_destination r \<and> validate_relative_directory folder = Inr () \<and>
    revised L pid n (path_join (path_join (rt_path r) folder) name) s s' \<and>
    p_revision p = n + 1 \<and> p_destination p = Some \<lparr>ch_root_id = rid, ch_directory = folder\<rparr> \<and>
    sv_state s' = update_proposal i (\<lambda>_. p) (sv_state s) \<and>
    destination_path L (sv_state s') i = Inr (path_join (path_join (rt_path r) folder) (to_string_lossy name)) \<and>
    (to_str name \<noteq> None \<longrightarrow>
      destination_path L (sv_state s') i = Inr (path_join (path_join (rt_path r) folder) name))"
proof -
  obtain i r relative name warning where
    v: "validate_relative_directory folder = Inr ()"
    and r: "find_root (\<lambda>r. rt_id r = rid \<and> rt_destination r) (sv_state s) = Inr r"
    and i: "proposal_index (sv_state s) pid n = Inr i"
    and rel: "decode_relative L (p_source_relative (ps_proposals (sv_state s) ! i)) = Inr relative"
    and name: "file_name relative = Some name"
    and rev: "revised L pid n (path_join (path_join (rt_path r) folder) name) s s'"
    and p: "p = (ps_proposals (sv_state s) ! i)\<lparr>p_revision := n + 1,
        p_destination := Some \<lparr>ch_root_id = rid, ch_directory = folder\<rparr>,
        p_destination_name := Some (to_string_lossy name),
        p_destination_display := Some (display_path (path_join (path_join (rt_path r) folder) name)),
        p_warning := warning\<rparr>"
    and m: "sv_state s' = update_proposal i (\<lambda>_. p) (sv_state s)"
    by (rule libs_ok.choose_run [OF assms]) (rule that)
  have root: "r \<in> set (ps_roots (sv_state s))" "rt_id r = rid" "rt_destination r"
    using find_root_ok [OF r] by blast+
  have "destination_path L (sv_state s') i = Inr (path_join (path_join (rt_path r) folder) (to_string_lossy name))"
    using libs_ok.rename_destination [OF assms(1), of p relative _ "to_string_lossy name" i "sv_state s" r] rel r p
      proposal_index_ok [OF i] by (simp add: m)
  with v i rel name rev p m root lossy_utf8 show ?thesis by auto
qed

definition some_codec :: codec where
  "some_codec = house_codec\<lparr>json_of_state := (\<lambda>_. Some ''x'')\<rparr>"

lemma some_codec_run: "json_of_state some_codec = (\<lambda>_. Some ''x'')"
  by (simp add: some_codec_def)

lemma display_bills: "display_path ''/papers/bills/a'' = ''/papers/bills/a''"
  by code_simp

lemmas in_review = in_house run some_codec_run choose_destination_def rename_proposal_def create_rule_from_proposal_def
  revise_proposal_def move_warning_def validate_relative_directory_def show_proposal_def display_bills

theorem choose_destination_agrees_witness:
  "fst (choose_destination ref_libs some_codec sim_os 7 1 2 ''bills'' letter_service) = Inr (letter_proposal\<lparr>p_revision := 2,
     p_destination_name := Some ''a'',
     p_warning := Some ''Same-filesystem atomic move; undo is available if neither path changes''\<rparr>) \<and>
   (\<exists>(r :: root) name. revised ref_libs 7 1 (path_join (path_join (rt_path r) ''bills'') name) letter_service
     (snd (choose_destination ref_libs some_codec sim_os 7 1 2 ''bills'' letter_service)))"
proof -
  have went: "fst (choose_destination ref_libs some_codec sim_os 7 1 2 ''bills'' letter_service) = Inr (letter_proposal\<lparr>p_revision := 2,
     p_destination_name := Some ''a'',
     p_warning := Some ''Same-filesystem atomic move; undo is available if neither path changes''\<rparr>)"
    by (simp add: in_review cong: and_then_step)
  have "choose_destination ref_libs some_codec sim_os 7 1 2 ''bills'' letter_service = (Inr (letter_proposal\<lparr>p_revision := 2,
     p_destination_name := Some ''a'',
     p_warning := Some ''Same-filesystem atomic move; undo is available if neither path changes''\<rparr>),
     snd (choose_destination ref_libs some_codec sim_os 7 1 2 ''bills'' letter_service))"
    using went by (metis prod.collapse)
  from choose_destination_agrees [OF reference.libs_ok_axioms letter_service_ok this] went show ?thesis by blast
qed

text \<open>C16. Renaming likewise: a success has one plain component as the name and a destination already chosen,
  revises the entry once, and leaves memory and journal in agreement on the path, whatever bytes the
  name has.\<close>

theorem rename_agrees:
  assumes "libs_ok L" and "rows_ok L (sv_rows s)" and "rename_proposal L C S pid n name s = (Inr p, s')"
  shows "\<exists>i c r. proposal_index (sv_state s) pid n = Inr i \<and> components name = [Normal (the (file_name name))] \<and>
    p_destination (ps_proposals (sv_state s) ! i) = Some c \<and>
    r \<in> set (ps_roots (sv_state s)) \<and> rt_id r = ch_root_id c \<and> rt_destination r \<and>
    revised L pid n (path_join (path_join (rt_path r) (ch_directory c)) name) s s' \<and>
    sv_state s' = update_proposal i (\<lambda>_. p) (sv_state s) \<and> p_revision p = n + 1 \<and> p_destination_name p = Some name \<and>
    (\<forall>relative. decode_relative L (p_source_relative p) = Inr relative \<longrightarrow>
       destination_path L (sv_state s') i = Inr (path_join (path_join (rt_path r) (ch_directory c)) name))"
proof -
  obtain i c r where i: "proposal_index (sv_state s) pid n = Inr i" and one: "components name = [Normal (the (file_name name))]"
    and c: "p_destination (ps_proposals (sv_state s) ! i) = Some c"
    and r: "find_root (\<lambda>r. rt_id r = ch_root_id c \<and> rt_destination r) (sv_state s) = Inr r"
    and rev: "revised L pid n (path_join (path_join (rt_path r) (ch_directory c)) name) s s'"
    and p: "p = (ps_proposals (sv_state s) ! i)\<lparr>p_revision := n + 1, p_destination_name := Some name,
          p_destination_display := Some (display_path (path_join (path_join (rt_path r) (ch_directory c)) name))\<rparr>"
    and m: "sv_state s' = update_proposal i (\<lambda>_. p) (sv_state s)"
    by (rule libs_ok.rename_run [OF assms]) (rule that)
  have "destination_path L (sv_state s') i = Inr (path_join (path_join (rt_path r) (ch_directory c)) name)"
    if "decode_relative L (p_source_relative p) = Inr relative" for relative
    using libs_ok.rename_destination [OF assms(1) that, of c name i "sv_state s" r] c r p proposal_index_ok [OF i]
    by (simp add: m)
  with i one c find_root_ok [OF r] rev p m show ?thesis by auto
qed

theorem rename_agrees_witness:
  "\<exists>(r :: root) (c :: choice). revised ref_libs 7 1 (path_join (path_join (rt_path r) (ch_directory c)) ''b'') letter_service
     (snd (rename_proposal ref_libs some_codec sim_os 7 1 ''b'' letter_service))"
proof -
  have "\<exists>p. fst (rename_proposal ref_libs some_codec sim_os 7 1 ''b'' letter_service) = Inr p"
    by (simp add: in_review cong: and_then_step)
  then obtain p where "rename_proposal ref_libs some_codec sim_os 7 1 ''b'' letter_service =
      (Inr p, snd (rename_proposal ref_libs some_codec sim_os 7 1 ''b'' letter_service))" by (metis prod.collapse)
  from rename_agrees [OF reference.libs_ok_axioms letter_service_ok this] show ?thesis by blast
qed

section \<open>Rules from proposals\<close>

text \<open>C33. A rule made from a proposal does what it was made for: it is valid and appended to the rules, and
  alone it decides, for the proposal's own file whatever its folder, root and content type, for the
  destination of the proposal.\<close>

theorem created_rule_matches:
  assumes "create_rule_from_proposal L C S pid prio s = (Inr r, s')"
  shows "\<exists>p c source. show_proposal (sv_state s) pid = Inr p \<and> p_destination p = Some c \<and>
    decode_relative L (p_source_relative p) = Inr source \<and>
    ps_rules (sv_state s') = ps_rules (sv_state s) @ [r] \<and> priority r = prio \<and>
    (\<forall>root done mime. evaluate_rules (lib_glob L) [r] ((facts_for source root done)\<lparr>verified_mime := mime\<rparr>) =
       Inr (Decided (Destination (ch_root_id c) (ch_directory c)) [rule_id r] (unique_reason prio)))"
proof -
  obtain p c source ext ext' where p: "show_proposal (sv_state s) pid = Inr p" "p_destination p = Some c"
      "decode_relative L (p_source_relative p) = Inr source"
    and x: "path_extension source = Some ext" "to_str ext = Some ext'" and prio: "priority r = prio"
    and pr: "predicates r = [Extension (to_ascii_lowercase ext')]"
    and d: "rule_destination r = Destination (ch_root_id c) (ch_directory c)"
    and ev: "\<exists>d. evaluate_rules (lib_glob L) [r] (facts_for source (p_source_root_id p) True) = Inr d"
    and m: "sv_state s' = (sv_state s)\<lparr>ps_rules := ps_rules (sv_state s) @ [r]\<rparr>"
    by (rule create_rule_run [OF assms]) (rule that)
  obtain y where y: "evaluate_rules (lib_glob L) [r] (facts_for source (p_source_root_id p) True) = Inr y" using ev by blast
  have "evaluate_rules (lib_glob L) [r] ((facts_for source root complete)\<lparr>verified_mime := mime\<rparr>) =
       Inr (Decided (Destination (ch_root_id c) (ch_directory c)) [rule_id r] (unique_reason prio))" for root complete mime
    using created_rule_decides [OF pr _ y, of "(facts_for source root complete)\<lparr>verified_mime := mime\<rparr>"] x
    by (simp add: facts_for_def d prio)
  then show ?thesis using p prio m by auto
qed

definition upper_service :: "sim service" where
  "upper_service = letter_service\<lparr>sv_state := house\<lparr>ps_proposals := [letter_proposal\<lparr>p_source_relative := ''a.PDF''\<rparr>]\<rparr>\<rparr>"

theorem created_rule_matches_witness:
  "ps_rules (sv_state (snd (create_rule_from_proposal ref_libs some_codec sim_os 7 3 upper_service))) =
    [\<lparr>rule_id = 7, priority = 3, predicates = [Extension ''pdf''], destination_root_id = 2, destination_directory = ''bills''\<rparr>]"
proof -
  have went: "fst (create_rule_from_proposal ref_libs some_codec sim_os 7 3 upper_service) =
    Inr \<lparr>rule_id = 7, priority = 3, predicates = [Extension ''pdf''], destination_root_id = 2, destination_directory = ''bills''\<rparr>"
    by (simp add: in_review upper_service_def path_extension_def facts_for_def evaluate_rules_def validate_rule_def
        MAX_RULES_def btree_set_def rule_destination_def cong: and_then_step)
  from created_rule_matches [of ref_libs some_codec sim_os 7 3 upper_service] went
  show ?thesis by (cases "create_rule_from_proposal ref_libs some_codec sim_os 7 3 upper_service") (auto simp: upper_service_def house_def fresh_state_def)
qed

section \<open>The walk\<close>

text \<open>C17. The walk of a root is complete and bounded. Over folders that do not change while it runs, a walk that
  succeeds returns exactly the regular files in the folders below the root, reached through real
  folders and never through a symbolic link; there are at most a hundred thousand files, at most
  25,000 folders, and no folder is deeper than 32.\<close>

theorem walk_finds_files:
  assumes "\<And>p u. I u \<Longrightarrow> fst (os_read_dir S p u) = ls p \<and> I (snd (os_read_dir S p u))"
    and "bounded_files S root w = (Inr files, w')" and "I w"
  shows "set files = files_below ls root {([], 0)} \<and> length files \<le> 100000 \<and>
    finite (folders_below ls root {([], 0)}) \<and> card (folders_below ls root {([], 0)}) \<le> 25000 \<and>
    (\<forall>e \<in> folders_below ls root {([], 0)}. snd e \<le> 32)"
proof -
  have "walked ls root (set [([], 0)]) 0 [] files"
    by (rule walk_complete [where I = I, OF assms(1) assms(2) [unfolded bounded_files_def] assms(3)])
       (simp_all add: MAX_WALK_DIRECTORIES_def)
  then show ?thesis by (simp add: walked_def MAX_WALK_FILES_def MAX_WALK_DEPTH_def MAX_WALK_DIRECTORIES_def)
qed

definition shelf :: sim where
  "shelf = moved_tree\<lparr>sim_dirs := [(''/papers/'', papers), (''/papers/bills'', bills)]\<rparr>"

theorem walk_finds_files_witness:
  "files_below (\<lambda>p. fst (os_read_dir sim_os p shelf)) ''/papers'' {([], 0)} = {''bills/a''}"
proof -
  have quiet: "os_read_dir sim_os p shelf = (fst (os_read_dir sim_os p shelf), shelf)" for p
    by (simp add: run shelf_def moved_tree_def in_house split: option.split)
  have "bounded_files sim_os ''/papers'' shelf = (Inr [''bills/a''], shelf)"
    by (simp add: bounded_files_def in_review shelf_def moved_tree_def MAX_WALK_DIRECTORIES_def MAX_WALK_DEPTH_def
        MAX_WALK_FILES_def cong: and_then_step)
  from walk_finds_files [of "\<lambda>u. u = shelf", OF _ this] quiet show ?thesis by (metis fst_conv snd_conv list.set(1,2))
qed

end
