(* ===== verification/Daemon.thy ===== *)
theory Daemon
  imports Ipc
begin

text \<open>
  The daemon (\<open>crates/sortinghat-cli/src/bin/sortinghatd.rs\<close>): it owns the service, answers one
  request at a time for peers of its own user, and scans every two seconds. \<open>json!\<close> of a proposal
  can panic on its modification time, and a panic ends the daemon.
\<close>

section \<open>Values of the answers\<close>

datatype stop = Refused service_error | Panic

text \<open>
  The one field of a proposal that \<open>json!\<close> may refuse is its modification time, an \<open>i128\<close>; which
  numbers it has a value for is \<open>serde_json\<close>'s. A refusal is a panic of the daemon.
\<close>

definition proposal_value :: "ipc_json \<Rightarrow> proposal \<Rightarrow> stop + payload" where
  "proposal_value J p = (if json_i128 J (p_modified_ns p) then Inr (ProposalData p) else Inl Panic)"

definition queue_value :: "ipc_json \<Rightarrow> proposal list \<Rightarrow> stop + payload" where
  "queue_value J ps = (if list_all (\<lambda>p. json_i128 J (p_modified_ns p)) ps then Inr (QueueData ps) else Inl Panic)"

section \<open>Arguments\<close>

definition text_argument :: "request \<Rightarrow> service_error + string" where
  "text_argument request = ok_or MalformedState (rq_argument request)"

definition parse_argument :: "(string \<Rightarrow> 'a option) \<Rightarrow> request \<Rightarrow> service_error + 'a" where
  "parse_argument decode request =
    res_then (ok_or MalformedState (rq_argument request)) (\<lambda>text. ok_or MalformedState (decode text))"

definition rid :: "request \<Rightarrow> service_error + uuid" where
  "rid request = ok_or MalformedState (rq_proposal_id request)"

definition revision :: "request \<Rightarrow> service_error + u64" where
  "revision request = ok_or MalformedState (rq_revision request)"

fun error_state :: "service_error \<Rightarrow> string" where
  "error_state SCollision = ''conflict''"
| "error_state SRevisionConflict = ''stale_revision''"
| "error_state SLimit = ''paused_limit''"
| "error_state (SIo e) = ''filesystem_error''"
| "error_state (SFs e) = ''filesystem_error''"
| "error_state _ = ''rejected''"

section \<open>Dispatch\<close>

definition queue_list :: "persistent \<Rightarrow> proposal list" where
  "queue_list st = take 100 (rev (filter (\<lambda>p. p_status p \<noteq> ''ignored'' \<and> p_status p \<noteq> ''undone'') (ps_proposals st)))"

definition with_id :: "request \<Rightarrow> (uuid \<Rightarrow> ('s, service_error, 'a) io) \<Rightarrow> ('s, service_error, 'a) io" where
  "with_id request k = and_then (lift_res (rid request)) k"

definition with_revision ::
  "request \<Rightarrow> (uuid \<Rightarrow> u64 \<Rightarrow> ('s, service_error, 'a) io) \<Rightarrow> ('s, service_error, 'a) io" where
  "with_revision request k =
    and_then (lift_res (rid request)) (\<lambda>i. and_then (lift_res (revision request)) (\<lambda>n. k i n))"

definition answering :: "('s, service_error, 'a) io \<Rightarrow> ('a \<Rightarrow> stop + payload) \<Rightarrow> ('s, stop, payload) io" where
  "answering m f = and_then (map_err Refused m) (\<lambda>x. lift_res (f x))"

definition dispatch_data ::
  "libs \<Rightarrow> codec \<Rightarrow> ipc_json \<Rightarrow> 'w os \<Rightarrow> request \<Rightarrow> ('w service, stop, payload) io" where
  "dispatch_data L C J S request =
    (let action = rq_action request in
     if action = ''status'' then answering (state_of (\<lambda>st. (ps_paused st, waiting st))) (\<lambda>(p, n). Inr (StatusData p n))
     else if action = ''pause'' then answering (set_paused C S True) (\<lambda>_. Inr (PausedData True))
     else if action = ''resume'' then answering (set_paused C S False) (\<lambda>_. Inr (PausedData False))
     else if action = ''scan'' then answering (scan_once L C S) (\<lambda>n. Inr (CreatedData n))
     else if action = ''roots_list'' then answering (state_of ps_roots) (\<lambda>rs. Inr (RootsData rs))
     else if action = ''roots_add'' then answering
       (and_then (lift_res (parse_argument (json_to_root_add J) request)) (\<lambda>a.
        add_root C S (ra_path a) (ra_watched a) (ra_destination a))) (\<lambda>r. Inr (RootData r))
     else if action = ''roots_remove'' then answering (with_id request (\<lambda>i. remove_root C S i)) (\<lambda>_. Inr Null)
     else if action = ''queue_list'' then answering (state_of queue_list) (queue_value J)
     else if action = ''proposal_show'' then answering
       (with_id request (\<lambda>i. and_then (state_of (\<lambda>st. show_proposal st i)) lift_res)) (proposal_value J)
     else if action = ''proposal_destination'' then answering
       (and_then (lift_res (parse_argument (json_to_destination J) request)) (\<lambda>a.
        with_revision request (\<lambda>i n. choose_destination L C S i n (da_root_id a) (da_directory a)))) (proposal_value J)
     else if action = ''proposal_choose_folder'' then answering
       (with_revision request (\<lambda>i n. and_then (lift_res (text_argument request)) (\<lambda>folder.
        choose_destination_path L C S i n folder))) (proposal_value J)
     else if action = ''proposal_rename'' then answering
       (with_revision request (\<lambda>i n. and_then (lift_res (text_argument request)) (\<lambda>name.
        rename_proposal L C S i n name))) (proposal_value J)
     else if action = ''proposal_approve'' then answering (with_revision request (\<lambda>i n. approve L C S i n)) (proposal_value J)
     else if action = ''proposal_ignore'' then answering (with_revision request (\<lambda>i n. ignore L C S i n)) (proposal_value J)
     else if action = ''rules_list'' then answering (state_of ps_rules) (\<lambda>rs. Inr (RulesData rs))
     else if action = ''rule_create'' then answering
       (and_then (lift_res (text_argument request)) (\<lambda>text.
        and_then (lift_res (ok_or MalformedState (parse_i32 text))) (\<lambda>p.
        with_id request (\<lambda>i. create_rule_from_proposal L C S i p)))) (\<lambda>r. Inr (RuleData r))
     else if action = ''agent_status'' then answering (state_of ps_agent) (\<lambda>a. Inr (AgentData a))
     else if action = ''agent_enable'' then answering
       (and_then (lift_res (parse_argument (json_to_agent J) request)) (\<lambda>a.
        configure_metadata_agent C S (aa_executable a) (aa_fixed_args a))) (\<lambda>a. Inr (AgentData a))
     else if action = ''agent_disable'' then answering (disable_agent C S) (\<lambda>a. Inr (AgentData a))
     else if action = ''undo'' then answering (with_revision request (\<lambda>i n. undo L C S i n)) (proposal_value J)
     else err (Refused SNotFound))"

definition dispatch ::
  "libs \<Rightarrow> codec \<Rightarrow> ipc_json \<Rightarrow> 'w os \<Rightarrow> request \<Rightarrow> ('w service, stop, response) io" where
  "dispatch L C J S request =
    and_then (dispatch_data L C J S request) (\<lambda>data.
    and_then (state_of ps_paused) (\<lambda>paused.
    ok \<lparr>rs_schema_version = 1, rs_correlation_id = rq_correlation_id request, rs_ok = True,
      rs_state = (if paused then ''paused'' else ''running''), rs_message = ''ok'', rs_data = data\<rparr>))"

section \<open>One connection\<close>

datatype handle_error = HandleIo errno | HandleJson | HandlePanic

definition in_net :: "('w, errno, 'a) io \<Rightarrow> ('w service, handle_error, 'a) io" where
  "in_net m s = (case m (sv_world s) of (r, w) \<Rightarrow> (map_res_err HandleIo r, s\<lparr>sv_world := w\<rparr>))"

definition refusal :: "request \<Rightarrow> string \<Rightarrow> string \<Rightarrow> response" where
  "refusal request state message =
    \<lparr>rs_schema_version = 1, rs_correlation_id = rq_correlation_id request, rs_ok = False,
     rs_state = state, rs_message = message, rs_data = Null\<rparr>"

definition respond ::
  "libs \<Rightarrow> codec \<Rightarrow> ipc_json \<Rightarrow> error_texts \<Rightarrow> 'w os \<Rightarrow> request \<Rightarrow> ('w service, handle_error, response) io" where
  "respond L C J T S request =
    (if validate_request request \<noteq> Inr () then ok (refusal request ''rejected'' ''invalid request'')
     else and_then (try_result (dispatch L C J S request)) (\<lambda>r. case r of
        Inr a \<Rightarrow> ok a
      | Inl (Refused e) \<Rightarrow> ok (refusal request (error_state e) (service_error_text T e))
      | Inl Panic \<Rightarrow> err HandlePanic))"

definition handle ::
  "libs \<Rightarrow> codec \<Rightarrow> ipc_json \<Rightarrow> error_texts \<Rightarrow> 'w os \<Rightarrow> 'w net \<Rightarrow> ('w service, handle_error, unit) io" where
  "handle L C J T S N =
    and_then (in_net (nt_try_clone N)) (\<lambda>_.
    and_then (in_net (nt_receive N (MAX_IPC_BYTES + 1))) (\<lambda>line.
    if length line > MAX_IPC_BYTES then ok ()
    else and_then (lift_res (ok_or HandleJson (json_to_ipc_request J line))) (\<lambda>request.
      and_then (respond L C J T S request) (\<lambda>a.
      and_then (lift_res (ok_or HandleJson (json_of_ipc_response J a))) (\<lambda>body.
      and_then (in_net (nt_send N body)) (\<lambda>_.
      in_net (nt_send N [CHR 0x0A])))))))"

section \<open>The loop\<close>

definition peer_is_owner :: "'w net \<Rightarrow> ('w service, 'e, bool) io" where
  "peer_is_owner N s = (case nt_peer_uid N (sv_world s) of
     (Inl _, w) \<Rightarrow> (Inr False, s\<lparr>sv_world := w\<rparr>)
   | (Inr u, w) \<Rightarrow> (case nt_own_uid N w of (own, w') \<Rightarrow> (Inr (u = own), s\<lparr>sv_world := w'\<rparr>)))"

datatype ending = AcceptFailed errno | Crashed

text \<open>\<open>let _ = handle(..)\<close>: every error is dropped but a panic.\<close>

definition served :: "('w service, handle_error, unit) io \<Rightarrow> ('w service, ending, unit) io" where
  "served m = and_then (try_result m) (\<lambda>r. case r of Inl HandlePanic \<Rightarrow> err Crashed | _ \<Rightarrow> ok ())"

definition serve_next ::
  "libs \<Rightarrow> codec \<Rightarrow> ipc_json \<Rightarrow> error_texts \<Rightarrow> 'w os \<Rightarrow> 'w net \<Rightarrow> ('w service, ending, unit) io" where
  "serve_next L C J T S N =
    and_then (try_result (in_net (nt_accept N))) (\<lambda>r. case r of
      Inr True \<Rightarrow> and_then (peer_is_owner N) (\<lambda>owner. if owner then served (handle L C J T S N) else ok ())
    | Inr False \<Rightarrow> ok ()
    | Inl (HandleIo e) \<Rightarrow> err (AcceptFailed e)
    | Inl _ \<Rightarrow> ok ())"

definition scan_if_due :: "libs \<Rightarrow> codec \<Rightarrow> 'w os \<Rightarrow> 'w net \<Rightarrow> ('w service, ending, unit) io" where
  "scan_if_due L C S N =
    and_then (total (\<lambda>s. case nt_elapsed N (sv_world s) of (ms, w) \<Rightarrow> (ms, s\<lparr>sv_world := w\<rparr>))) (\<lambda>ms.
    if ms \<ge> 2000 then
      and_then (try_result (scan_once L C S)) (\<lambda>_.
      modify (\<lambda>s. s\<lparr>sv_world := nt_restart_clock N (sv_world s)\<rparr>))
    else ok ())"

text \<open>One round of \<open>main\<close>'s loop; it ends only with an error.\<close>

definition tick ::
  "libs \<Rightarrow> codec \<Rightarrow> ipc_json \<Rightarrow> error_texts \<Rightarrow> 'w os \<Rightarrow> 'w net \<Rightarrow> ('w service, ending, unit) io" where
  "tick L C J T S N =
    and_then (serve_next L C J T S N) (\<lambda>_.
    and_then (scan_if_due L C S N) (\<lambda>_.
    modify (\<lambda>s. s\<lparr>sv_world := nt_sleep N (sv_world s)\<rparr>)))"

text \<open>\<open>loop { .. }\<close>, followed for \<open>k\<close> rounds: it has no other way out than an error.\<close>

fun rounds ::
  "libs \<Rightarrow> codec \<Rightarrow> ipc_json \<Rightarrow> error_texts \<Rightarrow> 'w os \<Rightarrow> 'w net \<Rightarrow> nat \<Rightarrow> ('w service, ending, unit) io" where
  "rounds L C J T S N 0 = ok ()"
| "rounds L C J T S N (Suc k) = and_then (tick L C J T S N) (\<lambda>_. rounds L C J T S N k)"

text \<open>The part of \<open>main\<close> before the loop: the socket, open to its owner only, then the service.\<close>

definition listen_at :: "'w net \<Rightarrow> string \<Rightarrow> ('w, errno, unit) io" where
  "listen_at N socket =
    and_then (case parent socket of Some p \<Rightarrow> nt_create_dirs N p | None \<Rightarrow> ok ()) (\<lambda>_.
    and_then (total (nt_exists N socket)) (\<lambda>stale.
    and_then (if stale then nt_remove N socket else ok ()) (\<lambda>_.
    and_then (nt_bind N socket) (\<lambda>_.
    and_then (nt_set_mode N socket 384) (\<lambda>_.
    nt_nonblocking N)))))"

definition start ::
  "libs \<Rightarrow> codec \<Rightarrow> 'w os \<Rightarrow> 'w net \<Rightarrow> string \<Rightarrow> ('w service, service_error, unit) io" where
  "start L C S N socket =
    and_then (in_os SIo (listen_at N socket)) (\<lambda>_.
    and_then (open_service L C S) (\<lambda>_.
    modify (\<lambda>s. s\<lparr>sv_world := nt_restart_clock N (sv_world s)\<rparr>)))"

end
