(* ===== verification/Daemon_Frame.thy ===== *)
theory Daemon_Frame
  imports Daemon Service_Limits
begin

text \<open>
  From the operations of the service to the daemon: what every operation keeps, every request,
  connection and round of the daemon keeps. The contract is met by the journal's history and by
  the limits of the service's state; the requests that move no file meet it for the files.
\<close>

lemma and_then_value: "and_then (lift_res (Inr x)) k = k x" "and_then (ok x) k = k x" "and_then (err e) k = err e"
    "and_then (lift_res (Inl e)) k = err e"
  by (rule ext, simp add: and_then_def)+

section \<open>The operations that are no moves\<close>

lemma keeps_when: "(c \<Longrightarrow> keeps P m) \<Longrightarrow> (\<not> c \<Longrightarrow> keeps P m') \<Longrightarrow> keeps P (if c then m else m')"
  by simp

text \<open>Of the provider: every operation keeps \<open>P\<close>, and so does reading the state.\<close>

locale operations =
  fixes L :: libs and C :: codec and S :: "'w os" and P :: "'w service \<Rightarrow> bool"
  assumes op_paused: "keeps P (set_paused C S b)"
    and op_scan: "keeps P (scan_once L C S)"
    and op_add_root: "keeps P (add_root C S p x y)"
    and op_remove_root: "keeps P (remove_root C S i)"
    and op_choose: "keeps P (choose_destination L C S i n d p)"
    and op_choose_path: "keeps P (choose_destination_path L C S i n p)"
    and op_rename: "keeps P (rename_proposal L C S i n p)"
    and op_ignore: "keeps P (ignore L C S i n)"
    and op_rule: "keeps P (create_rule_from_proposal L C S i k)"
    and op_agent: "keeps P (configure_metadata_agent C S p args)"
    and op_disable: "keeps P (disable_agent C S)"
begin

lemmas op = op_paused op_scan op_add_root op_remove_root op_choose op_choose_path op_rename op_ignore
  op_rule op_agent op_disable

lemma keep_state_of: "keeps P (state_of g)"
  by (simp add: state_of_def)

lemma keep_answering: "keeps P m \<Longrightarrow> keeps P (answering m f)"
  unfolding answering_def by (intro keeps_and_then keeps_map_err keeps_pure)

lemma keep_with:
  "(\<And>i. keeps P (k i)) \<Longrightarrow> keeps P (with_id q k)" "(\<And>i n. keeps P (h i n)) \<Longrightarrow> keeps P (with_revision q h)"
  unfolding with_id_def with_revision_def by (intro keeps_and_then keeps_pure; assumption)+

lemma keep_dispatch_data:
  assumes "\<And>i n. rq_action q = ''proposal_approve'' \<Longrightarrow> keeps P (approve L C S i n)"
    and "\<And>i n. rq_action q = ''undo'' \<Longrightarrow> keeps P (undo L C S i n)"
  shows "keeps P (dispatch_data L C J S q)"
  unfolding dispatch_data_def Let_def
  by ((rule keeps_when keep_answering keep_with keeps_and_then keeps_pure keep_state_of op assms | assumption)+)

lemma keep_dispatch:
  assumes "\<And>i n. rq_action q = ''proposal_approve'' \<Longrightarrow> keeps P (approve L C S i n)"
    and "\<And>i n. rq_action q = ''undo'' \<Longrightarrow> keeps P (undo L C S i n)"
  shows "keeps P (dispatch L C J S q)"
  unfolding dispatch_def by (intro keeps_and_then keep_dispatch_data assms keep_state_of keeps_pure)

end

section \<open>Everything\<close>

locale all_operations = operations +
  assumes op_approve: "keeps P (approve L C S i n)"
    and op_undo: "keeps P (undo L C S i n)"
    and any_world: "P s \<Longrightarrow> P (s\<lparr>sv_world := w\<rparr>)"
begin

lemma keep_in_net: "keeps P (in_net m)"
  by (rule keepsI) (auto simp: in_net_def any_world split: prod.splits)

lemma keep_respond: "keeps P (respond L C J T S q)"
  unfolding respond_def
  by (intro keeps_if keeps_and_then keeps_try_result keep_dispatch op_approve op_undo)
     (auto split: sum.split stop.split)

lemma keep_handle: "keeps P (handle L C J T S N)"
  unfolding handle_def by (intro keeps_and_then keeps_if keep_in_net keep_respond keeps_pure)

lemma keep_serve: "keeps P (serve_next L C J T S N)"
proof -
  have owner: "keeps P (peer_is_owner N)"
    by (rule keepsI) (auto simp: peer_is_owner_def any_world split: prod.splits sum.splits)
  have "keeps P (served (handle L C J T S N))"
    unfolding served_def
    by (intro keeps_and_then keeps_try_result keep_handle) (auto split: sum.split handle_error.split)
  then show ?thesis
    unfolding serve_next_def
    by (intro keeps_and_then keeps_try_result keep_in_net)
       (auto split: sum.split handle_error.split bool.split intro!: keeps_and_then keeps_if owner)
qed

lemma keep_scan_if_due: "keeps P (scan_if_due L C S N)"
proof -
  have "keeps P (total (\<lambda>s. case nt_elapsed N (sv_world s) of (ms, w) \<Rightarrow> (ms, s\<lparr>sv_world := w\<rparr>)))"
    by (rule keepsI) (auto simp: total_def any_world split: prod.splits)
  then show ?thesis
    unfolding scan_if_due_def
    by (intro keeps_and_then keeps_if keeps_try_result op_scan keeps_modify any_world keeps_pure)
qed

lemma keep_tick: "keeps P (tick L C J T S N)"
  unfolding tick_def by (intro keeps_and_then keep_serve keep_scan_if_due keeps_modify any_world)

lemma keep_rounds: "keeps P (rounds L C J T S N k)"
  by (induction k) (simp_all only: rounds.simps, (intro keeps_and_then keep_tick keeps_pure; assumption?)+)

end

section \<open>The instances\<close>

sublocale service_frame \<subseteq> requests: operations L C S P
  by unfold_locales (intro keep)+

sublocale move_frame \<subseteq> events: all_operations L C S P
  by unfold_locales (intro keep_approve keep_undo P_any_world; assumption?)+

interpretation limited: all_operations L C S "\<lambda>s. limits_ok (lib_glob L) (sv_state s)" for L C S
  by unfold_locales
    (auto intro!: keeps_leads [where J = "limits_ok (lib_glob L)"] set_paused_limits scan_limits add_root_limits remove_root_limits
      choose_limits choose_path_limits rename_limits ignore_limits create_rule_limits configure_limits disable_limits
      approve_limits undo_limits)

context posix
begin

lemma requests_keep_files:
  assumes "rq_action q \<noteq> ''proposal_approve''" and "rq_action q \<noteq> ''undo''" and "dispatch L C J S q s = (r, s')"
  shows "same_files (files_of view s) (files_of view s')"
proof -
  have "keeps (\<lambda>t. same_files (files_of view s) (files_of view t)) (dispatch L C J S q)"
    by (rule files.requests.keep_dispatch) (simp_all add: assms(1,2))
  from keepsD [OF this _ assms(3)] show ?thesis by simp
qed

end

context setting
begin

lemma rounds_keep_history: "keeps (history_from L A u) (rounds L C J T S N k)"
  by (rule table.events.keep_rounds)

end

end
