(* ===== verification/Client.thy ===== *)
theory Client
  imports Ipc
begin

text \<open>
  The command line (\<open>crates/sortinghat-cli/src/bin/sortinghat.rs\<close>): its commands, the request each
  one becomes, and the run of one command. Parsing the words of the command line is \<open>clap\<close>'s.
\<close>

datatype roots_command = RootsList | RootsAdd string bool bool | RootsRemove uuid

record revision_args =
  ra_id :: uuid
  ra_revision :: u64

datatype proposal_command = Show uuid | Approve revision_args | Ignore revision_args
  | ToDestination uuid string uuid u64 \<comment> \<open>id, folder, root, revision\<close>
  | ChooseFolder uuid string u64
  | Rename uuid string u64

datatype rule_command = RuleList | RuleCreate uuid int

datatype agent_command = AgentStatus | AgentEnable string "string list" | AgentDisable

datatype cli_command = Status | Pause | Resume | Scan | Roots roots_command | QueueList
  | ProposalCommand proposal_command | RuleCommand rule_command | AgentCommand agent_command
  | UndoCommand revision_args

type_synonym request_parts = "string \<times> uuid option \<times> u64 option \<times> string option"

definition plain :: "string \<Rightarrow> request_parts" where
  "plain action = (action, None, None, None)"

definition revision_request :: "string \<Rightarrow> revision_args \<Rightarrow> request_parts" where
  "revision_request action a = (action, Some (ra_id a), Some (ra_revision a), None)"

text \<open>\<open>None\<close> is the panic of \<open>json!\<close> on a path that is not UTF-8.\<close>

fun command_request :: "ipc_json \<Rightarrow> cli_command \<Rightarrow> request_parts option" where
  "command_request J Status = Some (plain ''status'')"
| "command_request J Pause = Some (plain ''pause'')"
| "command_request J Resume = Some (plain ''resume'')"
| "command_request J Scan = Some (plain ''scan'')"
| "command_request J (Roots RootsList) = Some (plain ''roots_list'')"
| "command_request J (Roots (RootsAdd path watch dest)) =
    map_option (\<lambda>a. (''roots_add'', None, None, Some a))
      (json_of_root_add J \<lparr>ra_path = path, ra_watched = watch, ra_destination = dest\<rparr>)"
| "command_request J (Roots (RootsRemove i)) = Some (''roots_remove'', Some i, None, None)"
| "command_request J QueueList = Some (plain ''queue_list'')"
| "command_request J (ProposalCommand (Show i)) = Some (''proposal_show'', Some i, None, None)"
| "command_request J (ProposalCommand (Approve a)) = Some (revision_request ''proposal_approve'' a)"
| "command_request J (ProposalCommand (Ignore a)) = Some (revision_request ''proposal_ignore'' a)"
| "command_request J (ProposalCommand (ToDestination i folder rt n)) =
    Some (''proposal_destination'', Some i, Some n,
      Some (json_of_destination J \<lparr>da_root_id = rt, da_directory = folder\<rparr>))"
| "command_request J (ProposalCommand (ChooseFolder i folder n)) =
    Some (''proposal_choose_folder'', Some i, Some n, to_str folder)"
| "command_request J (ProposalCommand (Rename i name n)) = Some (''proposal_rename'', Some i, Some n, Some name)"
| "command_request J (RuleCommand RuleList) = Some (plain ''rules_list'')"
| "command_request J (RuleCommand (RuleCreate i p)) = Some (''rule_create'', Some i, None, Some (show_int p))"
| "command_request J (AgentCommand AgentStatus) = Some (plain ''agent_status'')"
| "command_request J (AgentCommand (AgentEnable executable args)) =
    Some (''agent_enable'', None, None, Some (json_of_agent J \<lparr>aa_executable = executable, aa_fixed_args = args\<rparr>))"
| "command_request J (AgentCommand AgentDisable) = Some (plain ''agent_disable'')"
| "command_request J (UndoCommand a) = Some (revision_request ''undo'' a)"

definition request_of :: "uuid \<Rightarrow> request_parts \<Rightarrow> request" where
  "request_of correlation parts = (case parts of (action, i, n, a) \<Rightarrow>
    \<lparr>rq_schema_version = 1, rq_correlation_id = correlation, rq_action = action, rq_proposal_id = i,
     rq_revision = n, rq_argument = a\<rparr>)"

text \<open>\<open>main\<close>: the response printed and whether the exit code is zero; \<open>None\<close> is the panic.\<close>

definition client_main ::
  "ipc_json \<Rightarrow> error_texts \<Rightarrow> 'w os \<Rightarrow> 'w net \<Rightarrow> string \<Rightarrow> cli_command \<Rightarrow> 'w \<Rightarrow> (response \<times> bool) option \<times> 'w" where
  "client_main J T S N socket command w =
    (case command_request J command of
       None \<Rightarrow> (None, w)
     | Some parts \<Rightarrow> (case os_new_uuid S w of (correlation, w1) \<Rightarrow>
         (case call J N socket (request_of correlation parts) w1 of
            (Inr a, w2) \<Rightarrow> (Some (a, rs_ok a), w2)
          | (Inl e, w2) \<Rightarrow> (Some (\<lparr>rs_schema_version = 1, rs_correlation_id = correlation, rs_ok = False,
              rs_state = ''runtime_unavailable'', rs_message = protocol_error_text T e, rs_data = Null\<rparr>, False), w2))))"

end
