(* ===== verification/Reference_Ipc.thy ===== *)
theory Reference_Ipc
  imports Daemon Client Reference_Service
begin

text \<open>
  An executable \<open>serde_json\<close> for the protocol and a socket on the small world, for the witnesses;
  they stand for no code of the repository. Texts are written behind their length in ones.
\<close>

section \<open>What the code relies on\<close>

text \<open>The arguments a command writes are read back as they were.\<close>

definition arguments_ok :: "ipc_json \<Rightarrow> bool" where
  "arguments_ok J \<longleftrightarrow> (\<forall>a t. json_of_root_add J a = Some t \<longrightarrow> json_to_root_add J t = Some a) \<and>
     (\<forall>a. json_to_destination J (json_of_destination J a) = Some a) \<and>
     (\<forall>a. json_to_agent J (json_of_agent J a) = Some a)"

section \<open>Texts behind their length\<close>

definition enc_text :: "string \<Rightarrow> string" where
  "enc_text s = replicate (length s) CHR ''1'' @ CHR ''0'' # s"

definition dec_text :: "string \<Rightarrow> string \<times> string" where
  "dec_text t = (let n = length (takeWhile (\<lambda>c. c = CHR ''1'') t) in (take n (drop (n + 1) t), drop (n + n + 1) t))"

lemma takeWhile_ones: "takeWhile (\<lambda>c. c = CHR ''1'') (replicate n CHR ''1'' @ CHR ''0'' # s) = replicate n CHR ''1''"
  by (induction n) auto

lemma dec_enc_text [simp]: "dec_text (enc_text s @ r) = (s, r)"
  by (simp add: dec_text_def enc_text_def takeWhile_ones)

fun dec_all :: "nat \<Rightarrow> string \<Rightarrow> string list" where
  "dec_all 0 t = []"
| "dec_all (Suc n) t = (if t = [] then [] else case dec_text t of (s, r) \<Rightarrow> s # dec_all n r)"

lemma enc_text_neq [simp]: "enc_text s \<noteq> []"
  by (simp add: enc_text_def)

lemma dec_all_enc: "length ss \<le> n \<Longrightarrow> dec_all n (concat (map enc_text ss)) = ss"
proof (induction ss arbitrary: n)
  case Nil
  show ?case by (cases n) simp_all
next
  case (Cons s ss)
  then obtain k where "n = Suc k" and "length ss \<le> k" by (cases n) auto
  with Cons.IH show ?case by simp
qed

lemma length_enc_all: "length ss \<le> length (concat (map enc_text ss))"
  by (induction ss) (simp_all add: enc_text_def)

section \<open>The protocol\<close>

definition flag :: "bool \<Rightarrow> char" where
  "flag b = (if b then CHR ''1'' else CHR ''0'')"

text \<open>The lines carry one request and one answer, given in advance.\<close>

definition ref_json :: "request \<Rightarrow> response \<Rightarrow> ipc_json" where
  "ref_json q a = \<lparr>json_of_ipc_request = (\<lambda>_. Some ''q''),
     json_to_ipc_request = (\<lambda>b. if b = ''q'' then Some q else None),
     json_of_ipc_response = (\<lambda>_. Some ''a''),
     json_to_ipc_response = (\<lambda>b. if b = ''a'' then Some a else None),
     json_of_root_add = (\<lambda>x. if to_str (ra_path x) = None then None
       else Some (flag (ra_watched x) # flag (ra_destination x) # ra_path x)),
     json_to_root_add = (\<lambda>t. case t of w # d # p \<Rightarrow> Some \<lparr>ra_path = p, ra_watched = (w = CHR ''1''),
       ra_destination = (d = CHR ''1'')\<rparr> | _ \<Rightarrow> None),
     json_of_destination = (\<lambda>x. enc_text (ref_uuid_text (da_root_id x)) @ da_directory x),
     json_to_destination = (\<lambda>t. case dec_text t of (i, d) \<Rightarrow>
       map_option (\<lambda>u. \<lparr>da_root_id = u, da_directory = d\<rparr>) (ref_uuid_parse i)),
     json_of_agent = (\<lambda>x. enc_text (aa_executable x) @ concat (map enc_text (aa_fixed_args x))),
     json_to_agent = (\<lambda>t. case dec_text t of (e, r) \<Rightarrow>
       Some \<lparr>aa_executable = e, aa_fixed_args = dec_all (length r) r\<rparr>),
     json_i128 = (\<lambda>n. - (2 ^ 63) \<le> n \<and> n < 2 ^ 64)\<rparr>"

lemma ref_json_arguments: "arguments_ok (ref_json q a)"
  by (auto simp: arguments_ok_def ref_json_def flag_def ref_uuid_roundtrip dec_all_enc length_enc_all split: if_splits)

text \<open>A socket that delivers one line from a given user.\<close>

definition ref_net :: "bytes \<Rightarrow> u32 \<Rightarrow> sim net" where
  "ref_net line peer = \<lparr>nt_connect = (\<lambda>_ w. (Inr (), w)), nt_try_clone = (\<lambda>w. (Inr (), w)),
     nt_send = (\<lambda>_ w. (Inr (), w)), nt_receive = (\<lambda>k w. (Inr (take k line), w)),
     nt_peer_uid = (\<lambda>w. (Inr peer, w)), nt_own_uid = (\<lambda>w. (1000, w)), nt_accept = (\<lambda>w. (Inr True, w)),
     nt_elapsed = (\<lambda>w. (0, w)), nt_restart_clock = (\<lambda>w. w), nt_sleep = (\<lambda>w. w), nt_create_dirs = (\<lambda>_ w. (Inr (), w)),
     nt_exists = (\<lambda>_ w. (False, w)), nt_remove = (\<lambda>_ w. (Inr (), w)), nt_bind = (\<lambda>_ w. (Inr (), w)),
     nt_set_mode = (\<lambda>_ _ w. (Inr (), w)), nt_nonblocking = (\<lambda>w. (Inr (), w))\<rparr>"

lemma ref_net_run [run]:
  "nt_connect (ref_net line peer) = (\<lambda>_ w. (Inr (), w))" "nt_try_clone (ref_net line peer) = (\<lambda>w. (Inr (), w))"
  "nt_send (ref_net line peer) = (\<lambda>_ w. (Inr (), w))" "nt_receive (ref_net line peer) = (\<lambda>k w. (Inr (take k line), w))"
  "nt_peer_uid (ref_net line peer) = (\<lambda>w. (Inr peer, w))" "nt_own_uid (ref_net line peer) = (\<lambda>w. (1000, w))"
  "nt_accept (ref_net line peer) = (\<lambda>w. (Inr True, w))" "nt_elapsed (ref_net line peer) = (\<lambda>w. (0, w))"
  "nt_restart_clock (ref_net line peer) = (\<lambda>w. w)" "nt_sleep (ref_net line peer) = (\<lambda>w. w)"
  by (simp_all add: ref_net_def)

definition ref_texts :: error_texts where
  "ref_texts = \<lparr>text_of_errno = (\<lambda>_. ''os error''), text_of_db = (\<lambda>_. ''database error'')\<rparr>"

definition request_for :: "string \<Rightarrow> request" where
  "request_for action = \<lparr>rq_schema_version = 1, rq_correlation_id = 3, rq_action = action, rq_proposal_id = Some 7,
     rq_revision = Some 1, rq_argument = None\<rparr>"

definition blank :: response where
  "blank = refusal (request_for ''status'') ''rejected'' ''invalid request''"

end
