(* ===== verification/Daemon_Properties.thy ===== *)
theory Daemon_Properties
  imports Daemon_Frame Reference_Ipc
begin

text \<open>
  The properties of the daemon and the command line: what a request can touch, what holds after
  any number of rounds, who is served, and that every command reaches the operation it names.
\<close>

section \<open>What requests can touch\<close>

text \<open>C8. Only the requests to approve and to undo can change a file: after any other request,
  whatever it answers and whatever failed, every directory entry and every file is as before.\<close>

theorem requests_leave_files:
  assumes "posix S view" and "rq_action q \<noteq> ''proposal_approve''" and "rq_action q \<noteq> ''undo''"
    and "dispatch L C J S q s = (r, s')"
  shows "same_files (files_of view s) (files_of view s')"
  using posix.requests_keep_files [OF assms] .

theorem requests_leave_files_witness:
  "same_files (files_of sim_view letter_service)
    (files_of sim_view (snd (dispatch ref_libs house_codec (ref_json (request_for ''scan'') blank) sim_os
      (request_for ''scan'') letter_service)))"
  by (rule requests_leave_files [OF sim.posix_axioms _ _ prod.collapse [symmetric]]) (simp_all add: request_for_def)

section \<open>Any number of rounds\<close>

text \<open>C9. Over any number of rounds of the daemon, with any requests, any failures and any changes
  the world makes to the files, the journal's table stays well-formed and every entry follows the
  state machine: it appears as a fresh proposal, moves only by allowed transitions, and is removed
  only when terminal.\<close>

theorem rounds_follow_machine:
  assumes "posix S view" and "libs_ok L" and "rows_ok L (sv_rows s)" and "rounds L C J T S N k s = (r, s')"
  shows "rows_ok L (sv_rows s') \<and> entry_step\<^sup>*\<^sup>* (entries_in L s u) (entries_in L s' u)"
  using keepsD [OF setting.rounds_keep_history [OF setting.intro [OF assms(1,2)]] _ assms(4), of "entries_in L s u" u] assms(3)
  by (simp add: history_from_def)

theorem rounds_follow_machine_witness:
  "entry_step\<^sup>*\<^sup>* (entries_in ref_libs letter_service 7)
    (entries_in ref_libs (snd (rounds ref_libs house_codec (ref_json (request_for ''proposal_approve'') blank) ref_texts
      sim_os (ref_net ''q'' 1000) 2 letter_service)) 7)"
  using rounds_follow_machine [OF sim.posix_axioms reference.libs_ok_axioms letter_service_ok prod.collapse [symmetric]] by blast

text \<open>C25. Over any number of rounds the service's state stays within its limits: at most 16 roots
  with distinct paths, each of some use, at most 1000 rules, all of them valid, at most 1000
  waiting proposals, metadata-only agent settings within their bounds, and schema version 1.\<close>

theorem rounds_keep_limits:
  assumes "limits_ok (lib_glob L) (sv_state s)" and "rounds L C J T S N k s = (r, s')"
  shows "limits_ok (lib_glob L) (sv_state s')"
  using keepsD [OF limited.keep_rounds, OF assms] .

lemma house_limits: "limits_ok G house"
  by (simp add: limits_ok_def house_def fresh_state_def roots_ok_def rules_ok_def waiting_def agent_ok_def
      default_agent_def MAX_ROOTS_def MAX_PROPOSALS_def)

theorem rounds_keep_limits_witness:
  "limits_ok ref_glob (sv_state (snd (rounds ref_libs house_codec (ref_json (request_for ''scan'') blank) ref_texts
      sim_os (ref_net ''q'' 1000) 3 letter_service)))"
  using rounds_keep_limits [of ref_libs letter_service, OF _ prod.collapse [symmetric]]
  by (simp add: house_limits letter_service_run ref_libs_fields)

section \<open>Who is served, and what is answered\<close>

text \<open>C28. A peer of another user, or one whose user is unknown, is not served: the round goes on with
  the service as it was, and the world has seen only the calls that asked for the user.\<close>

theorem strangers_ignored:
  assumes "nt_accept N (sv_world s) = (Inr True, w1)" and "nt_peer_uid N w1 = (r, w2)"
    and "case r of Inl e \<Rightarrow> True | Inr u \<Rightarrow> u \<noteq> fst (nt_own_uid N w2)"
  shows "serve_next L C J T S N s =
    (Inr (), s\<lparr>sv_world := (case r of Inl e \<Rightarrow> w2 | Inr u \<Rightarrow> snd (nt_own_uid N w2))\<rparr>)"
  using assms
  by (cases r) (auto simp: serve_next_def and_then_def try_result_def in_net_def peer_is_owner_def split: prod.split)

theorem strangers_ignored_witness:
  "serve_next ref_libs house_codec (ref_json (request_for ''undo'') blank) ref_texts sim_os (ref_net ''q'' 1001) letter_service
    = (Inr (), letter_service)"
  using strangers_ignored [of "ref_net ''q'' 1001" letter_service house_tree "Inr 1001" house_tree ref_libs house_codec
      "ref_json (request_for ''undo'') blank" ref_texts sim_os]
  by (simp add: ref_net_run letter_service_def)

lemma in_net_run: "in_net m s = (r, s') \<Longrightarrow> \<exists>w. s' = s\<lparr>sv_world := w\<rparr>"
  by (auto simp: in_net_def split: prod.splits)

lemma same_but_world: "keeps (\<lambda>t. \<exists>w. t = s\<lparr>sv_world := w\<rparr>) (in_net m)"
  by (rule keepsI) (auto dest!: in_net_run)

text \<open>C29. A line that is too long, is not a request, or is a request outside the limits changes
  nothing of the service but the world the socket calls saw.\<close>

theorem bad_lines_change_nothing:
  assumes "nt_try_clone N (sv_world s) = (Inr (), w1)" and "nt_receive N (MAX_IPC_BYTES + 1) w1 = (Inr line, w2)"
    and "length line > MAX_IPC_BYTES \<or> (case json_to_ipc_request J line of None \<Rightarrow> True | Some q \<Rightarrow> validate_request q \<noteq> Inr ())"
    and "handle L C J T S N s = (r, s')"
  shows "\<exists>w. s' = s\<lparr>sv_world := w\<rparr>"
proof -
  let ?P = "\<lambda>t. \<exists>w. t = s\<lparr>sv_world := w\<rparr>"
  let ?k = "\<lambda>line. if length line > MAX_IPC_BYTES then ok ()
    else and_then (lift_res (ok_or HandleJson (json_to_ipc_request J line))) (\<lambda>request.
      and_then (respond L C J T S request) (\<lambda>a.
      and_then (lift_res (ok_or HandleJson (json_of_ipc_response J a))) (\<lambda>body.
      and_then (in_net (nt_send N body)) (\<lambda>_.
      in_net (nt_send N [CHR 0x0A])))))"
  have run: "?k line (s\<lparr>sv_world := w2\<rparr>) = (r, s')"
    using assms(1,2,4) by (simp add: handle_def and_then_def in_net_def)
  have "keeps ?P (?k line)"
  proof (cases "length line > MAX_IPC_BYTES")
    case False
    show ?thesis
    proof (cases "json_to_ipc_request J line")
      case None
      then show ?thesis using False by (auto intro!: keepsI simp: and_then_def)
    next
      case (Some q)
      then have "respond L C J T S q = ok (refusal q ''rejected'' ''invalid request'')"
        using assms(3) False by (simp add: respond_def)
      then show ?thesis using False Some
        by (simp only: if_False ok_or.simps option.simps and_then_value, intro keeps_and_then keeps_pure same_but_world)
    qed
  qed simp
  from keepsD [OF this _ run] show ?thesis by blast
qed

theorem bad_lines_change_nothing_witness:
  "\<exists>w. snd (handle ref_libs house_codec (ref_json (request_for ''undo'') blank) ref_texts sim_os (ref_net ''?'' 1000) letter_service)
    = letter_service\<lparr>sv_world := w\<rparr>"
  by (rule bad_lines_change_nothing [where N = "ref_net ''?'' 1000" and ?w1.0 = house_tree and ?w2.0 = house_tree and line = "''?''",
        OF _ _ _ prod.collapse [symmetric]])
     (simp_all add: ref_net_run letter_service_run ref_json_def MAX_IPC_BYTES_def)

text \<open>C27. Every answer is to the request that was asked, and its \<open>ok\<close> is the truth: it is set exactly
  when the request was valid and the operation returned, with that operation's value; otherwise
  the answer carries the operation's error, or a refusal and nothing was done.\<close>

theorem answers_match:
  assumes "respond L C J T S q s = (Inr a, s')"
  shows "rs_schema_version a = 1 \<and> rs_correlation_id a = rq_correlation_id q \<and>
    (if rs_ok a then validate_request q = Inr () \<and> dispatch_data L C J S q s = (Inr (rs_data a), s')
     else rs_data a = Null \<and> (validate_request q \<noteq> Inr () \<and> s' = s \<or>
       (\<exists>e. dispatch L C J S q s = (Inl (Refused e), s') \<and> rs_state a = error_state e \<and> rs_message a = service_error_text T e)))"
proof (cases "validate_request q = Inr ()")
  case False
  then show ?thesis using assms by (auto simp: respond_def refusal_def)
next
  case True
  obtain x s1 where d: "dispatch L C J S q s = (x, s1)" by fastforce
  show ?thesis
  proof (cases x)
    case (Inr b)
    then have "a = b" "s' = s1" using assms True d by (simp_all add: respond_def and_then_def try_result_def)
    moreover have "rs_ok b \<and> rs_schema_version b = 1 \<and> rs_correlation_id b = rq_correlation_id q \<and>
        dispatch_data L C J S q s = (Inr (rs_data b), s1)"
      using d Inr unfolding dispatch_def by (auto simp: and_then_Inr state_of_def)
    ultimately show ?thesis using True by simp
  next
    case (Inl e)
    then show ?thesis using assms True d
      by (cases e) (auto simp: respond_def and_then_def try_result_def refusal_def)
  qed
qed

theorem answers_match_witness:
  "dispatch_data ref_libs house_codec (ref_json (request_for ''status'') blank) sim_os (request_for ''status'') letter_service
    = (Inr (StatusData False 1), letter_service)"
proof -
  have "respond ref_libs house_codec (ref_json (request_for ''status'') blank) ref_texts sim_os (request_for ''status'') letter_service
      = (Inr \<lparr>rs_schema_version = 1, rs_correlation_id = 3, rs_ok = True, rs_state = ''running'', rs_message = ''ok'',
          rs_data = StatusData False 1\<rparr>, letter_service)"
    by (simp add: respond_def validate_request_def request_for_def action_byte_def is_ascii_lowercase_def dispatch_def
        dispatch_data_def answering_def waiting_def in_house cong: and_then_step)
  from answers_match [OF this] show ?thesis by simp
qed

end
