(* ===== verification/Panic_Laws.thy ===== *)
theory Panic_Laws
  imports Daemon_Frame
begin

text \<open>
  The daemon ends in a panic only where \<open>json!\<close> has no value for a modification time. While the
  files have times it has values for, so have the proposals: every operation keeps them so, and
  every proposal an operation answers with is one of them.
\<close>

section \<open>The times of the proposals\<close>

definition times_ok :: "(int \<Rightarrow> bool) \<Rightarrow> persistent \<Rightarrow> bool" where
  "times_ok N st \<longleftrightarrow> list_all (\<lambda>p. N (p_modified_ns p)) (ps_proposals st)"

lemma times_same:
  "times_ok N (st\<lparr>ps_paused := b\<rparr>) \<longleftrightarrow> times_ok N st" "times_ok N (st\<lparr>ps_agent := a\<rparr>) \<longleftrightarrow> times_ok N st"
  "times_ok N (st\<lparr>ps_roots := rs\<rparr>) \<longleftrightarrow> times_ok N st" "times_ok N (st\<lparr>ps_rules := us\<rparr>) \<longleftrightarrow> times_ok N st"
  by (simp_all add: times_ok_def)

lemma times_update:
  assumes "times_ok N st" and "\<And>p. p_modified_ns (f p) = p_modified_ns p"
  shows "times_ok N (update_proposal i f st)"
proof (cases "i < length (ps_proposals st)")
  case True
  with assms show ?thesis
    by (auto simp: times_ok_def update_proposal_def list_all_length nth_list_update)
next
  case False
  with assms show ?thesis by (simp add: times_ok_def update_proposal_def list_update_beyond not_less)
qed

lemma times_drop: "list_all P ps \<Longrightarrow> list_all P (drop_terminal k ps)"
  by (induction ps arbitrary: k) auto

lemma times_prune: "times_ok N st \<Longrightarrow> times_ok N (prune_terminal_proposals st)"
  by (simp add: times_ok_def prune_terminal_proposals_def times_drop)

lemma times_new: "times_ok N st \<Longrightarrow> N (p_modified_ns p) \<Longrightarrow> times_ok N (st\<lparr>ps_proposals := ps_proposals st @ [p]\<rparr>)"
  by (simp add: times_ok_def)

lemma times_nth: "times_ok N st \<Longrightarrow> i < length (ps_proposals st) \<Longrightarrow> N (p_modified_ns (ps_proposals st ! i))"
  by (simp add: times_ok_def list_all_length)

section \<open>Operations keep the times\<close>

text \<open>A step that leaves the memory alone, with what it has read.\<close>

lemma leads_read:
  assumes "memory_kept m" and "Q st" and "\<And>s x s'. m s = (Inr x, s') \<Longrightarrow> leads st (k x) Q"
  shows "leads st (and_then m k) Q"
proof (rule leadsI)
  fix s r s' assume s: "sv_state s = st" and run: "and_then m k s = (r, s')"
  obtain x s1 where m: "m s = (x, s1)" by fastforce
  have s1: "sv_state s1 = st" using memory_keptD [OF assms(1) m] s by simp
  show "Q (sv_state s')"
  proof (cases x)
    case (Inl e)
    with run m s1 assms(2) show ?thesis by (simp add: and_then_def)
  next
    case (Inr y)
    with run m have "k y s1 = (r, s')" by (simp add: and_then_def)
    with leadsD [of s1] assms(3) [OF m [unfolded Inr]] s1 show ?thesis by blast
  qed
qed

lemmas times_follow = follow leads_kept leads_end

lemma setting_times:
  "times_ok N st \<Longrightarrow> leads st (set_paused C S b) (times_ok N)"
  "times_ok N st \<Longrightarrow> leads st (configure_metadata_agent C S x args) (times_ok N)"
  "times_ok N st \<Longrightarrow> leads st (disable_agent C S) (times_ok N)"
  "times_ok N st \<Longrightarrow> leads st (add_root C S p a b) (times_ok N)"
  "times_ok N st \<Longrightarrow> leads st (remove_root C S i) (times_ok N)"
  "times_ok N st \<Longrightarrow> leads st (create_rule_from_proposal L C S i k) (times_ok N)"
  unfolding set_paused_def configure_metadata_agent_def disable_agent_def add_root_def remove_root_def
    create_rule_from_proposal_def Let_def
  by ((rule times_follow | rule memory_steps | assumption | (simp only: times_same; fail))+)

lemma review_times:
  "times_ok N st \<Longrightarrow> leads st (choose_destination L C S i n d p) (times_ok N)"
  "times_ok N st \<Longrightarrow> leads st (rename_proposal L C S i n p) (times_ok N)"
  "times_ok N st \<Longrightarrow> leads st (conclude C S j m t) (times_ok N)"
  "times_ok N st \<Longrightarrow> leads st (ignore L C S i n) (times_ok N)"
  unfolding choose_destination_def rename_proposal_def ignore_def conclude_def Let_def
  by ((rule times_follow | rule memory_steps memory_kept_try | assumption | rule times_prune
       | (erule times_update; simp; fail))+)

lemma choose_path_times: "times_ok N st \<Longrightarrow> leads st (choose_destination_path L C S i n p) (times_ok N)"
  unfolding choose_destination_path_def
  by (rule leads_kept, rule memory_steps, assumption, rule leads_kept, rule memory_steps, assumption, rule leads_state_of,
      rule leads_then, rule leads_option, erule setting_times, rule leads_end, rule memory_steps, assumption)
     ((rule leads_lift review_times | assumption)+)

lemma move_times:
  "times_ok N st \<Longrightarrow> leads st (approve L C S i n) (times_ok N)"
  "times_ok N st \<Longrightarrow> leads st (undo L C S i n) (times_ok N)"
  unfolding approve_def approve_prepared_def undo_def undo_prepared_def
  by ((rule leads_kept leads_set review_times | rule memory_steps memory_kept_prepare | assumption
       | (erule times_update; simp; fail))+)

section \<open>What a scan reads\<close>

text \<open>The files of the world have times within \<open>N\<close>.\<close>

definition timely :: "'w os \<Rightarrow> (int \<Rightarrow> bool) \<Rightarrow> bool" where
  "timely S N \<longleftrightarrow> (\<forall>p w st w'. os_lstat S p w = (Inr st, w') \<longrightarrow> st_type st = FRegular \<longrightarrow> N (modified_ns_of st))"

lemma timelyD: "timely S N \<Longrightarrow> os_lstat S p w = (Inr st, w') \<Longrightarrow> st_type st = FRegular \<Longrightarrow> N (modified_ns_of st)"
  unfolding timely_def by blast

lemma identity_time: "timely S N \<Longrightarrow> identity_read S p w = (Inr i, w') \<Longrightarrow> N (id_modified_ns i)"
  by (auto simp: identity_read_def and_then_Inr dest: timelyD)

lemma in_os_identity_time: "timely S N \<Longrightarrow> in_os SFs (identity_read S p) s = (Inr i, s') \<Longrightarrow> N (id_modified_ns i)"
  by (auto simp: in_os_Inr dest: identity_time)

lemma consider_times:
  assumes t: "timely S N" and "times_ok N st"
  shows "leads st (consider_file L C S root relative) (times_ok N)"
proof -
  have new: "times_ok N (st\<lparr>ps_proposals := ps_proposals st @ [new_proposal L st' root relative i sg warning pid]\<rparr>)"
    if "N (id_modified_ns i)" for st' i sg warning pid
    using assms(2) that by (intro times_new) (simp_all add: new_proposal_def)
  show ?thesis
    unfolding consider_file_def Let_def
    by (rule leads_cases, (rule leads_end, rule memory_steps, rule assms), rule leads_state_of, rule leads_cases,
        (rule leads_end, rule memory_steps, rule assms), rule leads_kept, rule memory_kept_sample, rule assms, rule leads_cases,
        (rule leads_end, rule memory_steps, rule assms), rule leads_read, rule memory_steps, rule assms,
        drule in_os_identity_time [OF t],
        (rule leads_cases leads_set leads_kept leads_end | rule memory_steps memory_kept_suggest
         memory_kept_cases memory_kept_then memory_kept_try | rule assms | (rule new; assumption))+)
qed

lemma scan_times:
  assumes t: "timely S N"
  shows "times_ok N st \<Longrightarrow> leads st (scan_once L C S) (times_ok N)"
proof -
  have pause: "times_ok N st \<Longrightarrow> leads st (pause_at_limit C S) (times_ok N)" for st
    unfolding pause_at_limit_def
    by ((rule times_follow | rule memory_steps | assumption | (simp only: times_same; fail))+)
  have files: "times_ok N st \<Longrightarrow> leads st (scan_files L C S root fs k) (times_ok N)" for st root fs k
  proof (induction fs arbitrary: st k)
    case (Cons f fs)
    show ?case unfolding scan_files.simps
      by (rule leads_then [OF pause [OF Cons.prems]], rule leads_then, rule consider_times [OF t], assumption, rule Cons.IH)
  qed (simp only: scan_files.simps, intro leads_end memory_steps)
  have roots: "times_ok N st \<Longrightarrow> leads st (scan_roots L C S rs k) (times_ok N)" for st rs k
  proof (induction rs arbitrary: st k)
    case (Cons r rs)
    show ?case unfolding scan_roots.simps
      by (rule leads_kept, rule memory_steps, rule Cons.prems, rule leads_then, rule files, rule Cons.prems, rule Cons.IH)
  qed (simp only: scan_roots.simps, intro leads_end memory_steps)
  assume ok: "times_ok N st"
  show "leads st (scan_once L C S) (times_ok N)"
    unfolding scan_once_def
    by (rule leads_state_of, rule leads_cases, rule leads_end, rule memory_steps, rule ok, rule leads_then, rule pause, rule ok,
        rule leads_state_of, rule leads_then, erule roots, intro leads_kept leads_end memory_steps memory_kept_cases; assumption)
qed

lemma timed_operations: "timely S N \<Longrightarrow> all_operations L C S (\<lambda>s. times_ok N (sv_state s))"
  by unfold_locales
    (auto intro!: keeps_leads [where J = "times_ok N"] setting_times review_times choose_path_times move_times scan_times)

section \<open>What an operation answers with\<close>

definition gives :: "persistent \<Rightarrow> ('w service, 'e, 'a) io \<Rightarrow> ('a \<Rightarrow> bool) \<Rightarrow> bool" where
  "gives st m Q \<longleftrightarrow> (\<forall>s x s'. sv_state s = st \<longrightarrow> m s = (Inr x, s') \<longrightarrow> Q x)"

lemma givesD: "gives (sv_state s) m Q \<Longrightarrow> m s = (Inr x, s') \<Longrightarrow> Q x"
  by (auto simp: gives_def)

lemma gives_ok: "Q x \<Longrightarrow> gives st (ok x) Q"
  by (simp add: gives_def)

lemma gives_kept: "memory_kept m \<Longrightarrow> (\<And>x. gives st (k x) Q) \<Longrightarrow> gives st (and_then m k) Q"
  unfolding gives_def and_then_Inr using memory_keptD by blast

lemma gives_state_of: "gives st (k (g st)) Q \<Longrightarrow> gives st (and_then (state_of g) k) Q"
  by (auto simp: gives_def and_then_def state_of_def)

lemma gives_set: "gives (f st) (k ()) Q \<Longrightarrow> gives st (and_then (set_state f) k) Q"
proof -
  assume g: "gives (f st) (k ()) Q"
  show ?thesis unfolding gives_def
  proof (intro allI impI)
    fix s x s' assume "sv_state s = st" "and_then (set_state f) k s = (Inr x, s')"
    then show "Q x" using givesD [of "s\<lparr>sv_state := f st\<rparr>"] g by (simp add: and_then_def set_state_def)
  qed
qed

lemma gives_lift: "(\<And>x. r = Inr x \<Longrightarrow> gives st (k x) Q) \<Longrightarrow> gives st (and_then (lift_res r) k) Q"
  by (cases r) (auto simp: gives_def and_then_def)

lemma gives_then:
  assumes "leads st m J" and "\<And>x st'. J st' \<Longrightarrow> gives st' (k x) Q"
  shows "gives st (and_then m k) Q"
  using assms unfolding gives_def leads_def and_then_Inr by blast

lemma update_time:
  "times_ok N st \<Longrightarrow> i < length (ps_proposals st) \<Longrightarrow> (\<And>p. p_modified_ns (f p) = p_modified_ns p) \<Longrightarrow>
    N (p_modified_ns (ps_proposals (update_proposal i f st) ! i))"
  by (simp add: update_proposal_def times_nth)

abbreviation timed :: "(int \<Rightarrow> bool) \<Rightarrow> proposal \<Rightarrow> bool" where
  "timed N p \<equiv> N (p_modified_ns p)"

lemmas gives_follow = gives_state_of gives_set gives_kept gives_ok

lemma show_time: "times_ok N st \<Longrightarrow> show_proposal st i = Inr p \<Longrightarrow> timed N p"
  by (auto simp: show_proposal_def times_ok_def list_all_iff find_Some_iff)

lemma conclude_time:
  assumes "times_ok N st" and "i < length (ps_proposals st)"
  shows "gives st (conclude C S i n t) (timed N)"
  unfolding conclude_def
  by (rule gives_set, rule gives_state_of, rule gives_set, rule gives_kept, rule memory_steps, rule gives_kept, rule memory_steps,
      rule gives_ok, rule update_time, rule assms, rule assms) simp

lemma review_time:
  assumes t: "times_ok N st"
  shows "gives st (choose_destination L C S u n d p) (timed N)"
    and "gives st (rename_proposal L C S u n p) (timed N)"
    and "gives st (ignore L C S u n) (timed N)"
proof -
  note index = proposal_index_ok [THEN conjunct1]
  show "gives st (choose_destination L C S u n d p) (timed N)" "gives st (rename_proposal L C S u n p) (timed N)"
    unfolding choose_destination_def rename_proposal_def Let_def
    by ((rule gives_follow gives_lift | rule memory_steps memory_kept_try | rule update_time [OF t] | erule index | simp; fail)+)
  show "gives st (ignore L C S u n) (timed N)"
    unfolding ignore_def
    by ((rule gives_state_of gives_lift gives_kept | rule memory_steps | rule conclude_time [OF t] | erule index)+)
qed

lemma choose_path_time:
  assumes t: "times_ok N st"
  shows "gives st (choose_destination_path L C S u n p) (timed N)"
  unfolding choose_destination_path_def
  by (rule gives_kept, rule memory_steps, rule gives_kept, rule memory_steps, rule gives_state_of,
      rule gives_then [where J = "times_ok N"], rule leads_option, rule setting_times [OF t], rule leads_end, rule memory_steps, rule t)
     (rule gives_lift gives_lift, rule gives_lift, erule review_time)

lemma approve_time:
  assumes t: "times_ok N (sv_state s)" and m: "approve L C S u n s = (Inr p, s')"
  shows "timed N p"
proof -
  obtain q s1 where q: "approve_prepare L S u n s = (Inr q, s1)" and run: "approve_prepared L C S u n q s1 = (Inr p, s')"
    using m unfolding approve_def and_then_Inr by blast
  note i = approve_prepare_ok(1,6) [OF q]
  have "sv_state s1 = sv_state s" using i(2) by auto
  moreover have "gives (sv_state s) (approve_prepared L C S u n q) (timed N)"
    unfolding approve_prepared_def
    by (rule gives_kept, rule memory_steps, rule gives_set, (rule gives_kept, rule memory_steps)+, rule conclude_time,
        rule times_update [OF t], simp, simp add: update_proposal_def i(1))
  ultimately have "gives (sv_state s1) (approve_prepared L C S u n q) (timed N)" by simp
  from givesD [OF this run] show ?thesis .
qed

lemma undo_time:
  assumes t: "times_ok N (sv_state s)" and m: "undo L C S u n s = (Inr p, s')"
  shows "timed N p"
proof -
  obtain q s1 where q: "undo_prepare L S u n s = (Inr q, s1)" and run: "undo_prepared L C S u n q s1 = (Inr p, s')"
    using m unfolding undo_def and_then_Inr by blast
  note i = undo_prepare_ok(1,6) [OF q]
  have "sv_state s1 = sv_state s" using i(2) by auto
  moreover have "gives (sv_state s) (undo_prepared L C S u n q) (timed N)"
    unfolding undo_prepared_def
    by (rule gives_kept, rule memory_steps, rule gives_lift, rule gives_lift, rule gives_kept, rule memory_steps,
        rule gives_kept, rule memory_steps, rule conclude_time [OF t i(1)])
  ultimately have "gives (sv_state s1) (undo_prepared L C S u n q) (timed N)" by simp
  from givesD [OF this run] show ?thesis .
qed

section \<open>The daemon\<close>

text \<open>\<open>safe m\<close>: from times within \<open>N\<close>, \<open>m\<close> does not panic.\<close>

definition safe :: "(int \<Rightarrow> bool) \<Rightarrow> ('w service, stop, 'a) io \<Rightarrow> bool" where
  "safe N m \<longleftrightarrow> (\<forall>s s'. times_ok N (sv_state s) \<longrightarrow> m s \<noteq> (Inl Panic, s'))"

lemma safe_answering:
  assumes "\<And>s x s'. times_ok N (sv_state s) \<Longrightarrow> m s = (Inr x, s') \<Longrightarrow> f x \<noteq> Inl Panic"
  shows "safe N (answering m f)"
  using assms unfolding safe_def answering_def by (fastforce simp: and_then_Inl)

lemma safe_err: "safe N (err (Refused e))"
  by (simp add: safe_def)

lemma safe_when: "(c \<Longrightarrow> safe N m) \<Longrightarrow> (\<not> c \<Longrightarrow> safe N m') \<Longrightarrow> safe N (if c then m else m')"
  by simp

lemma safe_plain: "safe N (answering m (\<lambda>x. Inr (g x)))" "safe N (answering m' (\<lambda>(a, b). Inr (h a b)))"
  by (auto intro!: safe_answering split: prod.splits)

lemma safe_proposal:
  assumes "\<And>n. N n \<Longrightarrow> json_i128 J n" and "\<And>s p s'. times_ok N (sv_state s) \<Longrightarrow> m s = (Inr p, s') \<Longrightarrow> timed N p"
  shows "safe N (answering m (proposal_value J))"
  using assms by (intro safe_answering) (simp add: proposal_value_def)

lemma with_Inr:
  "with_id q k s = (Inr x, s') \<Longrightarrow> \<exists>i. k i s = (Inr x, s')"
  "with_revision q h s = (Inr x, s') \<Longrightarrow> \<exists>i n. h i n s = (Inr x, s')"
  by (auto simp: with_id_def with_revision_def and_then_Inr)

lemma dispatch_data_safe:
  assumes N: "\<And>n. N n \<Longrightarrow> json_i128 J n"
  shows "safe N (dispatch_data L C J S q)"
proof -
  have queue: "safe N (answering (state_of queue_list) (queue_value J))"
    by (rule safe_answering) (use N in \<open>auto simp: state_of_def queue_value_def queue_list_def times_ok_def list_all_iff dest!: in_set_takeD\<close>)
  have show1: "safe N (answering (with_id q (\<lambda>i. and_then (state_of (\<lambda>st. show_proposal st i)) lift_res)) (proposal_value J))"
    by (rule safe_proposal [OF N]) (auto dest!: with_Inr simp: and_then_Inr state_of_def intro: show_time)
  have dest: "safe N (answering (and_then (lift_res (parse_argument (json_to_destination J) q)) (\<lambda>a.
      with_revision q (\<lambda>i n. choose_destination L C S i n (da_root_id a) (da_directory a)))) (proposal_value J))"
    by (rule safe_proposal [OF N]) (auto simp: and_then_Inr dest!: with_Inr dest: givesD [OF review_time(1)])
  have folder: "safe N (answering (with_revision q (\<lambda>i n. and_then (lift_res (text_argument q)) (\<lambda>folder.
      choose_destination_path L C S i n folder))) (proposal_value J))"
    by (rule safe_proposal [OF N]) (auto simp: and_then_Inr dest!: with_Inr dest: givesD [OF choose_path_time])
  have name: "safe N (answering (with_revision q (\<lambda>i n. and_then (lift_res (text_argument q)) (\<lambda>name.
      rename_proposal L C S i n name))) (proposal_value J))"
    by (rule safe_proposal [OF N]) (auto simp: and_then_Inr dest!: with_Inr dest: givesD [OF review_time(2)])
  have app: "safe N (answering (with_revision q (\<lambda>i n. approve L C S i n)) (proposal_value J))"
    by (rule safe_proposal [OF N]) (auto dest!: with_Inr dest: approve_time)
  have ign: "safe N (answering (with_revision q (\<lambda>i n. ignore L C S i n)) (proposal_value J))"
    by (rule safe_proposal [OF N]) (auto dest!: with_Inr dest: givesD [OF review_time(3)])
  have und: "safe N (answering (with_revision q (\<lambda>i n. undo L C S i n)) (proposal_value J))"
    by (rule safe_proposal [OF N]) (auto dest!: with_Inr dest: undo_time)
  show ?thesis
    unfolding dispatch_data_def Let_def
    by ((rule safe_when queue show1 dest folder name app ign und safe_plain safe_err)+)
qed

lemma respond_safe:
  assumes "\<And>n. N n \<Longrightarrow> json_i128 J n" and "times_ok N (sv_state s)"
  shows "respond L C J T S q s \<noteq> (Inl HandlePanic, s')"
proof -
  have "dispatch L C J S q s \<noteq> (Inl Panic, t)" for t
    using dispatch_data_safe [OF assms(1), of N L C S q] assms(2)
    by (auto simp: safe_def dispatch_def and_then_Inl state_of_def)
  then show ?thesis
    by (auto simp: respond_def and_then_Inl split: sum.splits stop.splits)
qed

lemma in_net_state: "in_net m s = (r, s') \<Longrightarrow> sv_state s' = sv_state s"
  by (auto simp: in_net_def split: prod.splits)

lemma in_net_no_panic: "in_net m s \<noteq> (Inl HandlePanic, s')"
  by (auto simp: in_net_def map_res_err_iff split: prod.splits)

lemma handle_safe:
  assumes "\<And>n. N n \<Longrightarrow> json_i128 J n" and "times_ok N (sv_state s)"
  shows "handle L C J T S N' s \<noteq> (Inl HandlePanic, s')"
proof
  assume "handle L C J T S N' s = (Inl HandlePanic, s')"
  then obtain a s1 line s2 q t where "in_net (nt_try_clone N') s = (Inr a, s1)"
    and "in_net (nt_receive N' (MAX_IPC_BYTES + 1)) s1 = (Inr line, s2)" and r: "respond L C J T S q s2 = (Inl HandlePanic, t)"
    unfolding handle_def by (auto simp: and_then_Inl in_net_no_panic split: if_splits)
  then have "times_ok N (sv_state s2)" using assms(2) by (auto dest!: in_net_state)
  with respond_safe [OF assms(1)] r show False by blast
qed

lemma served_crash:
  assumes h: "served m s = (Inl Crashed, s')"
  shows "m s = (Inl HandlePanic, s')"
proof (cases "m s")
  case (Pair y t)
  show ?thesis
  proof (cases y)
    case (Inl e)
    with h Pair show ?thesis by (cases e) (simp_all add: served_def and_then_def try_result_def)
  qed (use h Pair in \<open>simp add: served_def and_then_def try_result_def\<close>)
qed

lemma owner_then:
  fixes m :: "('w service, 'e, unit) io"
  assumes "and_then (peer_is_owner N) (\<lambda>owner. if owner then m else ok ()) s = (Inl e, s')"
  shows "\<exists>s1. peer_is_owner N s = (Inr True :: 'e + bool, s1) \<and> m s1 = (Inl e, s')"
proof (cases "peer_is_owner N s :: ('e + bool) \<times> 'w service")
  case (Pair y s1)
  then obtain b where "y = Inr b" by (auto simp: peer_is_owner_def split: prod.splits sum.splits)
  with Pair assms show ?thesis by (cases b) (simp_all add: and_then_def)
qed

lemma serve_safe:
  assumes "\<And>n. N n \<Longrightarrow> json_i128 J n" and "times_ok N (sv_state s)"
  shows "serve_next L C J T S N' s \<noteq> (Inl Crashed, s')"
proof
  assume "serve_next L C J T S N' s = (Inl Crashed, s')"
  moreover obtain x s1 where a: "in_net (nt_accept N') s = (x, s1)" by fastforce
  ultimately have "x = Inr True" and "and_then (peer_is_owner N') (\<lambda>owner. if owner then served (handle L C J T S N') else ok ()) s1
      = (Inl Crashed, s')"
    by (auto simp: serve_next_def and_then_def try_result_def split: sum.splits handle_error.splits bool.splits)
  then obtain y s2 where p: "peer_is_owner N' s1 = (y :: ending + bool, s2)" and h: "handle L C J T S N' s2 = (Inl HandlePanic, s')"
    by (blast dest: owner_then served_crash)
  have "sv_state s2 = sv_state s1" using p by (auto simp: peer_is_owner_def split: prod.splits sum.splits)
  then have "times_ok N (sv_state s2)" using in_net_state [OF a] assms(2) by simp
  with handle_safe [OF assms(1)] h show False by blast
qed

lemma scan_if_due_runs: "scan_if_due L C S N s \<noteq> (Inl e, s')"
  by (auto simp: scan_if_due_def and_then_Inl split: if_splits)

lemma rounds_safe:
  assumes "timely S N" and "\<And>n. N n \<Longrightarrow> json_i128 J n" and "times_ok N (sv_state s)"
    and "rounds L C J T S N' k s = (r, s')"
  shows "r \<noteq> Inl Crashed \<and> times_ok N (sv_state s')"
  using assms(3,4)
proof (induction k arbitrary: s)
  case (Suc k)
  obtain x s1 where x: "tick L C J T S N' s = (x, s1)" by fastforce
  have s1: "times_ok N (sv_state s1)"
    using keepsD [OF all_operations.keep_tick [OF timed_operations [OF assms(1)]] Suc.prems(1) x] .
  have safe: "x \<noteq> Inl Crashed"
    using x serve_safe [OF assms(2) Suc.prems(1)] by (auto simp: tick_def and_then_Inl scan_if_due_runs)
  show ?case
  proof (cases x)
    case (Inl e)
    with x Suc.prems(2) have "s' = s1" "r = Inl e" by (simp_all add: and_then_def)
    with Inl safe s1 show ?thesis by simp
  next
    case (Inr u)
    with x Suc.prems(2) have "rounds L C J T S N' k s1 = (r, s')" by (simp add: and_then_def)
    from Suc.IH [OF s1 this] show ?thesis .
  qed
qed auto

end
