(* ===== verification/Command_Properties.thy ===== *)
theory Command_Properties
  imports Daemon_Properties Panic_Laws
begin

text \<open>
  From the command line to the service: every command becomes a request, valid but for what the user wrote, and the daemon
  runs for it the operation the command names with the values it was given; and no request ends it
  by a panic while the files are dated within the numbers of \<open>serde_json\<close>.
\<close>

section \<open>What a command asks for\<close>

definition asking ::
  "ipc_json \<Rightarrow> ('w service, service_error, proposal) io \<Rightarrow> ('w service, stop, payload) io" where
  "asking J m = answering m (proposal_value J)"

fun command_effect :: "libs \<Rightarrow> codec \<Rightarrow> ipc_json \<Rightarrow> 'w os \<Rightarrow> cli_command \<Rightarrow> ('w service, stop, payload) io" where
  "command_effect L C J S Status = answering (state_of (\<lambda>st. (ps_paused st, waiting st))) (\<lambda>(p, n). Inr (StatusData p n))"
| "command_effect L C J S Pause = answering (set_paused C S True) (\<lambda>_. Inr (PausedData True))"
| "command_effect L C J S Resume = answering (set_paused C S False) (\<lambda>_. Inr (PausedData False))"
| "command_effect L C J S Scan = answering (scan_once L C S) (\<lambda>n. Inr (CreatedData n))"
| "command_effect L C J S (Roots RootsList) = answering (state_of ps_roots) (\<lambda>rs. Inr (RootsData rs))"
| "command_effect L C J S (Roots (RootsAdd path watch dest)) = answering (add_root C S path watch dest) (\<lambda>r. Inr (RootData r))"
| "command_effect L C J S (Roots (RootsRemove i)) = answering (remove_root C S i) (\<lambda>_. Inr Null)"
| "command_effect L C J S QueueList = answering (state_of queue_list) (queue_value J)"
| "command_effect L C J S (ProposalCommand (Show i)) =
    asking J (and_then (state_of (\<lambda>st. show_proposal st i)) lift_res)"
| "command_effect L C J S (ProposalCommand (Approve a)) = asking J (approve L C S (ra_id a) (ra_revision a))"
| "command_effect L C J S (ProposalCommand (Ignore a)) = asking J (ignore L C S (ra_id a) (ra_revision a))"
| "command_effect L C J S (ProposalCommand (ToDestination i folder rt n)) = asking J (choose_destination L C S i n rt folder)"
| "command_effect L C J S (ProposalCommand (ChooseFolder i folder n)) =
    asking J (case to_str folder of None \<Rightarrow> err MalformedState | Some f \<Rightarrow> choose_destination_path L C S i n f)"
| "command_effect L C J S (ProposalCommand (Rename i name n)) = asking J (rename_proposal L C S i n name)"
| "command_effect L C J S (RuleCommand RuleList) = answering (state_of ps_rules) (\<lambda>rs. Inr (RulesData rs))"
| "command_effect L C J S (RuleCommand (RuleCreate i p)) = answering (create_rule_from_proposal L C S i p) (\<lambda>r. Inr (RuleData r))"
| "command_effect L C J S (AgentCommand AgentStatus) = answering (state_of ps_agent) (\<lambda>a. Inr (AgentData a))"
| "command_effect L C J S (AgentCommand (AgentEnable executable args)) =
    answering (configure_metadata_agent C S executable args) (\<lambda>a. Inr (AgentData a))"
| "command_effect L C J S (AgentCommand AgentDisable) = answering (disable_agent C S) (\<lambda>a. Inr (AgentData a))"
| "command_effect L C J S (UndoCommand a) = asking J (undo L C S (ra_id a) (ra_revision a))"

text \<open>The priority of a rule is an \<open>i32\<close>.\<close>

definition in_range :: "cli_command \<Rightarrow> bool" where
  "in_range c \<longleftrightarrow> (\<forall>i p. c = RuleCommand (RuleCreate i p) \<longrightarrow> in_i32 p)"

lemmas dispatching = dispatch_data_def request_of_def plain_def revision_request_def with_id_def with_revision_def
  rid_def revision_def text_argument_def parse_argument_def asking_def and_then_value res_then.simps ok_or.simps

lemma err_Pair: "err e = Pair (Inl e)"
  by (rule ext) simp

lemma to_str_same: "to_str s = Some t \<Longrightarrow> t = s"
  by (simp add: to_str_def split: if_splits)

text \<open>C26. Every command reaches the operation it names: with a \<open>serde_json\<close> that reads back the
  arguments it writes, the daemon runs for the command's request exactly that operation of the
  service, with the command's own values, and answers with its value.\<close>

theorem commands_reach_operations:
  assumes "arguments_ok J" and "in_range c" and "command_request J c = Some parts"
  shows "dispatch_data L C J S (request_of k parts) = command_effect L C J S c"
proof -
  have root: "json_to_root_add J t = Some a" if "json_of_root_add J a = Some t" for a t
    using assms(1) that by (simp add: arguments_ok_def)
  have args: "json_to_destination J (json_of_destination J d) = Some d" "json_to_agent J (json_of_agent J g) = Some g" for d g
    using assms(1) by (simp_all add: arguments_ok_def)
  show ?thesis
  proof (cases c)
    case (Roots x)
    then show ?thesis using assms(3) by (cases x) (auto simp: dispatching root)
  next
    case (ProposalCommand x)
    then show ?thesis using assms(3) by (cases x) (auto simp: dispatching args err_Pair split: option.split dest: to_str_same)
  next
    case (RuleCommand x)
    then show ?thesis using assms(2,3) by (cases x) (auto simp: dispatching in_range_def parse_show_i32)
  next
    case (AgentCommand x)
    then show ?thesis using assms(3) by (cases x) (auto simp: dispatching args)
  qed (use assms(3) in \<open>auto simp: dispatching\<close>)
qed

theorem commands_reach_operations_witness:
  "dispatch_data ref_libs house_codec (ref_json (request_for ''status'') blank) sim_os
     (request_of 3 (''rule_create'', Some 7, None, Some (show_int (- 12)))) =
   command_effect ref_libs house_codec (ref_json (request_for ''status'') blank) sim_os (RuleCommand (RuleCreate 7 (- 12)))"
  by (rule commands_reach_operations [OF ref_json_arguments]) (simp_all add: in_range_def in_i32_def)

text \<open>C40. The command line's requests are within the protocol but for the size of what the user wrote: the
  request of any command passes the check of the protocol exactly when its correlation id is not
  nil and its argument, if it has one, has at most 16 KiB; so every command without an argument is
  a valid request.\<close>

theorem command_requests_valid:
  assumes "command_request J c = Some (action, i, n, a)"
  shows "validate_request (request_of k (action, i, n, a)) = Inr () \<longleftrightarrow>
    k \<noteq> 0 \<and> (case a of None \<Rightarrow> True | Some t \<Rightarrow> length t \<le> 16384)"
proof -
  have "action \<noteq> [] \<and> length action \<le> 64 \<and> list_all action_byte action"
    using assms
    by (cases "(J, c)" rule: command_request.cases)
       (auto simp: plain_def revision_request_def action_byte_def is_ascii_lowercase_def)
  then show ?thesis by (auto simp: validate_request_ok request_of_def split: option.splits)
qed

theorem command_requests_valid_witness:
  "validate_request (request_of 3 (''roots_add'', None, None, Some ''10/in'')) = Inr ()"
  using command_requests_valid [of "ref_json (request_for ''status'') blank" "Roots (RootsAdd ''/in'' True False)" "''roots_add''"
      None None "Some ''10/in''" 3]
  by (simp add: ref_json_def flag_def to_str_ascii)

text \<open>C39. What the command line prints is the daemon's answer to its own request, or its own report of
  a failure: an answer with another schema or another correlation id is never printed, and the
  exit is a success only for an answer that says so.\<close>

theorem client_prints_own_answer:
  assumes "client_main J T S N socket c w = (Some (a, success), w')"
  shows "\<exists>k w1 parts. os_new_uuid S w = (k, w1) \<and> command_request J c = Some parts \<and>
    rs_schema_version a = 1 \<and> rs_correlation_id a = k \<and>
    (success \<longrightarrow> rs_ok a \<and> call J N socket (request_of k parts) w1 = (Inr a, w') \<and> validate_request (request_of k parts) = Inr ())"
proof -
  obtain parts where parts: "command_request J c = Some parts"
    using assms by (cases "command_request J c") (auto simp: client_main_def)
  obtain k w1 where k: "os_new_uuid S w = (k, w1)" by fastforce
  obtain x w2 where x: "call J N socket (request_of k parts) w1 = (x, w2)" by fastforce
  have id: "rq_correlation_id (request_of k parts) = k" by (cases parts) (simp add: request_of_def)
  show ?thesis
  proof (cases x)
    case (Inl e)
    then show ?thesis using assms parts k x by (cases parts) (auto simp: client_main_def)
  next
    case (Inr b)
    then have "a = b" "success = rs_ok b" "w' = w2" using assms parts k x by (auto simp: client_main_def)
    then show ?thesis using call_ok [OF x [unfolded Inr]] parts k x Inr id by auto
  qed
qed

theorem client_prints_own_answer_witness:
  "\<exists>a. rs_correlation_id a = 7 \<and> a = (blank\<lparr>rs_correlation_id := 7, rs_ok := True\<rparr>)"
proof -
  let ?a = "blank\<lparr>rs_correlation_id := 7, rs_ok := True\<rparr>"
  have "client_main (ref_json (request_for ''status'') ?a) ref_texts sim_os (ref_net ''a'' 1000) ''/socket'' Status small_tree
      = (Some (?a, True), snd (os_new_uuid sim_os small_tree))"
    by (simp add: client_main_def call_def validate_request_def request_of_def plain_def ref_json_def MAX_IPC_BYTES_def
        blank_def refusal_def action_byte_def is_ascii_lowercase_def small_tree_def run cong: and_then_step)
  from client_prints_own_answer [OF this] show ?thesis by (auto simp: run small_tree_def)
qed

section \<open>The daemon goes on\<close>

text \<open>C38. No request makes the daemon panic while the times of the files are ordinary. With a \<open>serde_json\<close>
  that writes every \<open>i64\<close> and every \<open>u64\<close>, files whose modification times in nanoseconds
  are such numbers, and proposals whose times are, the \<open>json!\<close> of no answer panics, whatever is
  asked over any number of rounds, and the times of the proposals stay such numbers.\<close>

theorem daemon_never_panics:
  assumes "\<And>n. - (2 ^ 63) \<le> n \<Longrightarrow> n < 2 ^ 64 \<Longrightarrow> json_i128 J n"
    and "\<And>p w m w'. os_lstat S p w = (Inr m, w') \<Longrightarrow> st_type m = FRegular \<Longrightarrow>
      - (2 ^ 63) \<le> modified_ns_of m \<and> modified_ns_of m < 2 ^ 64"
    and "\<forall>p \<in> set (ps_proposals (sv_state s)). - (2 ^ 63) \<le> p_modified_ns p \<and> p_modified_ns p < 2 ^ 64"
    and "rounds L C J T S N k s = (r, s')"
  shows "r \<noteq> Inl Crashed \<and>
    (\<forall>p \<in> set (ps_proposals (sv_state s')). - (2 ^ 63) \<le> p_modified_ns p \<and> p_modified_ns p < 2 ^ 64)"
proof -
  let ?N = "\<lambda>n :: int. - (2 ^ 63) \<le> n \<and> n < 2 ^ 64"
  have "timely S ?N" unfolding timely_def using assms(2) by blast
  moreover have "times_ok ?N (sv_state s)" using assms(3) by (simp add: times_ok_def list_all_iff)
  ultimately have "r \<noteq> Inl Crashed \<and> times_ok ?N (sv_state s')"
    using rounds_safe [of S ?N J, OF _ _ _ assms(4)] assms(1) by blast
  then show ?thesis by (simp add: times_ok_def list_all_iff)
qed

text \<open>A system whose files are all dated after 1970 and before 2242.\<close>

definition dated_os :: "sim os" where
  "dated_os = sim_os\<lparr>os_lstat := (\<lambda>p w. case os_lstat sim_os p w of
     (Inr m, w') \<Rightarrow> (Inr (m\<lparr>st_mtime := st_mtime m mod 8589934592, st_mtime_nsec := st_mtime_nsec m mod 1000000000\<rparr>), w')
   | (Inl e, w') \<Rightarrow> (Inl e, w'))\<rparr>"

lemma dated_times:
  assumes "os_lstat dated_os p w = (Inr m, w')"
  shows "- (2 ^ 63) \<le> modified_ns_of m \<and> modified_ns_of m < 2 ^ 64"
proof -
  have bound: "0 \<le> x * 1000000000 + y \<and> x * 1000000000 + y < 18446744073709551616"
    if "0 \<le> x" "x < 8589934592" "0 \<le> y" "y < 1000000000" for x y :: int
    using that by linarith
  from assms obtain a b where "modified_ns_of m = (a mod 8589934592) * 1000000000 + b mod 1000000000"
    by (auto simp: dated_os_def modified_ns_of_def split: prod.splits sum.splits)
  with bound [of "a mod 8589934592" "b mod 1000000000"] show ?thesis by simp
qed

theorem daemon_never_panics_witness:
  "fst (rounds ref_libs house_codec (ref_json (request_for ''queue_list'') blank) ref_texts dated_os
     (ref_net ''q'' 1000) 5 letter_service) \<noteq> Inl Crashed"
proof -
  have "json_i128 (ref_json (request_for ''queue_list'') blank) n" if "- (2 ^ 63) \<le> n" "n < 2 ^ 64" for n
    using that by (simp add: ref_json_def)
  moreover have "\<forall>p \<in> set (ps_proposals (sv_state letter_service)). - (2 ^ 63) \<le> p_modified_ns p \<and> p_modified_ns p < 2 ^ 64"
    by (simp add: letter_service_run house_def letter_proposal_def)
  ultimately show ?thesis
    using daemon_never_panics [of "ref_json (request_for ''queue_list'') blank" dated_os letter_service, OF _ _ _ prod.collapse [symmetric]]
      dated_times by blast
qed

end
