(* ===== verification/Unit_Tests.thy ===== *)
theory Unit_Tests
  imports Daemon Reference_Service
begin

text \<open>
  The unit tests of the libraries, translated and run on the model: a check that the definitions
  behave as the repository's own tests expect of the code. A test is a boolean over whatever it
  leaves open (the random UUIDs, the pattern library), and its lemma says that it passes; the tests
  that work on files run on the reference system, where a temporary directory is a small tree.
\<close>

section \<open>The rule engine\<close>

definition test_facts :: file_facts where
  "test_facts = \<lparr>extension = Some ''pdf'', verified_mime = Some ''application/pdf'', filename = ''report.pdf'',
     source_root_id = 0, source_directory = ''downloads'', completed = True\<rparr>"

definition test_rule :: "uuid \<Rightarrow> int \<Rightarrow> string \<Rightarrow> rule" where
  "test_rule new_v4 prio dir = \<lparr>rule_id = new_v4, priority = prio, predicates = [Extension ''pdf''],
     destination_root_id = 0, destination_directory = dir\<rparr>"

definition higher_priority_wins :: "glob \<Rightarrow> uuid \<Rightarrow> uuid \<Rightarrow> bool" where
  "higher_priority_wins glob i j =
    (case evaluate_rules glob [test_rule i 1 ''old'', test_rule j 2 ''docs''] test_facts of
       Inr (Decided d _ _) \<Rightarrow> directory d = ''docs'' | _ \<Rightarrow> False)"

definition equal_priority_different_destinations_tie :: "glob \<Rightarrow> uuid \<Rightarrow> uuid \<Rightarrow> bool" where
  "equal_priority_different_destinations_tie glob i j =
    (case evaluate_rules glob [test_rule i 2 ''a'', test_rule j 2 ''b''] test_facts of
       Inr (Tie _ _ _) \<Rightarrow> True | _ \<Rightarrow> False)"

definition equal_priority_identical_destinations_decide_once :: "glob \<Rightarrow> uuid \<Rightarrow> uuid \<Rightarrow> bool" where
  "equal_priority_identical_destinations_decide_once glob i j =
    (case evaluate_rules glob [test_rule i 2 ''docs'', test_rule j 2 ''docs''] test_facts of
       Inr (Decided d ids _) \<Rightarrow> directory d = ''docs'' \<and> length ids = 2 | _ \<Rightarrow> False)"

definition filename_patterns_are_typed_and_deterministic :: "glob \<Rightarrow> uuid \<Rightarrow> bool" where
  "filename_patterns_are_typed_and_deterministic glob i =
    (let pattern = (test_rule i 4 ''reports'')\<lparr>predicates := [FilenameGlob ''report-*.pdf'']\<rparr>;
         matching = test_facts\<lparr>filename := ''report-2026.pdf''\<rparr>
     in case evaluate_rules glob [pattern] matching of Inr (Decided _ _ _) \<Rightarrow> True | _ \<Rightarrow> False)"

definition mime_does_not_trust_extension :: "glob \<Rightarrow> uuid \<Rightarrow> bool" where
  "mime_does_not_trust_extension glob i =
    (let mime_rule = (test_rule i 3 ''pdfs'')\<lparr>predicates := [VerifiedMime ''image/png'']\<rparr>
     in case evaluate_rules glob [mime_rule] test_facts of Inr (Abstain _) \<Rightarrow> True | _ \<Rightarrow> False)"

definition traversal_is_rejected :: bool where
  "traversal_is_rejected = (case validate_relative_directory ''../escape'' of Inl _ \<Rightarrow> True | Inr _ \<Rightarrow> False)"

definition rule_limit_fails_closed :: "glob \<Rightarrow> (nat \<Rightarrow> uuid) \<Rightarrow> bool" where
  "rule_limit_fails_closed glob new_v4 =
    (evaluate_rules glob (map (\<lambda>k. test_rule (new_v4 k) 1 ''docs'') [0..<MAX_RULES + 1]) test_facts = Inl TooManyRules)"

lemmas rule_tests = higher_priority_wins_def equal_priority_different_destinations_tie_def
  equal_priority_identical_destinations_decide_once_def filename_patterns_are_typed_and_deterministic_def
  mime_does_not_trust_extension_def traversal_is_rejected_def rule_limit_fails_closed_def
  test_facts_def test_rule_def evaluate_rules_def validate_rule_def validate_relative_directory_def
  btree_set_def rule_destination_def Let_def starts_with_def

lemma rule_tests_pass:
  "higher_priority_wins glob i j" "equal_priority_different_destinations_tie glob i j"
  "equal_priority_identical_destinations_decide_once glob i j" "mime_does_not_trust_extension glob i"
  "traversal_is_rejected" "rule_limit_fails_closed glob new_v4"
  by (simp_all add: rule_tests MAX_RULES_def split_on.simps less_eq_destination_def)

text \<open>With any pattern library that lets \<open>report-*.pdf\<close> match \<open>report-2026.pdf\<close>.\<close>

lemma filename_test_passes:
  "glob ''report-*.pdf'' = Some m \<Longrightarrow> m ''report-2026.pdf'' \<Longrightarrow> filename_patterns_are_typed_and_deterministic glob i"
  by (simp add: rule_tests MAX_RULES_def split_on.simps)

section \<open>The protocol and the daemon\<close>

definition status_request :: "uuid \<Rightarrow> request" where
  "status_request new_v4 = \<lparr>rq_schema_version = 1, rq_correlation_id = new_v4, rq_action = ''status'',
     rq_proposal_id = None, rq_revision = None, rq_argument = None\<rparr>"

definition version_nil_correlation_and_oversized_arguments_are_rejected :: "uuid \<Rightarrow> uuid \<Rightarrow> bool" where
  "version_nil_correlation_and_oversized_arguments_are_rejected i j =
    (let r1 = (status_request i)\<lparr>rq_schema_version := 2\<rparr>;
         r2 = r1\<lparr>rq_schema_version := 1, rq_correlation_id := 0\<rparr>;
         r3 = r2\<lparr>rq_correlation_id := j, rq_argument := Some (replicate (16 * 1024 + 1) CHR ''x'')\<rparr>
     in validate_request r1 \<noteq> Inr () \<and> validate_request r2 \<noteq> Inr () \<and> validate_request r3 \<noteq> Inr ())"

definition permission_denial_is_reported_as_a_filesystem_error :: bool where
  "permission_denial_is_reported_as_a_filesystem_error =
    (error_state (SFs (FsIo ACCES)) = ''filesystem_error'')"

lemma protocol_tests_pass:
  "version_nil_correlation_and_oversized_arguments_are_rejected i j"
  permission_denial_is_reported_as_a_filesystem_error
  by (simp_all add: version_nil_correlation_and_oversized_arguments_are_rejected_def status_request_def
      validate_request_ok permission_denial_is_reported_as_a_filesystem_error_def Let_def)

section \<open>The classifier\<close>

definition test_agent_request :: "uuid \<Rightarrow> agent_request" where
  "test_agent_request new_v4 = \<lparr>aq_schema_version = 1, aq_correlation_id = new_v4, aq_filename_extension = None,
     aq_verified_mime = None, aq_size_bucket = ''small'', aq_source_root_id = 0, aq_allowed_destination_ids = []\<rparr>"

definition unavailable_agent_is_honest :: "agent_json \<Rightarrow> 'w os \<Rightarrow> uuid \<Rightarrow> 'w \<Rightarrow> bool" where
  "unavailable_agent_is_honest J S i w = (fst (classify J S disabled (test_agent_request i) w) = Inl AgentDisabled)"

text \<open>\<open>/bin/cat\<close> answers with the request it was sent.\<close>

definition malformed_output_is_rejected :: "agent_json \<Rightarrow> uuid \<Rightarrow> sim \<Rightarrow> bool" where
  "malformed_output_is_rejected J i w =
    (fst (classify J sim_os (local_adapter ''/bin/cat'' []) (test_agent_request i)
       (w\<lparr>sim_reply := map_option (Pair True) (json_of_request J (test_agent_request i))\<rparr>)) = Inl AgentMalformed)"

definition content_is_denied_independently_of_metadata_configuration :: bool where
  "content_is_denied_independently_of_metadata_configuration =
    (classify_content disabled ''sensitive'' = Inl ContentDenied)"

lemma agent_tests_pass:
  "unavailable_agent_is_honest J S i w" "content_is_denied_independently_of_metadata_configuration"
  by (simp_all add: unavailable_agent_is_honest_def classify_disabled
      content_is_denied_independently_of_metadata_configuration_def classify_content_def)

text \<open>A request is no response: \<open>serde_json\<close> refuses its fields.\<close>

lemma malformed_test_passes:
  assumes "json_of_request J (test_agent_request i) = Some b" and "length b \<le> MAX_METADATA_BYTES"
    and "json_to_response J b = None" and "sim_faults w = []"
  shows "malformed_output_is_rejected J i w"
  using assms
  by (simp add: malformed_output_is_rejected_def classify_def local_adapter_def run poll_fuel_def numeral_eq_Suc
      cong: and_then_step)

section \<open>The file-system primitives\<close>

text \<open>
  Inside a temporary directory \<open>/t\<close>: \<open>fs::write\<close> makes a file with one link, \<open>fs::create_dir\<close> a
  directory that is listed and can be opened by its path.
\<close>

abbreviation t_dir :: obj where "t_dir \<equiv> Obj 1 1"
abbreviation src_dir :: obj where "src_dir \<equiv> Obj 1 2"
abbreviation dst_dir :: obj where "dst_dir \<equiv> Obj 1 3"

definition tempdir :: sim where
  "tempdir = \<lparr>sim_entries = [], sim_files = [], sim_dirs = [(''/t'', t_dir)], sim_state = None, sim_next = None,
     sim_faults = [], sim_clock = 7000000000, sim_inodes = [20, 21, 22], sim_uuids = [7, 8, 9], sim_reply = None\<rparr>"

definition file_with :: "bytes \<Rightarrow> u64 \<Rightarrow> u32 \<Rightarrow> vfile" where
  "file_with b links mode = \<lparr>f_data = b, f_nlink = links, f_mtime = 5, f_mtime_nsec = 6, f_atime = 7, f_atime_nsec = 8, f_mode = mode\<rparr>"

definition with_file :: "obj \<Rightarrow> string \<Rightarrow> obj \<Rightarrow> vfile \<Rightarrow> sim \<Rightarrow> sim" where
  "with_file d n x f w = w\<lparr>sim_entries := sim_entries w @ [((d, n), x)], sim_files := sim_files w @ [(x, f)]\<rparr>"

definition with_dir :: "string \<Rightarrow> obj \<Rightarrow> sim \<Rightarrow> sim" where
  "with_dir n d w = w\<lparr>sim_entries := sim_entries w @ [((t_dir, n), d)], sim_dirs := sim_dirs w @ [(path_join ''/t'' n, d)]\<rparr>"

definition content_of :: "sim \<Rightarrow> obj \<Rightarrow> string \<Rightarrow> bytes option" where
  "content_of w d n = (case map_of (sim_entries w) (d, n) of None \<Rightarrow> None
     | Some x \<Rightarrow> map_option f_data (map_of (sim_files w) x))"

definition same_fs_never_overwrites :: bool where
  "same_fs_never_overwrites =
    (let w = with_file t_dir ''dest'' (Obj 1 11) (file_with ''old'' 1 420)
           (with_file t_dir ''source'' (Obj 1 10) (file_with ''new'' 1 420) tempdir)
     in case and_then (identity_read sim_os ''/t/source'') (same_filesystem_move sim_os ''/t/source'' ''/t/dest'') w of
          (r, w') \<Rightarrow> r = Inl FsCollision \<and> content_of w' t_dir ''dest'' = Some ''old'')"

definition two_dirs :: sim where
  "two_dirs = with_dir ''destination-dir'' dst_dir (with_dir ''source-dir'' src_dir tempdir)"

definition injected_permission_failure_preserves_the_source :: bool where
  "injected_permission_failure_preserves_the_source =
    (let w = with_file src_dir ''payload'' (Obj 1 10) (file_with ''payload'' 1 420) two_dirs
     in case and_then (identity_read sim_os ''/t/source-dir/payload'') (\<lambda>expected.
          and_then (open_root sim_os ''/t/source-dir'') (\<lambda>a.
          and_then (open_root sim_os ''/t/destination-dir'') (\<lambda>b.
          same_filesystem_move_at_with sim_os a ''payload'' b ''payload'' expected (\<lambda>_ _ _ _. err ACCES)))) w of
          (r, w') \<Rightarrow> r = Inl (FsIo ACCES) \<and> content_of w' src_dir ''payload'' = Some ''payload'' \<and>
            content_of w' dst_dir ''payload'' = None)"

definition staging_copy_is_verified :: bool where
  "staging_copy_is_verified =
    (case and_then (identity_read sim_os ''/t/source'') (\<lambda>i.
        and_then (verified_stage_copy ref_libs sim_os ''/t/source'' ''/t/stage'' i) (\<lambda>digest.
        and_then (sha256 ref_libs sim_os ''/t/source'') (\<lambda>d. ok (digest = d))))
        (with_file t_dir ''source'' (Obj 1 10) (file_with ''payload'' 1 420) tempdir) of
       (r, w') \<Rightarrow> r = Inr True)"

definition descriptor_relative_copy_publish_and_retire_preserves_a_verified_copy :: bool where
  "descriptor_relative_copy_publish_and_retire_preserves_a_verified_copy =
    (let w = with_file src_dir ''payload'' (Obj 1 10) (file_with ''verified payload'' 1 416) two_dirs
     in case and_then (identity_read sim_os ''/t/source-dir/payload'') (\<lambda>expected.
          and_then (open_root sim_os ''/t/source-dir'') (\<lambda>source_parent.
          and_then (open_root sim_os ''/t/destination-dir'') (\<lambda>destination_parent.
          and_then (open_beneath sim_os source_parent ''payload'' O_RDONLY) (\<lambda>source_fd.
          and_then (verified_stage_copy_at ref_libs sim_os source_fd destination_parent ''.stage'' expected) (\<lambda>digest.
          and_then (publish_stage_at sim_os destination_parent ''.stage'' ''payload'') (\<lambda>_.
          and_then (verify_at ref_libs sim_os destination_parent ''payload'' digest) (\<lambda>_.
          retire_source_at ref_libs sim_os source_parent ''payload'' expected digest))))))) w of
          (r, w') \<Rightarrow> r = Inr () \<and> content_of w' src_dir ''payload'' = None \<and>
            content_of w' dst_dir ''payload'' = Some ''verified payload'' \<and>
            map_option (\<lambda>x. map_option f_mode (map_of (sim_files w') x)) (map_of (sim_entries w') (dst_dir, ''payload'')) = Some (Some 416))"

text \<open>A symbolic link at \<open>/t/link\<close>, which the reference tree does not have of its own.\<close>

definition linked_os :: "sim os" where
  "linked_os = sim_os\<lparr>os_lstat := (\<lambda>p. if p = ''/t/link'' then observe (\<lambda>s. Inr \<lparr>st_type = FSymlink, st_nlink = 1,
     st_size = 4, st_dev = 1, st_ino = 12, st_mtime = 0, st_mtime_nsec = 0, st_atime = 0, st_atime_nsec = 0, st_mode = 511\<rparr>)
     else os_lstat sim_os p)\<rparr>"

definition traversal_and_symlinks_are_rejected :: bool where
  "traversal_and_symlinks_are_rejected =
    (validate_relative ''../escape'' \<noteq> Inr () \<and> fst (path_is_symlink linked_os ''/t/link'' tempdir) = Inr True)"

definition hardlinks_and_oversized_sparse_files_are_rejected :: bool where
  "hardlinks_and_oversized_sparse_files_are_rejected =
    (let original = with_file t_dir ''original'' (Obj 1 10) (file_with ''data'' 2 420) tempdir;
         linked = original\<lparr>sim_entries := sim_entries original @ [((t_dir, ''linked''), Obj 1 10)]\<rparr>;
         w = with_file t_dir ''oversized'' (Obj 1 11) (file_with (replicate (unat (MAX_FILE_SIZE + 1)) CHR 0x00) 1 420) linked
     in fst (identity_read sim_os ''/t/original'' w) = Inl UnsafeSource \<and>
        fst (identity_read sim_os ''/t/oversized'' w) = Inl Oversized)"

definition case_folded_collision_is_detected :: bool where
  "case_folded_collision_is_detected =
    (fst (destination_exists_case_folded ref_libs sim_os ''/t/report.pdf''
       (with_file t_dir ''REPORT.PDF'' (Obj 1 10) (file_with ''existing'' 1 420) tempdir)) = Inr True)"

lemmas fs_tests = run tempdir_def file_with_def with_file_def with_dir_def content_of_def two_dirs_def

declare same_filesystem_move_def [run] open_and_sync_def [run] verified_stage_copy_def [run]

lemma same_fs_test_passes: same_fs_never_overwrites
  by (simp add: same_fs_never_overwrites_def fs_tests run cong: and_then_step)

lemma injected_test_passes: injected_permission_failure_preserves_the_source
  by (simp add: injected_permission_failure_preserves_the_source_def fs_tests run cong: and_then_step)

lemma staging_test_passes: staging_copy_is_verified
  by (simp add: staging_copy_is_verified_def fs_tests run cong: and_then_step)

lemma descriptor_test_passes: descriptor_relative_copy_publish_and_retire_preserves_a_verified_copy
  by (simp add: descriptor_relative_copy_publish_and_retire_preserves_a_verified_copy_def fs_tests run cong: and_then_step)

lemma hardlink_test_passes: hardlinks_and_oversized_sparse_files_are_rejected
  by (simp add: hardlinks_and_oversized_sparse_files_are_rejected_def fs_tests run cong: and_then_step)

lemma traversal_test_passes: traversal_and_symlinks_are_rejected
  by (simp add: traversal_and_symlinks_are_rejected_def path_is_symlink_def linked_os_def fs_tests run cong: and_then_step)

lemma folded_test_passes: case_folded_collision_is_detected
  by (simp add: case_folded_collision_is_detected_def fs_tests run cong: and_then_step)

end
