(* ===== verification/Service_Tests.thy ===== *)
theory Service_Tests
  imports Unit_Tests Reference_Restart
begin

text \<open>
  The unit tests of the review service, translated and run on the model. The temporary directory
  is a tree of the reference system, \<open>thread::sleep\<close> advances its clock, and what a test writes
  itself is a change of the tree between two calls of the service.
\<close>

section \<open>The bench\<close>

text \<open>A path with a trailing slash, which \<open>Path::join\<close> makes of an empty relative path, opens the same directory.\<close>

definition bench_dir :: "string \<Rightarrow> obj \<Rightarrow> sim \<Rightarrow> sim" where
  "bench_dir p d w = w\<lparr>sim_dirs := sim_dirs w @ [(p, d), (p @ ''/'', d)]\<rparr>"

definition bench_tree :: "string \<Rightarrow> sim" where
  "bench_tree name = bench_dir (path_join ''/t'' name) src_dir (tempdir\<lparr>sim_entries := [((t_dir, name), src_dir)]\<rparr>)"

text \<open>A process that has not opened the service yet.\<close>

definition process_on :: "sim \<Rightarrow> sim service" where
  "process_on w = \<lparr>sv_state = fresh_state, sv_stability = (\<lambda>_. None), sv_rows = [],
     sv_db_path = ''/t/state/journal.sqlite3'', sv_world = w\<rparr>"

definition sleep_ms :: "int \<Rightarrow> (sim service, service_error, unit) io" where
  "sleep_ms n = modify (\<lambda>s. s\<lparr>sv_world := (sv_world s)\<lparr>sim_clock := sim_clock (sv_world s) + n * 1000000\<rparr>\<rparr>)"

definition on_files :: "(sim \<Rightarrow> sim) \<Rightarrow> (sim service, service_error, unit) io" where
  "on_files f = modify (\<lambda>s. s\<lparr>sv_world := f (sv_world s)\<rparr>)"

definition look :: "(sim \<Rightarrow> 'a) \<Rightarrow> (sim service, service_error, 'a) io" where
  "look f = gets (\<lambda>s. f (sv_world s))"

definition first_proposal :: "(sim service, service_error, proposal) io" where
  "first_proposal = state_of (\<lambda>st. hd (ps_proposals st))"

definition there :: "obj \<Rightarrow> string \<Rightarrow> (sim service, service_error, bool) io" where
  "there d n = look (\<lambda>w. map_of (sim_entries w) (d, n) \<noteq> None)"

text \<open>A codec that writes every state; it reads back one, the state a test restarts from.\<close>

definition last_codec :: "persistent \<Rightarrow> codec" where
  "last_codec st = \<lparr>json_of_request = (\<lambda>_. None), json_to_response = (\<lambda>_. None),
     json_of_state = (\<lambda>t. Some (if t = st then ''s'' else ''x'')), json_to_state = (\<lambda>b. if b = ''s'' then Some st else None)\<rparr>"

section \<open>The tests\<close>

definition only_explicit_roots_are_scanned_and_partial_files_are_ignored :: "(sim service, service_error, bool) io" where
  "only_explicit_roots_are_scanned_and_partial_files_are_ignored =
    (let C = last_codec fresh_state; L = ref_libs; S = sim_os in
    and_then (open_service L C S) (\<lambda>_.
    and_then (scan_once L C S) (\<lambda>a.
    and_then (add_root C S ''/t/watched'' True True) (\<lambda>_.
    and_then (scan_once L C S) (\<lambda>b.
    and_then (sleep_ms 1050) (\<lambda>_.
    and_then (scan_once L C S) (\<lambda>c.
    and_then (state_of ps_proposals) (\<lambda>ps.
    and_then first_proposal (\<lambda>p.
    and_then (ignore L C S (p_id p) (p_revision p)) (\<lambda>_.
    and_then (sleep_ms 1050) (\<lambda>_.
    and_then (scan_once L C S) (\<lambda>d.
    and_then (state_of ps_proposals) (\<lambda>qs.
    ok (a = 0 \<and> b = 0 \<and> c = 1 \<and> length ps = 1 \<and> d = 0 \<and> length qs = 1))))))))))))))"

definition watched_tree :: sim where
  "watched_tree = with_file src_dir ''pending.crdownload'' (Obj 1 11) (file_with ''partial'' 1 420)
     (with_file src_dir ''done.pdf'' (Obj 1 10) (file_with ''%PDF-payload'' 1 420) (bench_tree ''watched''))"

definition restart_preserves_queue_and_pause_state :: "(sim service, service_error, bool) io" where
  "restart_preserves_queue_and_pause_state =
    (let C = last_codec (fresh_state\<lparr>ps_paused := True\<rparr>); L = ref_libs; S = sim_os in
    and_then (open_service L C S) (\<lambda>_.
    and_then (set_paused C S True) (\<lambda>_.
    and_then (open_service L C S) (\<lambda>_.
    state_of ps_paused))))"

definition agent_is_metadata_only_and_disabled_by_default :: "(sim service, service_error, bool) io" where
  "agent_is_metadata_only_and_disabled_by_default =
    (let C = last_codec fresh_state; L = ref_libs; S = sim_os in
    and_then (open_service L C S) (\<lambda>_.
    and_then (state_of ps_agent) (\<lambda>a.
    and_then (configure_metadata_agent C S ''/bin/cat'' []) (\<lambda>configured.
    and_then (disable_agent C S) (\<lambda>b.
    ok (\<not> ag_enabled a \<and> ag_metadata_only a \<and> ag_enabled configured \<and> ag_metadata_only configured \<and> \<not> ag_enabled b))))))"

definition invalid_utf8_relative_names_round_trip :: "libs \<Rightarrow> bool" where
  "invalid_utf8_relative_names_round_trip L =
    (let path = [CHR ''a'', CHR 0xFF, CHR ''b''] in decode_relative L (encode_relative L path) = Inr path)"

definition files_tree :: sim where
  "files_tree = with_file src_dir ''report.pdf'' (Obj 1 10) (file_with ''%PDF-payload'' 1 420)
     (bench_dir ''/t/files/sorted'' dst_dir
       ((bench_tree ''files'')\<lparr>sim_entries := [((t_dir, ''files''), src_dir), ((src_dir, ''sorted''), dst_dir)]\<rparr>))"

definition approved_move_is_undoable_without_overwrite :: "(sim service, service_error, bool) io" where
  "approved_move_is_undoable_without_overwrite =
    (let C = last_codec fresh_state; L = ref_libs; S = sim_os in
    and_then (open_service L C S) (\<lambda>_.
    and_then (add_root C S ''/t/files'' True True) (\<lambda>registered.
    and_then (scan_once L C S) (\<lambda>_.
    and_then (sleep_ms 1050) (\<lambda>_.
    and_then (scan_once L C S) (\<lambda>_.
    and_then first_proposal (\<lambda>p.
    and_then (choose_destination L C S (p_id p) (p_revision p) (rt_id registered) ''sorted'') (\<lambda>p.
    and_then (approve L C S (p_id p) (p_revision p)) (\<lambda>moved_p.
    and_then (there src_dir ''report.pdf'') (\<lambda>a.
    and_then (there dst_dir ''report.pdf'') (\<lambda>b.
    and_then (undo L C S (p_id moved_p) (p_revision moved_p)) (\<lambda>_.
    and_then (there src_dir ''report.pdf'') (\<lambda>c.
    and_then (there dst_dir ''report.pdf'') (\<lambda>d.
    ok (\<not> a \<and> b \<and> c \<and> \<not> d)))))))))))))))"

definition growing_tree :: sim where
  "growing_tree = with_file src_dir ''growing.bin'' (Obj 1 10) (file_with ''one'' 1 420) (bench_tree ''watched'')"

definition growing_file_needs_a_new_stable_interval :: "(sim service, service_error, bool) io" where
  "growing_file_needs_a_new_stable_interval =
    (let C = last_codec fresh_state; L = ref_libs; S = sim_os in
    and_then (open_service L C S) (\<lambda>_.
    and_then (add_root C S ''/t/watched'' True False) (\<lambda>_.
    and_then (scan_once L C S) (\<lambda>a.
    and_then (sleep_ms 1050) (\<lambda>_.
    and_then (on_files (\<lambda>w. w\<lparr>sim_files := [(Obj 1 10, (file_with ''one-two'' 1 420)\<lparr>f_mtime := 9\<rparr>)]\<rparr>)) (\<lambda>_.
    and_then (scan_once L C S) (\<lambda>b.
    and_then (sleep_ms 1050) (\<lambda>_.
    and_then (scan_once L C S) (\<lambda>c.
    ok (a = 0 \<and> b = 0 \<and> c = 1))))))))))"

text \<open>The two restarts: the test edits journal and memory as a stopped process would have left them.\<close>

definition set_first_revision :: "u64 \<Rightarrow> (sim service, service_error, unit) io" where
  "set_first_revision n = set_state (update_proposal 0 (\<lambda>p. p\<lparr>p_revision := n\<rparr>))"

definition fixture_state :: persistent where
  "fixture_state = fresh_state\<lparr>ps_roots := [\<lparr>rt_id = 7, rt_path = ''/t/watched'', rt_watched = True, rt_destination = True\<rparr>],
     ps_proposals := [\<lparr>p_id = 8, p_revision = 2, p_source_root_id = 7, p_source_relative = ''fixture.pdf'',
       p_source_display = display_path ''/t/watched/fixture.pdf'', p_destination = None,
       p_destination_name = Some ''fixture.pdf'', p_destination_display = None,
       p_reason = ''No deterministic rule matched'', p_provenance = ''deterministic_abstain'',
       p_warning = Some ''No deterministic decision; metadata agent is disabled'', p_status = ''proposed'',
       p_size = 12, p_device = 1, p_inode = 10, p_modified_ns = 5000000006\<rparr>]\<rparr>"

definition fixture_tree :: sim where
  "fixture_tree = with_file src_dir ''fixture.pdf'' (Obj 1 10) (file_with ''%PDF-fixture'' 1 420) (bench_tree ''watched'')"

definition interrupted_operation_restarts_in_needs_attention_without_mutation :: "(sim service, service_error, bool) io" where
  "interrupted_operation_restarts_in_needs_attention_without_mutation =
    (let C = last_codec fixture_state; L = ref_libs; S = sim_os in
    and_then (open_service L C S) (\<lambda>_.
    and_then (add_root C S ''/t/watched'' True True) (\<lambda>_.
    and_then (scan_once L C S) (\<lambda>_.
    and_then (sleep_ms 1050) (\<lambda>_.
    and_then (scan_once L C S) (\<lambda>_.
    and_then first_proposal (\<lambda>p.
    and_then (in_journal (transition L S (p_id p) (p_revision p) Approved)) (\<lambda>approved.
    and_then (set_first_revision (e_revision approved)) (\<lambda>_.
    and_then (save C S) (\<lambda>_.
    and_then (open_service L C S) (\<lambda>_.
    and_then first_proposal (\<lambda>q.
    and_then (there src_dir ''fixture.pdf'') (\<lambda>a.
    ok (p_status q = ''needs_attention'' \<and> a))))))))))))))"

definition sorted_tree :: sim where
  "sorted_tree = with_file src_dir ''fixture.pdf'' (Obj 1 10) (file_with ''%PDF-fixture'' 1 420)
     (bench_dir ''/t/watched/sorted'' dst_dir
       ((bench_tree ''watched'')\<lparr>sim_entries := [((t_dir, ''watched''), src_dir), ((src_dir, ''sorted''), dst_dir)]\<rparr>))"

definition sorted_state :: persistent where
  "sorted_state = fixture_state\<lparr>ps_proposals := [(hd (ps_proposals fixture_state))\<lparr>p_revision := 5,
     p_destination := Some \<lparr>ch_root_id = 7, ch_directory = ''sorted''\<rparr>,
     p_destination_display := Some (display_path ''/t/watched/sorted/fixture.pdf''),
     p_warning := Some ''Same-filesystem atomic move; undo is available if neither path changes''\<rparr>]\<rparr>"

definition restart_completes_only_verified_source_removed_state :: "(sim service, service_error, bool) io" where
  "restart_completes_only_verified_source_removed_state =
    (let C = last_codec sorted_state; L = ref_libs; S = sim_os in
    and_then (open_service L C S) (\<lambda>_.
    and_then (add_root C S ''/t/watched'' True True) (\<lambda>registered.
    and_then (scan_once L C S) (\<lambda>_.
    and_then (sleep_ms 1050) (\<lambda>_.
    and_then (scan_once L C S) (\<lambda>_.
    and_then first_proposal (\<lambda>p.
    and_then (choose_destination L C S (p_id p) (p_revision p) (rt_id registered) ''sorted'') (\<lambda>p.
    and_then (on_files (\<lambda>w. w\<lparr>sim_entries :=
        [((t_dir, ''watched''), src_dir), ((src_dir, ''sorted''), dst_dir), ((dst_dir, ''fixture.pdf''), Obj 1 10)]\<rparr>)) (\<lambda>_.
    and_then (in_journal (transition L S (p_id p) (p_revision p) Approved)) (\<lambda>approved.
    and_then (in_journal (transition L S (p_id p) (e_revision approved) Published)) (\<lambda>published.
    and_then (in_journal (transition L S (p_id p) (e_revision published) SourceRemoved)) (\<lambda>removed.
    and_then (set_first_revision (e_revision removed)) (\<lambda>_.
    and_then (save C S) (\<lambda>_.
    and_then (open_service L C S) (\<lambda>_.
    and_then first_proposal (\<lambda>q.
    and_then (there dst_dir ''fixture.pdf'') (\<lambda>a.
    and_then (there src_dir ''fixture.pdf'') (\<lambda>b.
    ok (p_status q = ''completed'' \<and> a \<and> \<not> b)))))))))))))))))))"

definition filler_proposal :: "libs \<Rightarrow> uuid \<Rightarrow> proposal" where
  "filler_proposal L new_v4 = \<lparr>p_id = new_v4, p_revision = 1, p_source_root_id = 0, p_source_relative = encode_relative L ''fixture'',
     p_source_display = ''fixture'', p_destination = None, p_destination_name = None, p_destination_display = None,
     p_reason = ''fixture'', p_provenance = ''test'', p_warning = None, p_status = ''proposed'', p_size = 0, p_device = 0,
     p_inode = 0, p_modified_ns = 0\<rparr>"

definition full_active_queue_pauses_without_pruning :: "(nat \<Rightarrow> uuid) \<Rightarrow> (sim service, service_error, bool) io" where
  "full_active_queue_pauses_without_pruning new_v4 =
    (let C = last_codec fresh_state; L = ref_libs; S = sim_os in
    and_then (open_service L C S) (\<lambda>_.
    and_then (set_state (\<lambda>st. st\<lparr>ps_proposals := ps_proposals st @
        map (\<lambda>k. filler_proposal L (new_v4 k)) [0..<MAX_PROPOSALS]\<rparr>)) (\<lambda>_.
    and_then (try_result (scan_once L C S)) (\<lambda>r.
    and_then (state_of (\<lambda>st. st)) (\<lambda>st.
    ok (r = Inl SLimit \<and> ps_paused st \<and> length (ps_proposals st) = MAX_PROPOSALS))))))"

lemmas service_tests = in_restart bench_tree_def bench_dir_def process_on_def sleep_ms_def on_files_def look_def
  first_proposal_def there_def fs_tests last_codec_def run scan_once_def pause_at_limit_def waiting_def add_root_def
  ignore_def bounded_files_def consider_file_def sample_file_def is_partial_def known_source_def known_identity_def
  encode_relative_def facts_for_def sniff_mime_def suggest_def evaluate_rules_def ends_with_def agent_or_fallback_def
  proposed_path_def create_def active_count_def nonterminal_rows_def path_extension_def mime_of_prefix_def
  new_proposal_def choose_destination_def revise_proposal_def move_warning_def validate_relative_directory_def
  set_paused_def configure_metadata_agent_def disable_agent_def
  MAX_WALK_DIRECTORIES_def MAX_WALK_DEPTH_def MAX_WALK_FILES_def MAX_ACTIVE_def MAX_ROOTS_def MAX_PROPOSALS_def MAX_RULES_def

lemma roots_test_passes:
  "fst (only_explicit_roots_are_scanned_and_partial_files_are_ignored (process_on watched_tree)) = Inr True"
  by (simp add: only_explicit_roots_are_scanned_and_partial_files_are_ignored_def watched_tree_def service_tests cong: and_then_step)

lemma pause_test_passes:
  "fst (restart_preserves_queue_and_pause_state (process_on tempdir)) = Inr True"
  by (simp add: restart_preserves_queue_and_pause_state_def service_tests cong: and_then_step)

lemma agent_test_passes:
  "fst (agent_is_metadata_only_and_disabled_by_default (process_on tempdir)) = Inr True"
  by (simp add: agent_is_metadata_only_and_disabled_by_default_def service_tests cong: and_then_step)

lemma names_test_passes: "libs_ok L \<Longrightarrow> invalid_utf8_relative_names_round_trip L"
  by (simp add: invalid_utf8_relative_names_round_trip_def encode_relative_def decode_relative_def libs_ok.b64_roundtrip
      res_then_Inr_iff run)

lemma undo_test_passes:
  "fst (approved_move_is_undoable_without_overwrite (process_on files_tree)) = Inr True"
  by (simp add: approved_move_is_undoable_without_overwrite_def files_tree_def service_tests cong: and_then_step)

lemma growing_test_passes:
  "fst (growing_file_needs_a_new_stable_interval (process_on growing_tree)) = Inr True"
  by (simp add: growing_file_needs_a_new_stable_interval_def growing_tree_def service_tests cong: and_then_step)

lemma attention_test_passes:
  "fst (interrupted_operation_restarts_in_needs_attention_without_mutation (process_on fixture_tree)) = Inr True"
  by (simp add: interrupted_operation_restarts_in_needs_attention_without_mutation_def fixture_tree_def fixture_state_def
      set_first_revision_def service_tests cong: and_then_step)

lemma completes_test_passes:
  "fst (restart_completes_only_verified_source_removed_state (process_on sorted_tree)) = Inr True"
  by (simp add: restart_completes_only_verified_source_removed_state_def sorted_tree_def sorted_state_def fixture_state_def
      set_first_revision_def service_tests cong: and_then_step)

text \<open>The full queue: its proposals are kept as a list that is not unfolded.\<close>

lemma scan_full:
  assumes "\<not> ps_paused (sv_state s)" and "waiting (sv_state s) \<ge> MAX_PROPOSALS"
    and "save C S (s\<lparr>sv_state := (sv_state s)\<lparr>ps_paused := True\<rparr>\<rparr>) = (Inr (), s')"
  shows "scan_once L C S s = (Inl SLimit, s')"
  using assms by (simp add: scan_once_def pause_at_limit_def state_of_def set_state_def io_defs)

lemma save_runs:
  assumes "sim_faults (sv_world s) = []"
  shows "\<exists>w. save (last_codec st) sim_os s = (Inr (), s\<lparr>sv_world := w\<rparr>)"
proof -
  have "length (if sv_state s = st then ''s'' else ''x'') \<le> MAX_STATE_BYTES" by (simp add: MAX_STATE_BYTES_def)
  with assms show ?thesis
    by (cases "sv_state s = st") (auto simp: save_def last_codec_def run MAX_STATE_BYTES_def state_of_def in_os_def cong: and_then_step)
qed

lemma queue_test_passes:
  "fst (full_active_queue_pauses_without_pruning new_v4 (process_on tempdir)) = Inr True"
proof -
  let ?ps = "map (\<lambda>k. filler_proposal ref_libs (new_v4 k)) [0..<MAX_PROPOSALS]"
  obtain s0 where s0: "open_service ref_libs (last_codec fresh_state) sim_os (process_on tempdir) = (Inr (), s0)"
    and st: "sv_state s0 = fresh_state" and f: "sim_faults (sv_world s0) = []"
    by (simp add: service_tests cong: and_then_step)
  define q where "q = fresh_state\<lparr>ps_proposals := ?ps\<rparr>"
  have q: "\<not> ps_paused q" "length (ps_proposals q) = MAX_PROPOSALS" "waiting q = MAX_PROPOSALS"
    by (simp_all add: q_def fresh_state_def waiting_def filter_map comp_def filler_proposal_def)
  obtain w where "save (last_codec fresh_state) sim_os (s0\<lparr>sv_state := q\<lparr>ps_paused := True\<rparr>\<rparr>) =
      (Inr (), s0\<lparr>sv_state := q\<lparr>ps_paused := True\<rparr>, sv_world := w\<rparr>)"
    using save_runs [of "s0\<lparr>sv_state := q\<lparr>ps_paused := True\<rparr>\<rparr>"] f by auto
  then have "scan_once ref_libs (last_codec fresh_state) sim_os (s0\<lparr>sv_state := q\<rparr>) =
      (Inl SLimit, s0\<lparr>sv_state := q\<lparr>ps_paused := True\<rparr>, sv_world := w\<rparr>)"
    using q by (intro scan_full) simp_all
  moreover have "set_state (\<lambda>st. st\<lparr>ps_proposals := ps_proposals st @ ?ps\<rparr>) s0 = (Inr () :: service_error + unit, s0\<lparr>sv_state := q\<rparr>)"
    by (simp add: set_state_def modify_def st q_def fresh_state_def)
  ultimately show ?thesis
    using s0 q by (simp add: full_active_queue_pauses_without_pruning_def Let_def and_then_def try_result_def state_of_def gets_def ok_def)
qed

end
