(* ===== verification/Journal_Tests.thy ===== *)
theory Journal_Tests
  imports Reference_Run Journal_Properties
begin

text \<open>
  The unit tests of the journal, translated and run on the model. The random identifiers are left
  open; the seeded rows, which the test inserts with a statement of its own, are added to the table.
\<close>

definition test_journal :: "sim journal" where
  "test_journal = \<lparr>j_rows = [], j_path = ''/t/journal.sqlite3'', j_world = start_world\<rparr>"

definition seed_terminal_entries :: "libs \<Rightarrow> nat \<Rightarrow> ('w journal, journal_error, unit) io" where
  "seed_terminal_entries L count =
    modify (\<lambda>j. j\<lparr>j_rows := j_rows j @ map (\<lambda>k. \<lparr>r_id = lib_uuid_text L (of_nat k + 1), r_revision = 1, r_state = ''ignored'',
      r_source_token = ''s'', r_destination_token = ''d'', r_size = 0, r_sha256 = None, r_updated_at = int k\<rparr>) [0..<count]\<rparr>)"

definition revision_and_transition_are_enforced :: "libs \<Rightarrow> uuid \<Rightarrow> (sim journal, journal_error, bool) io" where
  "revision_and_transition_are_enforced L new_v4 =
    and_then (create L sim_os \<lparr>e_id = new_v4, e_revision = 1, e_state = Proposed, e_source_token = ''s'',
        e_destination_token = ''d'', e_size = 4, e_sha256 = None\<rparr>) (\<lambda>_.
    and_then (try_result (transition L sim_os new_v4 9 Approved)) (\<lambda>a.
    and_then (transition L sim_os new_v4 1 Approved) (\<lambda>approved.
    and_then (try_result (transition L sim_os new_v4 2 Completed)) (\<lambda>b.
    ok (a = Inl JRevisionConflict \<and> e_revision approved = 2 \<and> b = Inl InvalidTransition)))))"

definition ten_thousand_terminal_entry_limit_preserves_active_evidence :: "libs \<Rightarrow> uuid \<Rightarrow> (sim journal, journal_error, bool) io" where
  "ten_thousand_terminal_entry_limit_preserves_active_evidence L active_id =
    and_then (seed_terminal_entries L 10001) (\<lambda>_.
    and_then (create L sim_os \<lparr>e_id = active_id, e_revision = 1, e_state = Proposed, e_source_token = ''active-source'',
        e_destination_token = ''active-destination'', e_size = 4, e_sha256 = None\<rparr>) (\<lambda>_.
    and_then (enforce_retention sim_os 10000 (2 ^ 63 - 1) (- 1)) (\<lambda>pruned.
    and_then (active_count sim_os) (\<lambda>active.
    and_then (get_entry L sim_os active_id) (\<lambda>e.
    and_then (gets (\<lambda>j. length (filter (\<lambda>r. r_state r = ''ignored'') (j_rows j)))) (\<lambda>terminal_count.
    and_then (try_result (get_entry L sim_os 1)) (\<lambda>first.
    ok (pruned = 1 \<and> active = 1 \<and> e_state e = Proposed \<and> terminal_count = 10000 \<and> first = Inl JNotFound))))))))"

section \<open>Running them\<close>

lemma sim_sql:
  "sim_faults (j_world j) = [] \<Longrightarrow> sql sim_os stmt j = (case stmt (sim_clock (j_world j) div 1000000000) (j_rows j) of
     None \<Rightarrow> (Inl (Database (DbError 19)), j) | Some (x, rows) \<Rightarrow> (Inr x, j\<lparr>j_rows := rows\<rparr>))"
  by (simp add: sql_def run next_fault_def split: option.splits prod.splits)

lemmas journal_tests = sim_sql stmt_insert_def stmt_select_def stmt_update_def nonterminal_rows_def active_count_def create_def
  get_entry_def entry_of_row_def row_of_entry_def transition_def terminal_text_def allowed_def MAX_ACTIVE_def
  test_journal_def start_world_def try_result_def parse_state_def

lemma transition_test_passes:
  "fst (revision_and_transition_are_enforced L new_v4 test_journal) = Inr True"
  by (simp add: revision_and_transition_are_enforced_def journal_tests run io_defs
      i64_of_u64_def u64_of_i64_def checked_add_u64_def cong: and_then_step)

text \<open>The table of the second test, over any number of rows: the oldest goes, and nothing else.\<close>

definition seeded_row :: "libs \<Rightarrow> nat \<Rightarrow> row" where
  "seeded_row L k = \<lparr>r_id = lib_uuid_text L (of_nat k + 1), r_revision = 1, r_state = ''ignored'',
     r_source_token = ''s'', r_destination_token = ''d'', r_size = 0, r_sha256 = None, r_updated_at = int k\<rparr>"

lemma seeded_row_fields [simp]: "r_state (seeded_row L k) = ''ignored''" "r_updated_at (seeded_row L k) = int k"
  "r_id (seeded_row L k) = lib_uuid_text L (of_nat k + 1)"
  by (simp_all add: seeded_row_def)

lemma seeded_by_age: "by_age (map (seeded_row L) [0..<n]) = map (seeded_row L) [0..<n]"
  unfolding by_age_def by (rule sort_key_id_if_sorted) (simp add: comp_def sorted_iff_nth_mono)

lemma seeded_beyond:
  assumes "\<not> terminal_text (r_state q)"
  shows "beyond_newest (int n) (map (seeded_row L) [0..<Suc n] @ [q]) = [seeded_row L 0]"
proof -
  have "filter (\<lambda>r. terminal_text (r_state r)) (map (seeded_row L) [0..<Suc n] @ [q]) = map (seeded_row L) [0..<Suc n]"
    using assms by (simp add: filter_map comp_def terminal_text_def)
  then have "beyond_newest (int n) (map (seeded_row L) [0..<Suc n] @ [q]) = drop n (rev (map (seeded_row L) [0..<Suc n]))"
    by (simp only: beyond_newest_def seeded_by_age nat_int)
  then show ?thesis by (simp add: drop_rev upt_conv_Cons del: upt_Suc)
qed

lemma seeded_id:
  assumes "libs_ok L" and "k \<le> 10000" and "10001 < u"
  shows "lib_uuid_text L (of_nat k + 1) \<noteq> lib_uuid_text L u"
proof
  assume "lib_uuid_text L (of_nat k + 1) = lib_uuid_text L u"
  with assms(1) have "of_nat (Suc k) = u" by (simp add: libs_ok.uuid_text_inj add.commute)
  moreover have "unat (of_nat (Suc k) :: uuid) = Suc k" using assms(2) by (simp add: unat_of_nat del: of_nat_Suc)
  ultimately show False using assms(2,3) by (simp add: word_less_nat_alt)
qed

lemma seeded_first:
  assumes "libs_ok L" and "k \<le> 10000"
  shows "lib_uuid_text L (of_nat k + 1) = lib_uuid_text L 1 \<longleftrightarrow> k = 0"
proof -
  have "unat (of_nat k :: uuid) = k" using assms(2) by (simp add: unat_of_nat del: of_nat_Suc)
  with assms(1) show ?thesis by (auto simp: libs_ok.uuid_text_inj)
qed

lemma seeded_rows:
  fixes L :: libs and q :: row
  defines "R \<equiv> map (seeded_row L) [0..<10001]" and "T \<equiv> map (seeded_row L) [Suc 0..<10001]"
  assumes "libs_ok L" and "10001 < u" and "r_id q = lib_uuid_text L u" and "\<not> terminal_text (r_state q)"
  shows "beyond_newest 10000 (R @ [q]) = [seeded_row L 0]" and "R = seeded_row L 0 # T" and "length T = 10000"
    and "\<And>r. r \<in> set R \<Longrightarrow> r_id r \<noteq> lib_uuid_text L u" and "\<And>r. r \<in> set R \<Longrightarrow> r_state r = ''ignored''"
    and "\<And>r. r \<in> set R \<Longrightarrow> 0 \<le> r_updated_at r" and "\<And>r. r \<in> set T \<Longrightarrow> r_id r \<noteq> lib_uuid_text L 1"
    and "lib_uuid_text L u \<noteq> lib_uuid_text L 1"
proof -
  have n: "[0..<10001] = 0 # [Suc 0..<10001]" by (rule upt_conv_Cons) simp
  have suc: "(10001 :: nat) = Suc 10000" by simp
  show "beyond_newest 10000 (R @ [q]) = [seeded_row L 0]"
    unfolding R_def suc using seeded_beyond [OF assms(6), of 10000 L] by (simp only: of_nat_numeral)
  show "R = seeded_row L 0 # T" unfolding R_def T_def n by (rule list.map(2))
  show "length T = 10000" by (simp only: T_def length_map length_upt)
  show "\<And>r. r \<in> set R \<Longrightarrow> r_id r \<noteq> lib_uuid_text L u"
    unfolding R_def using seeded_id [OF assms(3) _ assms(4)] by (auto simp del: upt_rec_numeral)
  show "\<And>r. r \<in> set R \<Longrightarrow> r_state r = ''ignored''" "\<And>r. r \<in> set R \<Longrightarrow> 0 \<le> r_updated_at r"
    unfolding R_def by (auto simp del: upt_rec_numeral)
  show "\<And>r. r \<in> set T \<Longrightarrow> r_id r \<noteq> lib_uuid_text L 1"
    unfolding T_def using seeded_first [OF assms(3)] by (auto simp del: upt_rec_numeral)
  show "lib_uuid_text L u \<noteq> lib_uuid_text L 1" using assms(3,4) by (auto simp: libs_ok.uuid_text_inj)
qed

definition active_row :: "libs \<Rightarrow> uuid \<Rightarrow> row" where
  "active_row L active_id = \<lparr>r_id = lib_uuid_text L active_id, r_revision = 1, r_state = ''proposed'', r_source_token = ''active-source'',
     r_destination_token = ''active-destination'', r_size = 4, r_sha256 = None, r_updated_at = 7\<rparr>"

text \<open>What each statement of the second test selects from the table.\<close>

lemma seeded_table:
  fixes L :: libs and active_id :: uuid
  defines "R \<equiv> map (seeded_row L) [0..<10001]" and "T \<equiv> map (seeded_row L) [Suc 0..<10001]" and "q \<equiv> active_row L active_id"
  assumes "libs_ok L" and "10001 < active_id"
  shows "beyond_newest 10000 (R @ [q]) = [seeded_row L 0]" and "nonterminal_rows R = []" and "nonterminal_rows T = []"
    and "\<And>r. r \<in> set R \<Longrightarrow> r_id r \<noteq> lib_uuid_text L active_id"
    and "filter (\<lambda>r. terminal_text (r_state r) \<and> r_updated_at r < 7 - (2 ^ 63 - 1)) (R @ [q]) = []"
    and "filter (\<lambda>r. \<not> (terminal_text (r_state r) \<and> r_updated_at r < 7 - (2 ^ 63 - 1))) (R @ [q]) = R @ [q]"
    and "filter (\<lambda>r. r_id r = lib_uuid_text L 1) (R @ [q]) = [seeded_row L 0]"
    and "filter (\<lambda>r. r_id r \<noteq> lib_uuid_text L 1) (R @ [q]) = T @ [q]"
    and "List.find (\<lambda>r. r_id r = lib_uuid_text L active_id) (T @ [q]) = Some q"
    and "List.find (\<lambda>r. r_id r = lib_uuid_text L 1) (T @ [q]) = None"
    and "length (filter (\<lambda>r. r_state r = ''ignored'') (T @ [q])) = 10000"
proof -
  have q: "r_id q = lib_uuid_text L active_id" "\<not> terminal_text (r_state q)" "r_state q = ''proposed''"
    by (simp_all add: q_def active_row_def terminal_text_def)
  note seeded = seeded_rows [OF assms(4,5) q(1,2), folded R_def T_def]
  have T: "set T \<subseteq> set R" by (auto simp: seeded(2))
  show "beyond_newest 10000 (R @ [q]) = [seeded_row L 0]" by (rule seeded(1))
  show "\<And>r. r \<in> set R \<Longrightarrow> r_id r \<noteq> lib_uuid_text L active_id" by (rule seeded(4))
  show none: "nonterminal_rows R = []" using seeded(5) by (auto simp: nonterminal_rows_def filter_empty_conv terminal_text_def)
  show "nonterminal_rows T = []" using none by (simp add: seeded(2) nonterminal_rows_def split: if_splits)
  show "filter (\<lambda>r. terminal_text (r_state r) \<and> r_updated_at r < 7 - (2 ^ 63 - 1)) (R @ [q]) = []"
    "filter (\<lambda>r. \<not> (terminal_text (r_state r) \<and> r_updated_at r < 7 - (2 ^ 63 - 1))) (R @ [q]) = R @ [q]"
    using seeded(6) q(2) by (fastforce simp: filter_empty_conv filter_id_conv)+
  show "filter (\<lambda>r. r_id r = lib_uuid_text L 1) (R @ [q]) = [seeded_row L 0]"
    "filter (\<lambda>r. r_id r \<noteq> lib_uuid_text L 1) (R @ [q]) = T @ [q]"
    using seeded(7,8) q(1) by (auto simp: seeded(2) filter_empty_conv filter_id_conv)
  have "List.find (\<lambda>r. r_id r = lib_uuid_text L active_id) T = None" using seeded(4) T by (auto simp: find_None_iff)
  then show "List.find (\<lambda>r. r_id r = lib_uuid_text L active_id) (T @ [q]) = Some q"
    using q(1) by (simp add: libs_ok.find_append [OF assms(4)])
  show "List.find (\<lambda>r. r_id r = lib_uuid_text L 1) (T @ [q]) = None"
    using seeded(7,8) q(1) by (force simp: find_None_iff)
  show "length (filter (\<lambda>r. r_state r = ''ignored'') (T @ [q])) = 10000"
    using seeded(3,5) T by (subst filter_append) (simp add: q(3) filter_id_conv [THEN iffD2] subset_iff)
qed

lemma retention_test_passes:
  assumes "libs_ok L" and "10001 < active_id"
  shows "fst (ten_thousand_terminal_entry_limit_preserves_active_evidence L active_id test_journal) = Inr True"
proof -
  define q where "q = active_row L active_id"
  define R where "R = map (seeded_row L) [0..<10001]"
  define T where "T = map (seeded_row L) [Suc 0..<10001]"
  note table = seeded_table [OF assms, folded R_def T_def q_def]
  have "seed_terminal_entries L 10001 test_journal = (Inr (), test_journal\<lparr>j_rows := R\<rparr>)"
    by (simp add: seed_terminal_entries_def modify_def R_def test_journal_def seeded_row_def [abs_def] del: upt_rec_numeral)
  moreover have "create L sim_os \<lparr>e_id = active_id, e_revision = 1, e_state = Proposed, e_source_token = ''active-source'',
      e_destination_token = ''active-destination'', e_size = 4, e_sha256 = None\<rparr> (test_journal\<lparr>j_rows := R\<rparr>) =
      (Inr (), test_journal\<lparr>j_rows := R @ [q]\<rparr>)"
    using table(2,4) by (auto simp: journal_tests io_defs i64_of_u64_def q_def active_row_def)
  moreover have "enforce_retention sim_os 10000 (2 ^ 63 - 1) (- 1) (test_journal\<lparr>j_rows := R @ [q]\<rparr>) =
      (Inr 1, test_journal\<lparr>j_rows := T @ [q]\<rparr>)"
    unfolding enforce_retention_def prune_terminal_def
    using table(1,5-8)
    by (simp add: sim_sql stmt_delete_def stmt_select_def io_defs i64_of_u64_def test_journal_def start_world_def in_world_def run
      cong: and_then_step)
  moreover have "active_count sim_os (test_journal\<lparr>j_rows := T @ [q]\<rparr>) = (Inr 1, test_journal\<lparr>j_rows := T @ [q]\<rparr>)"
    using table(3) by (simp add: journal_tests q_def active_row_def)
  moreover have "get_entry L sim_os active_id (test_journal\<lparr>j_rows := T @ [q]\<rparr>) =
      (Inr \<lparr>e_id = active_id, e_revision = 1, e_state = Proposed, e_source_token = ''active-source'',
        e_destination_token = ''active-destination'', e_size = 4, e_sha256 = None\<rparr>, test_journal\<lparr>j_rows := T @ [q]\<rparr>)"
    using table(9) by (simp add: journal_tests io_defs q_def active_row_def u64_of_i64_def)
  moreover have "get_entry L sim_os 1 (test_journal\<lparr>j_rows := T @ [q]\<rparr>) = (Inl JNotFound, test_journal\<lparr>j_rows := T @ [q]\<rparr>)"
    using table(10) by (simp add: journal_tests io_defs)
  ultimately show ?thesis
    using table(11) by (simp add: ten_thousand_terminal_entry_limit_preserves_active_evidence_def and_then_def try_result_def gets_def ok_def)
qed

end
