(* ===== verification/Edge_Cases.thy ===== *)
theory Edge_Cases
  imports Service_Tests Journal_Tests Reference_Ipc Recovery_Laws
begin

text \<open>
  Corners of the program that the model shows and its documents do not: inputs the checks let
  through, rules that cannot match, and proposals that no call brings to an end.
\<close>

section \<open>Rules on a source folder\<close>

text \<open>
  The folder of a file directly under a root is written as the empty text, while a valid rule
  writes that folder as a dot; so no valid rule on a source folder matches such a file.
\<close>

lemma valid_folder_not_empty: "validate_relative_directory d = Inr () \<Longrightarrow> d \<noteq> []"
  by (auto simp: validate_relative_directory_def split: if_splits)

lemma lossy_empty: "to_string_lossy [] = []"
  by code_simp

lemma top_level_folder_unmatched:
  assumes "validate_predicate G (SourceDirectory d) = Inr ()" and "parent p = Some []"
  shows "\<not> predicate_matches G (SourceDirectory d) (facts_for p i b)"
  using assms valid_folder_not_empty by (auto simp: facts_for_def lossy_empty)

lemma top_level_example: "parent ''a.pdf'' = Some []"
  by code_simp

section \<open>New names\<close>

text \<open>The check of \<open>rename\<close> counts components, so a trailing slash or dot passes it.\<close>

lemma rename_accepts_trailing_slash:
  "length (components ''a/'') = 1 \<and> is_normal (hd (components ''a/'')) \<and>
   length (components ''a/.'') = 1 \<and> is_normal (hd (components ''a/.''))"
  by code_simp

section \<open>Proposals left behind\<close>

text \<open>
  An approval whose move fails after the journal has it as approved: until the next start the
  proposal is shown as proposed at its new revision, and every further approval of it fails.
\<close>

definition busy_service :: "sim service" where
  "busy_service = letter_service\<lparr>sv_world := house_tree\<lparr>sim_state := Some ''.'', sim_faults := failing_after 14\<rparr>\<rparr>"

definition stuck_service :: "sim service" where
  "stuck_service = letter_service\<lparr>sv_state := house\<lparr>ps_proposals := [letter_proposal\<lparr>p_revision := 2\<rparr>]\<rparr>,
     sv_rows := [letter_row\<lparr>r_revision := 2, r_state := ''approved'', r_updated_at := 7\<rparr>],
     sv_world := house_tree\<lparr>sim_state := Some ''.''\<rparr>\<rparr>"

lemma failed_move_sticks:
  "approve ref_libs crash_codec sim_os 7 1 busy_service = (Inl (SFs (FsIo (ERRNO 5))), stuck_service)"
  by (simp add: in_restart busy_service_def stuck_service_def cong: and_then_step)

lemma stuck_not_approved:
  "fst (approve ref_libs crash_codec sim_os 7 2 stuck_service) = Inl (SJournal InvalidTransition)"
  by (simp add: in_restart stuck_service_def cong: and_then_step)

text \<open>
  A stop between the transition to \<open>Completed\<close> and the save: the start loads the old proposal, finds
  no active entry to settle, and shows as proposed what the journal has as completed.
\<close>

definition unsaved_service :: "sim service" where
  "unsaved_service = letter_service\<lparr>sv_state := house\<lparr>ps_proposals := [letter_proposal\<lparr>p_revision := 2\<rparr>]\<rparr>,
     sv_rows := [letter_row\<lparr>r_revision := 5, r_state := ''completed'', r_updated_at := 7\<rparr>],
     sv_world := moved_tree\<lparr>sim_state := Some ''.''\<rparr>\<rparr>"

lemma completed_unsaved:
  "approve ref_libs crash_codec sim_os 7 1
     (letter_service\<lparr>sv_world := house_tree\<lparr>sim_state := Some ''.'', sim_faults := failing_after 27\<rparr>\<rparr>) =
   (Inl (SJournal (Database (DbError 0))), unsaved_service)"
  by (simp add: in_restart unsaved_service_def cong: and_then_step)

lemma completed_not_repaired:
  "case open_service ref_libs crash_codec sim_os unsaved_service of (r, s) \<Rightarrow>
     r = Inr () \<and> sv_state s = house \<and> map r_state (sv_rows s) = [''completed''] \<and>
     map p_status (ps_proposals (sv_state s)) = [''proposed'']"
  by (simp add: in_restart unsaved_service_def cong: and_then_step)

section \<open>Files that end the scan\<close>

text \<open>One hard-linked file in a watched folder ends the scan, whatever else waits in the folder.\<close>

definition linked_tree :: sim where
  "linked_tree = with_file src_dir ''done.pdf'' (Obj 1 11) (file_with ''%PDF-payload'' 1 420)
     (with_file src_dir ''linked'' (Obj 1 10) (file_with ''data'' 2 420) (bench_tree ''watched''))"

definition scan_of_linked :: "(sim service, service_error, nat) io" where
  "scan_of_linked = and_then (open_service ref_libs (last_codec fresh_state) sim_os) (\<lambda>_.
     and_then (add_root (last_codec fresh_state) sim_os ''/t/watched'' True True) (\<lambda>_.
     scan_once ref_libs (last_codec fresh_state) sim_os))"

lemma linked_file_ends_scan: "fst (scan_of_linked (process_on linked_tree)) = Inl (SFs UnsafeSource)"
  by (simp add: scan_of_linked_def linked_tree_def service_tests cong: and_then_step)

section \<open>Entries beyond the listing\<close>

text \<open>
  An undo makes an entry active again and asks no one how many there are. Behind a thousand waiting
  entries a stopped undo is not in the listing of the next start, nor of any later one while they
  wait: recovery succeeds and leaves it as it was.
\<close>

definition waiting_row :: "libs \<Rightarrow> nat \<Rightarrow> row" where
  "waiting_row L k = (seeded_row L k)\<lparr>r_state := ''proposed''\<rparr>"

definition stopped_row :: "libs \<Rightarrow> uuid \<Rightarrow> row" where
  "stopped_row L u = (seeded_row L 1000)\<lparr>r_id := lib_uuid_text L u, r_revision := 6, r_state := ''undoing''\<rparr>"

definition crowded :: "libs \<Rightarrow> uuid \<Rightarrow> row list" where
  "crowded L u = map (waiting_row L) [0..<1000] @ [stopped_row L u]"

lemma crowded_rows:
  "r_id (waiting_row L k) = lib_uuid_text L (of_nat k + 1)" "r_state (waiting_row L k) = ''proposed''"
  "r_updated_at (waiting_row L k) = int k" "r_id (stopped_row L u) = lib_uuid_text L u"
  "r_state (stopped_row L u) = ''undoing''" "r_updated_at (stopped_row L u) = 1000"
  by (simp_all add: waiting_row_def stopped_row_def)

lemma proposed_undoing: "''proposed'' = as_str Proposed" "''undoing'' = as_str Undoing"
  by simp_all

lemma crowded_ids:
  assumes "libs_ok L" and "10001 < u"
  shows "lib_uuid_text L u \<notin> (\<lambda>k. lib_uuid_text L (of_nat k + 1)) ` {0..<1000}"
proof
  assume "lib_uuid_text L u \<in> (\<lambda>k. lib_uuid_text L (of_nat k + 1)) ` {0..<1000}"
  then obtain k where "k < 1000" and "lib_uuid_text L (of_nat k + 1) = lib_uuid_text L u" by force
  with seeded_id [OF assms(1) _ assms(2), of k] show False by simp
qed

lemma crowded_ok:
  assumes L: "libs_ok L" and "10001 < u"
  shows "rows_ok L (crowded L u)"
proof -
  have "inj_on (\<lambda>k. lib_uuid_text L (of_nat k + 1)) {0..<1000}"
  proof (rule inj_onI)
    fix j k :: nat assume "j \<in> {0..<1000}" "k \<in> {0..<1000}" and same: "lib_uuid_text L (of_nat j + 1) = lib_uuid_text L (of_nat k + 1)"
    then have "unat (of_nat j :: uuid) = j" "unat (of_nat k :: uuid) = k" by (simp_all add: unat_of_nat)
    moreover have "(of_nat j :: uuid) = of_nat k" using same libs_ok.uuid_text_inj [OF L] by simp
    ultimately show "j = k" by metis
  qed
  then have "distinct (map r_id (crowded L u))"
    unfolding crowded_def using crowded_ids [OF assms]
    by (simp add: distinct_map comp_def crowded_rows image_image del: upt_rec_numeral)
  moreover have "row_ok L r" if "r \<in> set (crowded L u)" for r
  proof -
    have st: "''proposed'' \<in> range as_str" "''undoing'' \<in> range as_str" by (metis proposed_undoing rangeI)+
    show ?thesis
      using that st by (auto simp: crowded_def row_ok_def waiting_row_def stopped_row_def seeded_row_def simp del: upt_rec_numeral)
  qed
  ultimately show ?thesis by (simp add: rows_ok_def)
qed

lemma crowded_listing:
  assumes "libs_ok L" and "10001 < u"
  shows "u \<notin> oldest_active L (crowded L u)"
proof -
  have "nonterminal_rows (crowded L u) = crowded L u"
    unfolding nonterminal_rows_def crowded_def
    by (auto simp: crowded_rows terminal_text_def filter_id_conv simp del: upt_rec_numeral)
  moreover have "by_age (crowded L u) = crowded L u"
  proof -
    have "sorted (map r_updated_at (map (waiting_row L) [0..<1000]))"
      by (simp add: comp_def crowded_rows sorted_iff_nth_mono del: upt_rec_numeral)
    then show ?thesis unfolding by_age_def crowded_def
      by (intro sort_key_id_if_sorted) (auto simp: sorted_append crowded_rows simp del: upt_rec_numeral)
  qed
  ultimately have "take 1000 (by_age (nonterminal_rows (crowded L u))) = map (waiting_row L) [0..<1000]"
    by (simp add: crowded_def del: upt_rec_numeral)
  then show ?thesis using crowded_ids [OF assms]
    by (simp add: oldest_active_def comp_def crowded_rows image_image del: upt_rec_numeral)
qed

lemma stopped_undo_stays:
  assumes "posix S view" and "libs_ok L" and "10001 < u" and "sv_rows s = crowded L u"
    and "recover_without_guessing L C S s = (Inr z, s')"
  shows "entries_in L s' u = entries_in L s u"
  using setting.recover_settles [OF setting.intro [OF assms(1,2)] _ assms(5), of u]
    crowded_ok [OF assms(2,3)] crowded_listing [OF assms(2,3)] assms(4) by simp

section \<open>Answers\<close>

text \<open>A proposal of a file dated after 2554 ends the daemon on the next \<open>queue_list\<close>.\<close>

lemma far_future_panics:
  "fst (dispatch_data ref_libs house_codec (ref_json (request_for ''status'') blank) sim_os (request_for ''queue_list'')
     (letter_service\<lparr>sv_state := house\<lparr>ps_proposals := [letter_proposal\<lparr>p_modified_ns := 18446744074000000000\<rparr>]\<rparr>\<rparr>)) = Inl Panic"
  by (simp add: dispatch_data_def request_for_def answering_def state_of_def and_then_def map_err_def queue_value_def
      queue_list_def letter_proposal_def ref_json_def)

end
