(* ===== verification/Spec2Isabelle.thy ===== *)
theory Spec2Isabelle
  imports Rules_Properties Journal_Properties Fs_Properties Move_Properties Restart_Properties Service_Properties
    Review_Properties Command_Properties
    Edge_Cases Journal_Tests Service_Tests
begin

text \<open>
  Omarchy Sorting Hat, a model of its Rust program and the theorems that make it correct.

  \<^bold>\<open>The program.\<close> A user names folders to watch and folders to sort into. A daemon
  (\<open>sortinghatd\<close>) scans the watched folders, proposes a destination for every settled file, by
  rules or by an optional classifier process, and moves a file only after the user approved the
  proposal; a completed move can be undone. The command line (\<open>sortinghat\<close>) sends the daemon one
  request per run over a local socket. Every move is recorded in a journal (SQLite) before and
  after each step, and a restart settles what a stopped process left there.

  \<^bold>\<open>The model, in the order of the crates.\<close>

    \<^item> \<open>Prelude\<close>, \<open>Rust_Text\<close>, \<open>Rust_Path\<close>: machine integers at their width, results as sums,
      computations \<open>'s \<Rightarrow> (error + value) \<times> 's\<close> composed by \<open>and_then\<close> (the operator \<open>?\<close>), and
      the parts of \<open>std\<close> the crates use: byte strings with UTF-8 decoding, and paths.

    \<^item> \<open>World\<close>: what the repository calls and does not contain. Pure third-party functions are
      the record \<open>libs\<close> with the contract \<open>libs_ok\<close>; system calls are the record \<open>os\<close>, each a
      computation on a world of any type that can fail at every call, with the contract \<open>posix\<close>
      over the view \<open>fsview\<close> of the world: objects, folder entries, and the state file. Starting,
      polling, killing and awaiting the classifier's process are such calls.

    \<^item> \<open>Core_Rules\<close>: \<open>sortinghat-core\<close>, the rule engine.

    \<^item> \<open>Fs_Primitives\<close>: \<open>sortinghat-fs\<close>, identities, descriptor-based opening, the atomic move,
      the staged copy with its verification, the removal of the source, the stability samples.

    \<^item> \<open>Journal\<close>: \<open>sortinghat-journal\<close>. The table is the list of its rows; each statement is a
      selection, insertion, update or deletion on that list and can fail.

    \<^item> \<open>Agent\<close>: \<open>sortinghat-agent\<close>, the classifier's process and the validation of its answer.

    \<^item> \<open>Service_State\<close>, \<open>Service_Move\<close>, \<open>Service_Review\<close>, \<open>Service_Queue\<close>, \<open>Service_Recovery\<close>:
      \<open>sortinghat-service\<close>. The record \<open>service\<close> is the struct \<open>Service\<close>: its persistent state, its
      stability samples, the journal's rows and path, and the world. One definition per method;
      \<open>approve\<close>, \<open>undo\<close> and \<open>consider\<close> are split where they get long, and composed as in the code.
      \<open>open_service\<close> reads the state file call by call, as \<open>save\<close> writes it: the sibling file, its
      sync, the rename and the sync of the folder are one call each, and each can fail.

    \<^item> \<open>Ipc\<close>, \<open>Daemon\<close>, \<open>Client\<close>: \<open>sortinghat-cli\<close>: the protocol, the daemon's start
      (an old socket is removed, the new one is bound and its mode set), its dispatch and loop, and
      the request each command sends with what is printed of the answer. The socket and the clock are
      the record \<open>net\<close>, \<open>serde_json\<close> the records \<open>codec\<close> and \<open>ipc_json\<close>; whether \<open>json!\<close> has a
      value for an \<open>i128\<close>, or panics, is the field \<open>json_i128\<close>.

  \<^bold>\<open>The lemmas.\<close>

    \<^item> \<open>Rules_Properties\<close>: the engine returns the decision of the matching rules that no matching
      rule outranks, whatever the order of the rules; its errors are characterised exactly.

    \<^item> \<open>Fs_Laws\<close>, \<open>Fs_Properties\<close>: what each primitive can have done to the tree, for every pattern
      of failing calls. The laws are stated as \<open>effect\<close>: a relation for success, one for failure.

    \<^item> \<open>Journal_Laws\<close>, \<open>Journal_History\<close>, \<open>Journal_Properties\<close>: the table refines a finite map
      from ids to entries (\<open>entries_of\<close>), a failed statement included; every entry follows the step
      relation \<open>entry_step\<close> over any sequence of operations; retention and the recovery listing.

    \<^item> \<open>Approve_Laws\<close>, \<open>Move_Laws\<close>, \<open>Move_Results\<close>, \<open>Move_Properties\<close>: wherever \<open>approve\<close> or \<open>undo\<close>
      stops, no content is lost, no other entry of the tree changes, and the journal knew of the
      intent before any file changed; and what a success returns, records and saves.

    \<^item> \<open>Restart_Laws\<close>, \<open>Reference_Restart\<close>, \<open>Restart_Properties\<close>: the move, the journal and the restart
      together. Wherever \<open>approve\<close> or \<open>undo\<close> stopped, a start that succeeds on what was left has the
      content at one of the two places and no entry half-way that its listing reached; and a proposal
      is moved once by an approval and once by an undo. The listing has the thousand active entries
      that have not changed for longest (\<open>oldest_active\<close>); those beyond it are \<open>unlisted\<close>, and with
      at most a thousand active entries there are none.

    \<^item> \<open>Walk_Laws\<close>, \<open>Review_Laws\<close>, \<open>Review_Properties\<close>: the walk finds every regular file below a root,
      within its limits on depth, folders and files, or fails; after a choice of destination or a rename, proposal and journal
      entry agree; a rule created from a proposal decides a file like it.

    \<^item> \<open>Service_Laws\<close>, \<open>Service_Frame\<close>, \<open>Service_Memory\<close>, \<open>Service_Limits\<close>: the interfaces
      \<open>service_frame\<close>, \<open>move_frame\<close> and \<open>setting\<close>: what survives a few kinds of step survives every
      operation. They are instantiated for the files, the journal's history and the limits of
      the state.

    \<^item> \<open>Recovery_Laws\<close>, \<open>Save_Laws\<close>, \<open>Scan_Laws\<close>, \<open>Service_Properties\<close>: the restart, the state
      file, the scan and the wait for the classifier.

    \<^item> \<open>Daemon_Frame\<close>, \<open>Daemon_Properties\<close>, \<open>Panic_Laws\<close>, \<open>Command_Properties\<close>: the interface \<open>operations\<close> lifts
      what every operation keeps to requests, connections and any number of rounds; who is
      served, what is answered, that every command reaches the operation it names, and that no
      request makes \<open>json!\<close> panic while the times of the files are ordinary.

    \<^item> \<open>Edge_Cases\<close>: corners where the code does something its documents do not say, each
      shown on the rule, the name or the run that reaches it.

    \<^item> \<open>Unit_Tests\<close>, \<open>Journal_Tests\<close>, \<open>Service_Tests\<close>: the unit tests of the repository, translated and
      run on the definitions. They validate the model against what the authors expect of the code:
      each test is a boolean or a computation that returns one, and its lemma says it passes.

    \<^item> \<open>Reference_Os\<close>, \<open>Reference_Libs\<close>, \<open>Reference_Run\<close>, \<open>Reference_Service\<close>, \<open>Reference_Ipc\<close>:
      an executable world, library and socket that satisfy every contract, and a small service
      on them, where the witnesses run the model. They stand for no code of the repository.

  \<^bold>\<open>Crashes and failures.\<close> No law says when a system call or a statement succeeds, so every
  theorem holds for each pattern of failures, and therefore for a process stopped between any two
  calls: what holds after a call that failed holds of a process that went no further.

  \<^bold>\<open>Bounds and fuel.\<close> The walk of a root is a total function: it visits at most
  \<open>MAX_WALK_DIRECTORIES\<close> folders and then fails, as the code does. The wait for the classifier
  takes \<open>poll_fuel\<close> = 1202 polls, more than the 1200 pauses of 25 ms a deadline of 30 s has room for;
  \<open>poll_loop_fuel\<close> shows that more polls change nothing. The daemon's loop has no end but an error,
  so its properties are over \<open>rounds\<close> with any number of rounds. All integers the code keeps at a
  width are kept there, with the checked, saturating and narrowing operations written out.

  \<^bold>\<open>Not modelled.\<close> Third-party code is a parameter: \<open>globset\<close>, \<open>sha2\<close>, \<open>base64\<close>, \<open>uuid\<close>,
  \<open>serde_json\<close>, \<open>rusqlite\<close> (of which the model has the statements the code executes, in a
  transaction of their own each), \<open>clap\<close> (the model starts from the parsed command) and the
  kernel. The contract \<open>posix\<close> has no other process change the files between two calls of one
  operation, the classifier's own process included, and a call that blocks (a read, a write, the
  wait for a killed classifier) returns in the end, with a value or an error; the model of the daemon handles one connection at a time, as the code does. Texts
  of error messages are a parameter. The one unit test that is left out, \<open>unknown_fields_are_rejected\<close>,
  is about \<open>serde_json\<close>. The desktop panel, the packaging and the scripts are in other languages.
\<close>

end
